theory Spec2Isabelle
  imports Complex_Main
begin

section \<open>Atoms and their values (src/opencog/atomspace/Atom.js)\<close>

text \<open>
  JavaScript numbers are modelled as real numbers: every formula of the program is read as
  exact arithmetic, the rounding of IEEE doubles is not part of the model.

  An atom identifier is the opaque string produced by \<open>uuidv4()\<close>. Atom objects are mutable
  and shared by reference between the store's \<open>Map\<close>, the \<open>outgoing\<close> arrays and the
  \<open>incoming\<close> sets, so the model keeps them in a heap: a reference to an Atom object is
  its identifier, and \<open>atom.id\<close> is the reference itself. The side map \<open>values\<close> and the
  \<open>timestamp\<close> of an atom are written by no operation modelled here and are left out.
  The field \<open>type\<close> of an atom is \<open>atom_type\<close> here.
\<close>

type_synonym ident = string

datatype error = TypeError | Error string

text \<open>
  Class \<open>TruthValue\<close> declares \<open>getMean\<close>, \<open>getConfidence\<close>, \<open>setStrength\<close>,
  \<open>setConfidence\<close>, \<open>isValid\<close>, \<open>toJSON\<close> and \<open>toString\<close>. It declares no method
  \<open>getStrength\<close>, and nothing in the repository adds one to the prototype, so the call
  \<open>tv.getStrength()\<close> made by PLN.js and ECAN.js on an object built by
  \<open>new TruthValue(...)\<close> applies \<open>undefined\<close> and raises a TypeError.

  An atom keeps as its truth value whatever object it is handed
  (\<open>this.tv = tv || new TruthValue()\<close> in the constructor, \<open>this.tv = tv\<close> in
  \<open>setTruthValue\<close>), so an object of a class of the caller's that extends \<open>TruthValue\<close>
  with a method \<open>getStrength\<close> can be the truth value of an atom. The field
  \<open>getStrength_method\<close> tells the two kinds of object apart: it is \<open>None\<close> for an object
  without the method, and holds the number the method returns otherwise.
\<close>

record TruthValue =
  strength :: real
  confidence :: real
  getStrength_method :: "real option"

text \<open>The constructor clamps both components to the unit interval.\<close>

definition new_TruthValue :: "real \<Rightarrow> real \<Rightarrow> TruthValue" where
  "new_TruthValue s c =
     \<lparr>strength = max 0 (min 1 s), confidence = max 0 (min 1 c), getStrength_method = None\<rparr>"

definition default_TruthValue :: TruthValue where
  "default_TruthValue = new_TruthValue (1/2) 0"

definition getMean :: "TruthValue \<Rightarrow> real" where
  "getMean t = strength t"

definition getConfidence :: "TruthValue \<Rightarrow> real" where
  "getConfidence t = confidence t"

definition getStrength :: "TruthValue \<Rightarrow> error + real" where
  "getStrength t = (case getStrength_method t of None \<Rightarrow> Inl TypeError | Some s \<Rightarrow> Inr s)"

record AttentionValue =
  sti :: real
  lti :: real
  vlti :: bool

definition new_AttentionValue :: AttentionValue where
  "new_AttentionValue = \<lparr>sti = 0, lti = 0, vlti = False\<rparr>"

record Atom =
  atom_type :: string
  name :: "string option"
  outgoing :: "ident list"
  tv :: TruthValue
  av :: AttentionValue
  incoming :: "ident list"

definition isNode :: "Atom \<Rightarrow> bool" where
  "isNode a = (length (outgoing a) = 0)"

definition isLink :: "Atom \<Rightarrow> bool" where
  "isLink a = (length (outgoing a) > 0)"

definition getArity :: "Atom \<Rightarrow> nat" where
  "getArity a = length (outgoing a)"

text \<open>JavaScript truthiness of a name: \<open>null\<close> and the empty string are falsy.\<close>

definition truthy_name :: "string option \<Rightarrow> bool" where
  "truthy_name nm = (case nm of None \<Rightarrow> False | Some n \<Rightarrow> n \<noteq> [])"

definition setSTI :: "real \<Rightarrow> Atom \<Rightarrow> Atom" where
  "setSTI v a = a\<lparr>av := (av a)\<lparr>sti := v\<rparr>\<rparr>"

definition getSTI :: "Atom \<Rightarrow> real" where
  "getSTI a = sti (av a)"

definition getLTI :: "Atom \<Rightarrow> real" where
  "getLTI a = lti (av a)"

definition getVLTI :: "Atom \<Rightarrow> bool" where
  "getVLTI a = vlti (av a)"

definition setTruthValue :: "TruthValue \<Rightarrow> Atom \<Rightarrow> Atom" where
  "setTruthValue t a = a\<lparr>tv := t\<rparr>"

definition addIncoming :: "ident \<Rightarrow> Atom \<Rightarrow> Atom" where
  "addIncoming i a = a\<lparr>incoming := (if i \<in> set (incoming a) then incoming a else incoming a @ [i])\<rparr>"

definition removeIncoming :: "ident \<Rightarrow> Atom \<Rightarrow> Atom" where
  "removeIncoming i a = a\<lparr>incoming := removeAll i (incoming a)\<rparr>"

section \<open>JavaScript sets in insertion order\<close>

text \<open>A \<open>Set\<close> is a list without repetition, in insertion order.\<close>

definition set_add :: "'a \<Rightarrow> 'a list \<Rightarrow> 'a list" where
  "set_add x xs = (if x \<in> set xs then xs else xs @ [x])"

definition set_delete :: "'a \<Rightarrow> 'a list \<Rightarrow> 'a list" where
  "set_delete x xs = removeAll x xs"

definition get_or_empty :: "('k \<rightharpoonup> 'a list) \<Rightarrow> 'k \<Rightarrow> 'a list" where
  "get_or_empty m k = (case m k of None \<Rightarrow> [] | Some s \<Rightarrow> s)"

section \<open>The graph store (AtomSpace.js)\<close>

text \<open>
  \<open>heap\<close> holds every Atom object, stored in the graph or not; \<open>uuids\<close> is the sequence of
  identifiers that the coming calls of \<open>uuidv4()\<close> return. The other fields are those of
  class \<open>AtomSpace\<close>: \<open>atoms\<close> is the key sequence of the \<open>Map\<close> from identifiers to atom
  objects, in insertion order (the value stored under a key is the object with that
  identifier), and \<open>asize\<close> is the field \<open>size\<close>.
\<close>

record AtomSpace =
  heap :: "ident \<rightharpoonup> Atom"
  uuids :: "nat \<Rightarrow> ident"
  atoms :: "ident list"
  typeIndex :: "string \<rightharpoonup> ident list"
  nameIndex :: "string \<rightharpoonup> ident list"
  incomingIndex :: "ident \<rightharpoonup> ident list"
  attentionalFocus :: "ident list"
  asize :: int

definition new_AtomSpace :: "(nat \<Rightarrow> ident) \<Rightarrow> AtomSpace" where
  "new_AtomSpace u = \<lparr>heap = Map.empty, uuids = u, atoms = [], typeIndex = Map.empty,
     nameIndex = Map.empty, incomingIndex = Map.empty, attentionalFocus = [], asize = 0\<rparr>"

text \<open>Mutation of the Atom object behind a reference.\<close>

definition mutate :: "ident \<Rightarrow> (Atom \<Rightarrow> Atom) \<Rightarrow> AtomSpace \<Rightarrow> AtomSpace" where
  "mutate i f g = g\<lparr>heap := (heap g)(i := map_option f (heap g i))\<rparr>"

text \<open>
  \<open>new Atom(type, name, outgoing, tv)\<close>: the object gets the next identifier of
  \<open>uuidv4()\<close>, the default truth value when \<open>tv\<close> is \<open>null\<close>, a zero attention value and
  an empty incoming set.
\<close>

definition new_Atom :: "string \<Rightarrow> string option \<Rightarrow> ident list \<Rightarrow> TruthValue option \<Rightarrow> AtomSpace \<Rightarrow> ident \<times> AtomSpace" where
  "new_Atom ty nm out tvo g =
     (let i = uuids g 0;
          a = \<lparr>atom_type = ty, name = nm, outgoing = out,
               tv = (case tvo of Some t \<Rightarrow> t | None \<Rightarrow> default_TruthValue),
               av = new_AttentionValue, incoming = []\<rparr>
      in (i, g\<lparr>heap := (heap g)(i \<mapsto> a), uuids := (\<lambda>n. uuids g (Suc n))\<rparr>))"

definition getAtom :: "ident \<Rightarrow> AtomSpace \<Rightarrow> Atom option" where
  "getAtom i g = (if i \<in> set (atoms g) then heap g i else None)"

definition hasAtom :: "ident \<Rightarrow> AtomSpace \<Rightarrow> bool" where
  "hasAtom i g = (i \<in> set (atoms g))"

definition getAllAtoms :: "AtomSpace \<Rightarrow> ident list" where
  "getAllAtoms g = atoms g"

definition getSize :: "AtomSpace \<Rightarrow> int" where
  "getSize g = asize g"

text \<open>The loop of \<open>addAtom\<close> over \<open>atom.outgoing\<close>: one step per outgoing atom.\<close>

definition wire_incoming :: "ident \<Rightarrow> ident \<Rightarrow> AtomSpace \<Rightarrow> AtomSpace" where
  "wire_incoming i out g =
     (mutate out (addIncoming i) g)
       \<lparr>incomingIndex := (incomingIndex g)(out \<mapsto> set_add i (get_or_empty (incomingIndex g) out))\<rparr>"

text \<open>
  \<open>addAtom(atom)\<close> for a reference to an Atom object, so the \<open>instanceof\<close> test passes;
  a reference behind which the heap holds no object stands for no JavaScript value, and
  the model leaves the store as it is there.
\<close>

definition addAtom :: "ident \<Rightarrow> AtomSpace \<Rightarrow> ident \<times> AtomSpace" where
  "addAtom i g =
     (case heap g i of
        None \<Rightarrow> (i, g)
      | Some atom \<Rightarrow>
          if i \<in> set (atoms g) then (i, g)
          else
            let g1 = g\<lparr>atoms := atoms g @ [i], asize := asize g + 1\<rparr>;
                g2 = g1\<lparr>typeIndex := (typeIndex g1)(atom_type atom \<mapsto>
                          set_add i (get_or_empty (typeIndex g1) (atom_type atom)))\<rparr>;
                g3 = (if isNode atom \<and> truthy_name (name atom)
                      then g2\<lparr>nameIndex := (nameIndex g2)(the (name atom) \<mapsto>
                             set_add i (get_or_empty (nameIndex g2) (the (name atom))))\<rparr>
                      else g2);
                g4 = fold (wire_incoming i) (outgoing atom) g3
            in (i, g4))"

text \<open>
  The bodies of the two loops of \<open>removeAtom\<close>: over \<open>atom.outgoing\<close>, and over the
  set that the incoming index holds for the removed atom.
\<close>

definition unwire_incoming :: "ident \<Rightarrow> ident \<Rightarrow> AtomSpace \<Rightarrow> AtomSpace" where
  "unwire_incoming i out g =
     (mutate out (removeIncoming i) g)
       \<lparr>incomingIndex := (case incomingIndex g out of
                           None \<Rightarrow> incomingIndex g
                         | Some s \<Rightarrow> (incomingIndex g)(out \<mapsto> set_delete i s))\<rparr>"

definition remove_incoming_reference :: "ident \<Rightarrow> ident \<Rightarrow> AtomSpace \<Rightarrow> AtomSpace" where
  "remove_incoming_reference i incomingId g =
     (if incomingId \<in> set (atoms g) then mutate incomingId (removeIncoming i) g else g)"

definition remove_from_typeIndex :: "ident \<Rightarrow> Atom \<Rightarrow> AtomSpace \<Rightarrow> AtomSpace" where
  "remove_from_typeIndex atomId atom g =
     (case typeIndex g (atom_type atom) of
        None \<Rightarrow> g
      | Some typeSet \<Rightarrow>
          (if set_delete atomId typeSet = []
           then g\<lparr>typeIndex := (typeIndex g)(atom_type atom := None)\<rparr>
           else g\<lparr>typeIndex := (typeIndex g)(atom_type atom \<mapsto> set_delete atomId typeSet)\<rparr>))"

definition remove_from_nameIndex :: "ident \<Rightarrow> Atom \<Rightarrow> AtomSpace \<Rightarrow> AtomSpace" where
  "remove_from_nameIndex atomId atom g =
     (if truthy_name (name atom)
      then (case nameIndex g (the (name atom)) of
              None \<Rightarrow> g
            | Some nameSet \<Rightarrow>
                (if set_delete atomId nameSet = []
                 then g\<lparr>nameIndex := (nameIndex g)(the (name atom) := None)\<rparr>
                 else g\<lparr>nameIndex := (nameIndex g)(the (name atom) \<mapsto> set_delete atomId nameSet)\<rparr>))
      else g)"

definition remove_incoming_references :: "ident \<Rightarrow> AtomSpace \<Rightarrow> AtomSpace" where
  "remove_incoming_references atomId g =
     (case incomingIndex g atomId of
        None \<Rightarrow> g
      | Some incomingSet \<Rightarrow>
          (fold (remove_incoming_reference atomId) incomingSet g)
            \<lparr>incomingIndex := (incomingIndex g)(atomId := None)\<rparr>)"

text \<open>
  \<open>removeAtom\<close>, block by block: the focus, the type index, the name index, the incoming
  sets of the outgoing atoms, the block headed \<open>Remove incoming references\<close>, and the
  main store. No block writes to an \<open>outgoing\<close> array.
\<close>

definition removeAtom :: "ident \<Rightarrow> AtomSpace \<Rightarrow> bool \<times> AtomSpace" where
  "removeAtom atomId g =
     (case getAtom atomId g of
        None \<Rightarrow> (False, g)
      | Some atom \<Rightarrow>
          let g1 = g\<lparr>attentionalFocus := set_delete atomId (attentionalFocus g)\<rparr>;
              g2 = remove_from_typeIndex atomId atom g1;
              g3 = remove_from_nameIndex atomId atom g2;
              g4 = fold (unwire_incoming atomId) (outgoing atom) g3;
              g5 = remove_incoming_references atomId g4;
              g6 = g5\<lparr>atoms := set_delete atomId (atoms g5), asize := asize g5 - 1\<rparr>
          in (True, g6))"

text \<open>
  The loops of \<open>getNodeByName\<close> and \<open>getLinkByOutgoing\<close>: the first identifier of the index
  set whose atom is stored and passes the test.
\<close>

fun first_atom :: "(Atom \<Rightarrow> bool) \<Rightarrow> AtomSpace \<Rightarrow> ident list \<Rightarrow> ident option" where
  "first_atom P g [] = None"
| "first_atom P g (i # is) =
     (case getAtom i g of
        Some a \<Rightarrow> (if P a then Some i else first_atom P g is)
      | None \<Rightarrow> first_atom P g is)"

text \<open>
  \<open>nameIndex.get(name)\<close> is \<open>undefined\<close> for \<open>name = null\<close>: \<open>addAtom\<close> indexes truthy names
  only, so the index never holds the key \<open>null\<close>.
\<close>

definition getNodeByName :: "string \<Rightarrow> string option \<Rightarrow> AtomSpace \<Rightarrow> ident option" where
  "getNodeByName ty nm g =
     (case nm of
        None \<Rightarrow> None
      | Some n \<Rightarrow>
          (case nameIndex g n of
             None \<Rightarrow> None
           | Some nameSet \<Rightarrow> first_atom (\<lambda>a. atom_type a = ty) g nameSet))"

fun arraysEqual :: "ident list \<Rightarrow> ident list \<Rightarrow> bool" where
  "arraysEqual [] [] = True"
| "arraysEqual (x # xs) (y # ys) = (if x \<noteq> y then False else arraysEqual xs ys)"
| "arraysEqual _ _ = False"

definition getLinkByOutgoing :: "string \<Rightarrow> ident list \<Rightarrow> AtomSpace \<Rightarrow> ident option" where
  "getLinkByOutgoing ty out g =
     (case typeIndex g ty of
        None \<Rightarrow> None
      | Some typeSet \<Rightarrow> first_atom (\<lambda>a. isLink a \<and> arraysEqual (outgoing a) out) g typeSet)"

definition addNode :: "string \<Rightarrow> string option \<Rightarrow> TruthValue option \<Rightarrow> AtomSpace \<Rightarrow> ident \<times> AtomSpace" where
  "addNode ty nm tvo g =
     (case getNodeByName ty nm g of
        Some existing \<Rightarrow>
          (case tvo of
             Some t \<Rightarrow> (existing, mutate existing (setTruthValue t) g)
           | None \<Rightarrow> (existing, g))
      | None \<Rightarrow> (let (atom, g1) = new_Atom ty nm [] tvo g in addAtom atom g1))"

definition addLink :: "string \<Rightarrow> ident list \<Rightarrow> TruthValue option \<Rightarrow> AtomSpace \<Rightarrow> ident \<times> AtomSpace" where
  "addLink ty out tvo g =
     (case getLinkByOutgoing ty out g of
        Some existing \<Rightarrow>
          (case tvo of
             Some t \<Rightarrow> (existing, mutate existing (setTruthValue t) g)
           | None \<Rightarrow> (existing, g))
      | None \<Rightarrow> (let (atom, g1) = new_Atom ty None out tvo g in addAtom atom g1))"

definition getAtomsByType :: "string \<Rightarrow> AtomSpace \<Rightarrow> ident list" where
  "getAtomsByType ty g =
     (case typeIndex g ty of
        None \<Rightarrow> []
      | Some typeSet \<Rightarrow> filter (\<lambda>i. getAtom i g \<noteq> None) typeSet)"

definition getIncoming :: "ident \<Rightarrow> AtomSpace \<Rightarrow> ident list" where
  "getIncoming i g =
     (case incomingIndex g i of
        None \<Rightarrow> []
      | Some s \<Rightarrow> filter (\<lambda>j. getAtom j g \<noteq> None) s)"

definition addToAttentionalFocus :: "ident \<Rightarrow> AtomSpace \<Rightarrow> bool \<times> AtomSpace" where
  "addToAttentionalFocus i g =
     (if hasAtom i g
      then (True, g\<lparr>attentionalFocus := set_add i (attentionalFocus g)\<rparr>)
      else (False, g))"

definition removeFromAttentionalFocus :: "ident \<Rightarrow> AtomSpace \<Rightarrow> bool \<times> AtomSpace" where
  "removeFromAttentionalFocus i g =
     (i \<in> set (attentionalFocus g), g\<lparr>attentionalFocus := set_delete i (attentionalFocus g)\<rparr>)"

definition getAttentionalFocus :: "AtomSpace \<Rightarrow> ident list" where
  "getAttentionalFocus g = filter (\<lambda>i. getAtom i g \<noteq> None) (attentionalFocus g)"

section \<open>Atom type tags used by the engines (AtomTypes.js)\<close>

definition CONCEPT_NODE :: string where "CONCEPT_NODE = ''ConceptNode''"
definition PREDICATE_NODE :: string where "PREDICATE_NODE = ''PredicateNode''"
definition LIST_LINK :: string where "LIST_LINK = ''ListLink''"
definition IMPLICATION_LINK :: string where "IMPLICATION_LINK = ''ImplicationLink''"
definition EVALUATION_LINK :: string where "EVALUATION_LINK = ''EvaluationLink''"
definition HEBBIAN_LINK :: string where "HEBBIAN_LINK = ''HebbianLink''"

section \<open>Economic attention allocation (src/opencog/ecan/ECAN.js)\<close>

text \<open>
  The fields of \<open>this.config\<close>: numbers, of any sign and not necessarily whole. The
  constructor checks none of them.
\<close>

record ECAN_config =
  maxAF :: real
  minSTI :: real
  maxSTI :: real
  stimulusAmount :: real
  decayRate :: real
  spreadProbability :: real
  totalSTI :: real
  totalLTI :: real
  rentAmount :: real
  hebbianLearningRate :: real
  diffusionRate :: real

text \<open>
  The constructor's \<open>options.x || default\<close>: an option that is absent or zero takes
  the default.
\<close>

definition or_default :: "'a::zero option \<Rightarrow> 'a \<Rightarrow> 'a" where
  "or_default opt d = (case opt of None \<Rightarrow> d | Some v \<Rightarrow> if v = 0 then d else v)"

record ECAN_options =
  opt_maxAF :: "real option"
  opt_minSTI :: "real option"
  opt_maxSTI :: "real option"
  opt_stimulusAmount :: "real option"
  opt_decayRate :: "real option"
  opt_spreadProbability :: "real option"
  opt_totalSTI :: "real option"
  opt_totalLTI :: "real option"
  opt_rentAmount :: "real option"
  opt_hebbianLearningRate :: "real option"
  opt_diffusionRate :: "real option"

definition no_options :: ECAN_options where
  "no_options = \<lparr>opt_maxAF = None, opt_minSTI = None, opt_maxSTI = None,
     opt_stimulusAmount = None, opt_decayRate = None, opt_spreadProbability = None,
     opt_totalSTI = None, opt_totalLTI = None, opt_rentAmount = None,
     opt_hebbianLearningRate = None, opt_diffusionRate = None\<rparr>"

definition ECAN_config_of :: "ECAN_options \<Rightarrow> ECAN_config" where
  "ECAN_config_of options =
     \<lparr>maxAF = or_default (opt_maxAF options) 100,
      minSTI = or_default (opt_minSTI options) (- 1000),
      maxSTI = or_default (opt_maxSTI options) 1000,
      stimulusAmount = or_default (opt_stimulusAmount options) 10,
      decayRate = or_default (opt_decayRate options) (1/100),
      spreadProbability = or_default (opt_spreadProbability options) (1/10),
      totalSTI = or_default (opt_totalSTI options) 10000,
      totalLTI = or_default (opt_totalLTI options) 10000,
      rentAmount = or_default (opt_rentAmount options) 1,
      hebbianLearningRate = or_default (opt_hebbianLearningRate options) (1/10),
      diffusionRate = or_default (opt_diffusionRate options) (2/10)\<rparr>"

record ECAN_stats =
  cyclesRun :: nat
  totalStimuli :: nat
  averageAFSize :: real
  importanceSpread :: real

text \<open>
  \<open>randoms\<close> is the sequence of values that the coming calls of \<open>Math.random()\<close> return;
  the other fields are those of class \<open>ECAN\<close>.
\<close>

record ECAN =
  atomSpace :: AtomSpace
  config :: ECAN_config
  currentSTIPool :: real
  currentLTIPool :: real
  cycle :: nat
  stats :: ECAN_stats
  randoms :: "nat \<Rightarrow> real"

definition new_ECAN :: "AtomSpace \<Rightarrow> ECAN_options \<Rightarrow> (nat \<Rightarrow> real) \<Rightarrow> ECAN" where
  "new_ECAN g options r =
     \<lparr>atomSpace = g, config = ECAN_config_of options,
      currentSTIPool = totalSTI (ECAN_config_of options),
      currentLTIPool = totalLTI (ECAN_config_of options),
      cycle = 0,
      stats = \<lparr>cyclesRun = 0, totalStimuli = 0, averageAFSize = 0, importanceSpread = 0\<rparr>,
      randoms = r\<rparr>"

definition Math_random :: "ECAN \<Rightarrow> real \<times> ECAN" where
  "Math_random e = (randoms e 0, e\<lparr>randoms := (\<lambda>n. randoms e (Suc n))\<rparr>)"

text \<open>\<open>amount || this.config.stimulusAmount\<close>: a \<open>null\<close> or zero amount takes the default.\<close>

definition stimulateAtom :: "ident \<Rightarrow> real option \<Rightarrow> ECAN \<Rightarrow> bool \<times> ECAN" where
  "stimulateAtom atomId amount e =
     (case getAtom atomId (atomSpace e) of
        None \<Rightarrow> (False, e)
      | Some atom \<Rightarrow>
          let stimulus = or_default amount (stimulusAmount (config e));
              currentSTI = getSTI atom;
              newSTI = min (currentSTI + stimulus) (maxSTI (config e))
          in (True, e\<lparr>atomSpace := mutate atomId (setSTI newSTI) (atomSpace e),
                      currentSTIPool := max 0 (currentSTIPool e - stimulus),
                      stats := (stats e)\<lparr>totalStimuli := totalStimuli (stats e) + 1\<rparr>\<rparr>))"

text \<open>The body of the loop of \<open>collectRent\<close>, for one atom of the focus.\<close>

definition collectRent_step :: "ident \<Rightarrow> ECAN \<Rightarrow> ECAN" where
  "collectRent_step i e =
     e\<lparr>atomSpace := mutate i (\<lambda>a. setSTI (max (getSTI a - rentAmount (config e)) (minSTI (config e))) a)
                      (atomSpace e),
       currentSTIPool := currentSTIPool e + rentAmount (config e)\<rparr>"

definition collectRent :: "ECAN \<Rightarrow> ECAN" where
  "collectRent e = fold collectRent_step (getAttentionalFocus (atomSpace e)) e"

text \<open>The body of the loop of \<open>applySTIDecay\<close>, for one atom.\<close>

definition applySTIDecay_step :: "ident \<Rightarrow> ECAN \<Rightarrow> ECAN" where
  "applySTIDecay_step i e =
     (case heap (atomSpace e) i of
        None \<Rightarrow> e
      | Some atom \<Rightarrow>
          let currentSTI = getSTI atom
          in if currentSTI > 0
             then (let decay = currentSTI * decayRate (config e);
                       newSTI = max (currentSTI - decay) 0
                   in e\<lparr>atomSpace := mutate i (setSTI newSTI) (atomSpace e),
                        currentSTIPool := currentSTIPool e + decay\<rparr>)
             else e)"

definition applySTIDecay :: "ECAN \<Rightarrow> ECAN" where
  "applySTIDecay e = fold applySTIDecay_step (getAllAtoms (atomSpace e)) e"

text \<open>
  The last loop of \<open>spreadFromAtom\<close>: one \<open>Math.random()\<close> per connected atom; the running
  total is the first component.
\<close>

fun spread_loop :: "real \<Rightarrow> ident list \<Rightarrow> real \<Rightarrow> ECAN \<Rightarrow> real \<times> ECAN" where
  "spread_loop amountPerAtom [] totalSpread e = (totalSpread, e)"
| "spread_loop amountPerAtom (c # cs) totalSpread e =
     (let (r, e1) = Math_random e
      in if r < spreadProbability (config e1)
         then spread_loop amountPerAtom cs (totalSpread + amountPerAtom)
                (e1\<lparr>atomSpace := mutate c (\<lambda>a. setSTI (min (getSTI a + amountPerAtom) (maxSTI (config e1))) a)
                                   (atomSpace e1)\<rparr>)
         else spread_loop amountPerAtom cs totalSpread e1)"

definition spreadFromAtom :: "ident \<Rightarrow> ECAN \<Rightarrow> real \<times> ECAN" where
  "spreadFromAtom i e =
     (case heap (atomSpace e) i of
        None \<Rightarrow> (0, e)
      | Some atom \<Rightarrow>
          let currentSTI = getSTI atom;
              spreadAmount = currentSTI * diffusionRate (config e)
          in if spreadAmount < 1 then (0, e)
             else
               let connected0 = fold set_add (getIncoming i (atomSpace e)) [];
                   connectedAtoms = (if isLink atom then fold set_add (outgoing atom) connected0
                                     else connected0)
               in if length connectedAtoms = 0 then (0, e)
                  else
                    let amountPerAtom = spreadAmount / real (length connectedAtoms);
                        (totalSpread, e1) = spread_loop amountPerAtom connectedAtoms 0 e
                    in (totalSpread,
                        e1\<lparr>atomSpace := mutate i (setSTI (currentSTI - totalSpread)) (atomSpace e1)\<rparr>))"

fun spreadImportance_loop :: "ident list \<Rightarrow> real \<Rightarrow> ECAN \<Rightarrow> real \<times> ECAN" where
  "spreadImportance_loop [] totalSpread e = (totalSpread, e)"
| "spreadImportance_loop (i # is) totalSpread e =
     (case heap (atomSpace e) i of
        None \<Rightarrow> spreadImportance_loop is totalSpread e
      | Some atom \<Rightarrow>
          if getSTI atom > minSTI (config e) * 2
          then (let (s, e1) = spreadFromAtom i e
                in spreadImportance_loop is (totalSpread + s) e1)
          else spreadImportance_loop is totalSpread e)"

definition spreadImportance :: "ECAN \<Rightarrow> ECAN" where
  "spreadImportance e =
     (let (totalSpread, e1) = spreadImportance_loop (getAttentionalFocus (atomSpace e)) 0 e
      in e1\<lparr>stats := (stats e1)\<lparr>importanceSpread := totalSpread\<rparr>\<rparr>)"

text \<open>
  The STI read through a reference of \<open>getAllAtoms()\<close>; every key of the store has its
  object in the heap, so the second case is there for totality only.
\<close>

definition sti_of :: "AtomSpace \<Rightarrow> ident \<Rightarrow> real" where
  "sti_of g i = (case heap g i of Some a \<Rightarrow> getSTI a | None \<Rightarrow> 0)"

text \<open>
  \<open>array.slice(0, end)\<close>: the end is truncated toward zero; a negative end counts from
  the back of the array, an end beyond the array stops at its length.
\<close>

definition js_truncate :: "real \<Rightarrow> int" where
  "js_truncate x = (if x < 0 then \<lceil>x\<rceil> else \<lfloor>x\<rfloor>)"

definition slice_from_0 :: "real \<Rightarrow> 'a list \<Rightarrow> 'a list" where
  "slice_from_0 stop xs =
     (let len = int (length xs);
          relativeEnd = js_truncate stop;
          final = (if relativeEnd < 0 then max (len + relativeEnd) 0 else min relativeEnd len)
      in take (nat final) xs)"

text \<open>
  \<open>sort\<close> with the comparator \<open>b.sti - a.sti\<close> is a stable sort by descending STI;
  \<open>slice(0, this.config.maxAF)\<close> is applied to the sorted array.
\<close>

definition updateAttentionalFocus :: "ECAN \<Rightarrow> ECAN" where
  "updateAttentionalFocus e =
     (let g = atomSpace e;
          g1 = fold (\<lambda>i h. snd (removeFromAttentionalFocus i h)) (getAttentionalFocus g) g;
          allAtoms = getAllAtoms g1;
          sortedAtoms = slice_from_0 (maxAF (config e))
                          (sort_key (\<lambda>i. - sti_of g1 i)
                             (filter (\<lambda>i. sti_of g1 i \<ge> minSTI (config e)) allAtoms));
          g2 = fold (\<lambda>i h. snd (addToAttentionalFocus i h)) sortedAtoms g1
      in e\<lparr>atomSpace := g2\<rparr>)"

definition forgettable :: "ECAN_config \<Rightarrow> Atom \<Rightarrow> bool" where
  "forgettable c a =
     (if getLTI a > 0 \<or> getVLTI a then False else getSTI a < minSTI c * 2)"

fun applyForgetting_loop :: "ident list \<Rightarrow> ECAN \<Rightarrow> ECAN" where
  "applyForgetting_loop [] e = e"
| "applyForgetting_loop (i # is) e =
     (let (r, e1) = Math_random e
      in if r < 1/10
         then applyForgetting_loop is (e1\<lparr>atomSpace := snd (removeAtom i (atomSpace e1))\<rparr>)
         else applyForgetting_loop is e1)"

definition applyForgetting :: "ECAN \<Rightarrow> ECAN" where
  "applyForgetting e =
     (let g = atomSpace e;
          atomsToForget = filter (\<lambda>i. case heap g i of Some a \<Rightarrow> forgettable (config e) a | None \<Rightarrow> False)
                            (getAllAtoms g)
      in applyForgetting_loop atomsToForget e)"

definition updateStatistics :: "ECAN \<Rightarrow> ECAN" where
  "updateStatistics e =
     (let af = getAttentionalFocus (atomSpace e)
      in e\<lparr>stats := (stats e)\<lparr>averageAFSize :=
              (averageAFSize (stats e) * (real (cycle e) - 1) + real (length af)) / real (cycle e)\<rparr>\<rparr>)"

definition runCycle :: "ECAN \<Rightarrow> ECAN" where
  "runCycle e =
     (let e0 = e\<lparr>cycle := cycle e + 1, stats := (stats e)\<lparr>cyclesRun := cyclesRun (stats e) + 1\<rparr>\<rparr>;
          e1 = collectRent e0;
          e2 = applySTIDecay e1;
          e3 = spreadImportance e2;
          e4 = updateAttentionalFocus e3;
          e5 = applyForgetting e4
      in updateStatistics e5)"

text \<open>\<open>outgoing[k]\<close> is \<open>undefined\<close> beyond the end of the array.\<close>

definition nth_opt :: "'a list \<Rightarrow> nat \<Rightarrow> 'a option" where
  "nth_opt xs k = (if k < length xs then Some (xs ! k) else None)"

definition findHebbianLink :: "ident \<Rightarrow> ident \<Rightarrow> AtomSpace \<Rightarrow> ident option" where
  "findHebbianLink atom1 atom2 g =
     List.find (\<lambda>l. case heap g l of
                      None \<Rightarrow> False
                    | Some link \<Rightarrow>
                        (nth_opt (outgoing link) 0 = Some atom1 \<and> nth_opt (outgoing link) 1 = Some atom2) \<or>
                        (nth_opt (outgoing link) 0 = Some atom2 \<and> nth_opt (outgoing link) 1 = Some atom1))
       (getAtomsByType HEBBIAN_LINK g)"

text \<open>
  \<open>performHebbianLearning\<close> raises when \<open>tv.getStrength()\<close> does; a Hebbian link created
  before that stays in the graph.
\<close>

definition performHebbianLearning :: "ident \<Rightarrow> ident \<Rightarrow> ECAN \<Rightarrow> (error + bool) \<times> ECAN" where
  "performHebbianLearning atom1Id atom2Id e =
     (if getAtom atom1Id (atomSpace e) = None \<or> getAtom atom2Id (atomSpace e) = None
      then (Inr False, e)
      else
        let (hebbianLink, g1) =
              (case findHebbianLink atom1Id atom2Id (atomSpace e) of
                 Some l \<Rightarrow> (l, atomSpace e)
               | None \<Rightarrow> addLink HEBBIAN_LINK [atom1Id, atom2Id]
                           (Some (new_TruthValue (1/10) (1/10))) (atomSpace e));
            e1 = e\<lparr>atomSpace := g1\<rparr>
        in (case heap g1 hebbianLink of
              None \<Rightarrow> (Inl TypeError, e1)
            | Some link \<Rightarrow>
                (case getStrength (tv link) of
                   Inl err \<Rightarrow> (Inl err, e1)
                 | Inr s \<Rightarrow>
                     let newStrength = min (s + hebbianLearningRate (config e)) 1;
                         newConfidence = min (getConfidence (tv link) + hebbianLearningRate (config e) * (1/10)) 1
                     in (Inr True,
                         e1\<lparr>atomSpace := mutate hebbianLink
                               (setTruthValue (new_TruthValue newStrength newConfidence)) g1\<rparr>))))"

section \<open>Probabilistic inference (src/opencog/pln/PLN.js)\<close>

record PLN_config =
  minConfidence :: real
  maxInferenceDepth :: real
  strengthThreshold :: real
  defaultConfidence :: real
  defaultStrength :: real
  revisionInflationFactor :: real

record PLN_options =
  opt_minConfidence :: "real option"
  opt_maxInferenceDepth :: "real option"
  opt_strengthThreshold :: "real option"
  opt_defaultConfidence :: "real option"
  opt_defaultStrength :: "real option"
  opt_revisionInflationFactor :: "real option"

definition no_PLN_options :: PLN_options where
  "no_PLN_options = \<lparr>opt_minConfidence = None, opt_maxInferenceDepth = None,
     opt_strengthThreshold = None, opt_defaultConfidence = None, opt_defaultStrength = None,
     opt_revisionInflationFactor = None\<rparr>"

definition PLN_config_of :: "PLN_options \<Rightarrow> PLN_config" where
  "PLN_config_of options =
     \<lparr>minConfidence = or_default (opt_minConfidence options) (1/100),
      maxInferenceDepth = or_default (opt_maxInferenceDepth options) 5,
      strengthThreshold = or_default (opt_strengthThreshold options) (1/10),
      defaultConfidence = or_default (opt_defaultConfidence options) (1/10),
      defaultStrength = or_default (opt_defaultStrength options) (1/2),
      revisionInflationFactor = or_default (opt_revisionInflationFactor options) (12/10)\<rparr>"

text \<open>
  A rule of the registry: its name, its premise pattern (the type tags asked of
  \<open>premise1\<close> and \<open>premise2\<close>; the revision rule has none) and the method bound to
  \<open>apply\<close>.
\<close>

datatype rule_method = ApplyDeduction | ApplyInduction | ApplyAbduction | ApplyRevision | ApplyModusPonens

record rule =
  rule_name :: string
  pattern :: "(string \<times> string) option"
  apply_method :: rule_method

text \<open>The registry built by \<open>initializeInferenceRules\<close>, in insertion order.\<close>

definition rules :: "(string \<times> rule) list" where
  "rules =
     [(''deduction'', \<lparr>rule_name = ''Deduction'',
          pattern = Some (IMPLICATION_LINK, IMPLICATION_LINK), apply_method = ApplyDeduction\<rparr>),
      (''induction'', \<lparr>rule_name = ''Induction'',
          pattern = Some (IMPLICATION_LINK, IMPLICATION_LINK), apply_method = ApplyInduction\<rparr>),
      (''abduction'', \<lparr>rule_name = ''Abduction'',
          pattern = Some (IMPLICATION_LINK, IMPLICATION_LINK), apply_method = ApplyAbduction\<rparr>),
      (''revision'', \<lparr>rule_name = ''Revision'',
          pattern = None, apply_method = ApplyRevision\<rparr>),
      (''modusPonens'', \<lparr>rule_name = ''Modus Ponens'',
          pattern = Some (IMPLICATION_LINK, EVALUATION_LINK), apply_method = ApplyModusPonens\<rparr>)]"

text \<open>
  A candidate holds references to its two premises. A result is the object a rule
  returns; its fields \<open>rule\<close>, \<open>premises\<close>, \<open>conclusion\<close> and \<open>atom\<close> carry the prefix
  \<open>inf\<close> here.
\<close>

type_synonym candidate = "ident \<times> ident"

record inference =
  inf_rule :: string
  inf_premises :: "ident list"
  inf_conclusion :: "ident option"
  inf_atom :: "ident option"
  truthValue :: TruthValue

text \<open>Every pattern of the registry names a type, so \<open>pattern.type\<close> is truthy.\<close>

definition matchesPattern :: "AtomSpace \<Rightarrow> ident \<Rightarrow> string \<Rightarrow> bool" where
  "matchesPattern g i ty =
     (case heap g i of
        None \<Rightarrow> False
      | Some atom \<Rightarrow> (if ty \<noteq> [] \<and> atom_type atom \<noteq> ty then False else True))"

text \<open>
  The nested loops of \<open>findRuleCandidates\<close>: \<open>pairs_from\<close> is the inner loop for one
  \<open>atoms[i]\<close> over the atoms \<open>atoms[j]\<close>, \<open>j > i\<close>, that follow it.
\<close>

definition pairs_from :: "AtomSpace \<Rightarrow> string \<times> string \<Rightarrow> ident \<Rightarrow> ident list \<Rightarrow> candidate list" where
  "pairs_from g pat atom1 rest =
     map (\<lambda>atom2. (atom1, atom2))
       (filter (\<lambda>atom2. matchesPattern g atom1 (fst pat) \<and> matchesPattern g atom2 (snd pat)) rest)"

fun candidate_loop :: "AtomSpace \<Rightarrow> string \<times> string \<Rightarrow> ident list \<Rightarrow> candidate list" where
  "candidate_loop g pat [] = []"
| "candidate_loop g pat (atom1 # rest) = pairs_from g pat atom1 rest @ candidate_loop g pat rest"

definition findRuleCandidates :: "rule \<Rightarrow> AtomSpace \<Rightarrow> candidate list" where
  "findRuleCandidates r g =
     (case pattern r of
        None \<Rightarrow> []
      | Some pat \<Rightarrow> candidate_loop g pat (getAllAtoms g))"

text \<open>
  \<open>atom1.id === atom2.id || (atom1.type === atom2.type && atom1.name === atom2.name)\<close>,
  on two references.
\<close>

definition atomsAreEquivalent :: "AtomSpace \<Rightarrow> ident \<Rightarrow> ident \<Rightarrow> bool" where
  "atomsAreEquivalent g atom1 atom2 =
     (atom1 = atom2 \<or>
      (case (heap g atom1, heap g atom2) of
         (Some a, Some b) \<Rightarrow> atom_type a = atom_type b \<and> name a = name b
       | _ \<Rightarrow> False))"

text \<open>
  The truth-value formulas. Each starts with \<open>tv1.getStrength()\<close>, and each returns an
  object built by \<open>new TruthValue(...)\<close>.
\<close>

definition calculateDeductionTV :: "TruthValue \<Rightarrow> TruthValue \<Rightarrow> error + TruthValue" where
  "calculateDeductionTV tv1 tv2 =
     (case getStrength tv1 of
        Inl err \<Rightarrow> Inl err
      | Inr s1 \<Rightarrow>
          (let c1 = getConfidence tv1
           in case getStrength tv2 of
                Inl err \<Rightarrow> Inl err
              | Inr s2 \<Rightarrow>
                  (let c2 = getConfidence tv2;
                       strength = s1 * s2;
                       confidence = c1 * c2 * (1 - s1 + s1 * s2)
                   in Inr (new_TruthValue strength (min confidence 1)))))"

definition calculateInductionTV :: "TruthValue \<Rightarrow> TruthValue \<Rightarrow> error + TruthValue" where
  "calculateInductionTV tv1 tv2 =
     (case getStrength tv1 of
        Inl err \<Rightarrow> Inl err
      | Inr s1 \<Rightarrow>
          (let c1 = getConfidence tv1
           in case getStrength tv2 of
                Inl err \<Rightarrow> Inl err
              | Inr s2 \<Rightarrow>
                  (let c2 = getConfidence tv2;
                       strength = s2;
                       confidence = c1 * c2 * s1
                   in Inr (new_TruthValue strength (min confidence 1)))))"

definition calculateAbductionTV :: "TruthValue \<Rightarrow> TruthValue \<Rightarrow> error + TruthValue" where
  "calculateAbductionTV tv1 tv2 =
     (case getStrength tv1 of
        Inl err \<Rightarrow> Inl err
      | Inr s1 \<Rightarrow>
          (let c1 = getConfidence tv1
           in case getStrength tv2 of
                Inl err \<Rightarrow> Inl err
              | Inr s2 \<Rightarrow>
                  (let c2 = getConfidence tv2;
                       strength = s2 * s1;
                       confidence = c1 * c2
                   in Inr (new_TruthValue strength (min confidence 1)))))"

definition calculateModusPonensTV :: "TruthValue \<Rightarrow> TruthValue \<Rightarrow> error + TruthValue" where
  "calculateModusPonensTV tv1 tv2 =
     (case getStrength tv1 of
        Inl err \<Rightarrow> Inl err
      | Inr s1 \<Rightarrow>
          (let c1 = getConfidence tv1
           in case getStrength tv2 of
                Inl err \<Rightarrow> Inl err
              | Inr s2 \<Rightarrow>
                  (let c2 = getConfidence tv2;
                       strength = s1 * s2;
                       confidence = c1 * c2
                   in Inr (new_TruthValue strength (min confidence 1)))))"

text \<open>
  A rule returns \<open>null\<close> (\<open>Inr None\<close>) or a result, or raises (\<open>Inl\<close>); what it has
  written to the graph before stays. A candidate's premises are stored atoms, so the last
  case of each rule is there for totality only.
\<close>

text \<open>\<open>A = premise1.outgoing[0]\<close>, \<open>B1 = premise1.outgoing[1]\<close>, \<open>B2 = premise2.outgoing[0]\<close>,
  \<open>C = premise2.outgoing[1]\<close>; the conclusion is \<open>[A, C]\<close>.\<close>

definition applyDeduction :: "candidate \<Rightarrow> AtomSpace \<Rightarrow> (error + inference option) \<times> AtomSpace" where
  "applyDeduction cand g =
     (case (heap g (fst cand), heap g (snd cand)) of
        (Some premise1, Some premise2) \<Rightarrow>
          if length (outgoing premise1) \<noteq> 2 \<or> length (outgoing premise2) \<noteq> 2 then (Inr None, g)
          else if \<not> atomsAreEquivalent g (outgoing premise1 ! 1) (outgoing premise2 ! 0) then (Inr None, g)
          else
            (case calculateDeductionTV (tv premise1) (tv premise2) of
               Inl err \<Rightarrow> (Inl err, g)
             | Inr conclusionTV \<Rightarrow>
                 (let (c, g1) = addLink IMPLICATION_LINK [outgoing premise1 ! 0, outgoing premise2 ! 1] (Some conclusionTV) g
                  in (Inr (Some \<lparr>inf_rule = ''deduction'', inf_premises = [fst cand, snd cand],
                                  inf_conclusion = Some c, inf_atom = Some c,
                                  truthValue = conclusionTV\<rparr>), g1)))
      | _ \<Rightarrow> (Inl TypeError, g))"

text \<open>\<open>A1 = premise1.outgoing[0]\<close>, \<open>B = premise1.outgoing[1]\<close>, \<open>A2 = premise2.outgoing[0]\<close>,
  \<open>C = premise2.outgoing[1]\<close>; the conclusion is \<open>[C, B]\<close>.\<close>

definition applyInduction :: "candidate \<Rightarrow> AtomSpace \<Rightarrow> (error + inference option) \<times> AtomSpace" where
  "applyInduction cand g =
     (case (heap g (fst cand), heap g (snd cand)) of
        (Some premise1, Some premise2) \<Rightarrow>
          if length (outgoing premise1) \<noteq> 2 \<or> length (outgoing premise2) \<noteq> 2 then (Inr None, g)
          else if \<not> atomsAreEquivalent g (outgoing premise1 ! 0) (outgoing premise2 ! 0) then (Inr None, g)
          else
            (case calculateInductionTV (tv premise1) (tv premise2) of
               Inl err \<Rightarrow> (Inl err, g)
             | Inr conclusionTV \<Rightarrow>
                 (let (c, g1) = addLink IMPLICATION_LINK [outgoing premise2 ! 1, outgoing premise1 ! 1] (Some conclusionTV) g
                  in (Inr (Some \<lparr>inf_rule = ''induction'', inf_premises = [fst cand, snd cand],
                                  inf_conclusion = Some c, inf_atom = Some c,
                                  truthValue = conclusionTV\<rparr>), g1)))
      | _ \<Rightarrow> (Inl TypeError, g))"

text \<open>\<open>A = premise1.outgoing[0]\<close>, \<open>B1 = premise1.outgoing[1]\<close>, \<open>C = premise2.outgoing[0]\<close>,
  \<open>B2 = premise2.outgoing[1]\<close>; the conclusion is \<open>[A, C]\<close>.\<close>

definition applyAbduction :: "candidate \<Rightarrow> AtomSpace \<Rightarrow> (error + inference option) \<times> AtomSpace" where
  "applyAbduction cand g =
     (case (heap g (fst cand), heap g (snd cand)) of
        (Some premise1, Some premise2) \<Rightarrow>
          if length (outgoing premise1) \<noteq> 2 \<or> length (outgoing premise2) \<noteq> 2 then (Inr None, g)
          else if \<not> atomsAreEquivalent g (outgoing premise1 ! 1) (outgoing premise2 ! 1) then (Inr None, g)
          else
            (case calculateAbductionTV (tv premise1) (tv premise2) of
               Inl err \<Rightarrow> (Inl err, g)
             | Inr conclusionTV \<Rightarrow>
                 (let (c, g1) = addLink IMPLICATION_LINK [outgoing premise1 ! 0, outgoing premise2 ! 0] (Some conclusionTV) g
                  in (Inr (Some \<lparr>inf_rule = ''abduction'', inf_premises = [fst cand, snd cand],
                                  inf_conclusion = Some c, inf_atom = Some c,
                                  truthValue = conclusionTV\<rparr>), g1)))
      | _ \<Rightarrow> (Inl TypeError, g))"

text \<open>
  \<open>evaluatesAsTrue\<close>: the type and arity test, then \<open>matches\<close>, then
  \<open>tv.getStrength() > 0.5 && ...\<close>, which is evaluated whatever \<open>matches\<close> is.
\<close>

definition evaluatesAsTrue :: "PLN_config \<Rightarrow> AtomSpace \<Rightarrow> ident \<Rightarrow> ident \<Rightarrow> error + bool" where
  "evaluatesAsTrue c g evaluationLink atom =
     (case heap g evaluationLink of
        None \<Rightarrow> Inl TypeError
      | Some link \<Rightarrow>
          if atom_type link \<noteq> EVALUATION_LINK \<or> length (outgoing link) \<noteq> 2 then Inr False
          else
            (let argument = outgoing link ! 1;
                 matches = atomsAreEquivalent g argument atom
             in case getStrength (tv link) of
                  Inl err \<Rightarrow> Inl err
                | Inr s \<Rightarrow>
                    (let isTrue = (s > 1/2 \<and> getConfidence (tv link) > minConfidence c)
                     in Inr (matches \<and> isTrue))))"

definition applyModusPonens :: "PLN_config \<Rightarrow> candidate \<Rightarrow> AtomSpace \<Rightarrow> (error + inference option) \<times> AtomSpace" where
  "applyModusPonens c cand g =
     (case (heap g (fst cand), heap g (snd cand)) of
        (Some premise1, Some premise2) \<Rightarrow>
          if length (outgoing premise1) \<noteq> 2 then (Inr None, g)
          else
            (case evaluatesAsTrue c g (snd cand) (outgoing premise1 ! 0) of
               Inl err \<Rightarrow> (Inl err, g)
             | Inr False \<Rightarrow> (Inr None, g)
             | Inr True \<Rightarrow>
                 (case calculateModusPonensTV (tv premise1) (tv premise2) of
                    Inl err \<Rightarrow> (Inl err, g)
                  | Inr conclusionTV \<Rightarrow>
                      (let (p, g1) = addNode PREDICATE_NODE (Some ''true'') None g;
                           (concl, g2) = addLink EVALUATION_LINK [p, outgoing premise1 ! 1]
                                           (Some conclusionTV) g1
                       in (Inr (Some \<lparr>inf_rule = ''modusPonens'', inf_premises = [fst cand, snd cand],
                                       inf_conclusion = Some concl, inf_atom = Some concl,
                                       truthValue = conclusionTV\<rparr>), g2))))
      | _ \<Rightarrow> (Inl TypeError, g))"

text \<open>
  \<open>applyRevision\<close> reads \<open>candidate.truthValues\<close>, which a candidate of
  \<open>findRuleCandidates\<close> does not have, and returns \<open>null\<close>.
\<close>

definition applyRevision :: "candidate \<Rightarrow> AtomSpace \<Rightarrow> (error + inference option) \<times> AtomSpace" where
  "applyRevision cand g = (Inr None, g)"

definition rule_apply :: "PLN_config \<Rightarrow> rule \<Rightarrow> candidate \<Rightarrow> AtomSpace \<Rightarrow> (error + inference option) \<times> AtomSpace" where
  "rule_apply c r =
     (case apply_method r of
        ApplyDeduction \<Rightarrow> applyDeduction
      | ApplyInduction \<Rightarrow> applyInduction
      | ApplyAbduction \<Rightarrow> applyAbduction
      | ApplyRevision \<Rightarrow> applyRevision
      | ApplyModusPonens \<Rightarrow> applyModusPonens c)"

text \<open>
  \<open>isValidInference\<close>: \<open>&&\<close> evaluates \<open>tv.getStrength()\<close> only when the confidence test
  has passed.
\<close>

definition isValidInference :: "PLN_config \<Rightarrow> inference \<Rightarrow> error + bool" where
  "isValidInference c result =
     (if getConfidence (truthValue result) \<ge> minConfidence c
      then (case getStrength (truthValue result) of
              Inl err \<Rightarrow> Inl err
            | Inr s \<Rightarrow> Inr (s \<ge> strengthThreshold c))
      else Inr False)"

text \<open>
  The loop of \<open>applyRule\<close> over the candidates, inside \<open>try\<close>: an exception ends the loop,
  is logged by \<open>catch\<close>, and the results pushed so far are returned.
\<close>

fun applyRule_loop :: "PLN_config \<Rightarrow> rule \<Rightarrow> candidate list \<Rightarrow> inference list \<Rightarrow> AtomSpace \<Rightarrow> inference list \<times> AtomSpace" where
  "applyRule_loop c r [] results g = (results, g)"
| "applyRule_loop c r (cand # cands) results g =
     (case rule_apply c r cand g of
        (Inl err, g1) \<Rightarrow> (results, g1)
      | (Inr None, g1) \<Rightarrow> applyRule_loop c r cands results g1
      | (Inr (Some result), g1) \<Rightarrow>
          (case isValidInference c result of
             Inl err \<Rightarrow> (results, g1)
           | Inr False \<Rightarrow> applyRule_loop c r cands results g1
           | Inr True \<Rightarrow>
               applyRule_loop c r cands (results @ [result])
                 (case inf_atom result of
                    Some a \<Rightarrow> snd (addAtom a g1)
                  | None \<Rightarrow> g1)))"

definition applyRule :: "PLN_config \<Rightarrow> rule \<Rightarrow> AtomSpace \<Rightarrow> inference list \<times> AtomSpace" where
  "applyRule c r g = applyRule_loop c r (findRuleCandidates r g) [] g"

text \<open>The loop of \<open>performInference\<close> over the registry, for one iteration.\<close>

fun apply_rules :: "PLN_config \<Rightarrow> (string \<times> rule) list \<Rightarrow> inference list \<Rightarrow> AtomSpace \<Rightarrow> inference list \<times> AtomSpace" where
  "apply_rules c [] acc g = (acc, g)"
| "apply_rules c ((ruleName, r) # rs) acc g =
     (let (ruleResults, g1) = applyRule c r g
      in apply_rules c rs (acc @ ruleResults) g1)"

record inference_report =
  results :: "inference list"
  iterations :: nat
  totalInferences :: nat

text \<open>
  \<open>while (iteration < maxIterations)\<close>: the first argument counts the iterations that
  are left, the second is \<open>iteration\<close>.
\<close>

fun performInference_loop :: "PLN_config \<Rightarrow> nat \<Rightarrow> nat \<Rightarrow> inference list \<Rightarrow> AtomSpace \<Rightarrow> inference_report \<times> AtomSpace" where
  "performInference_loop c 0 iteration res g =
     (\<lparr>results = res, iterations = iteration, totalInferences = length res\<rparr>, g)"
| "performInference_loop c (Suc left) iteration res g =
     (let (new, g1) = apply_rules c rules [] g;
          res1 = res @ new
      in if length new = 0
         then (\<lparr>results = res1, iterations = iteration + 1, totalInferences = length res1\<rparr>, g1)
         else performInference_loop c left (iteration + 1) res1 g1)"

definition performInference :: "PLN_config \<Rightarrow> nat \<Rightarrow> AtomSpace \<Rightarrow> inference_report \<times> AtomSpace" where
  "performInference c maxIterations g = performInference_loop c maxIterations 0 [] g"

section \<open>Job execution (CogServer.js)\<close>

text \<open>
  Job objects are mutable and shared by reference between the queue, the map of running
  jobs and the list of completed jobs, so they live in a heap of their own: a reference
  to a job is its identifier. Of a job, the fields read or written by the execution path
  are kept; \<open>job_options\<close>, \<open>job_result\<close> and \<open>job_error\<close> are its fields \<open>options\<close>,
  \<open>result\<close> and \<open>error\<close>.
\<close>

datatype job_status = Queued | Running | Completed | Failed | Cancelled

record job_options =
  priority :: real
  timeout :: real
  maxRetries :: real

record job =
  pluginId :: string
  job_options :: job_options
  status :: job_status
  startedAt :: "real option"
  completedAt :: "real option"
  retryCount :: nat
  job_result :: "string option"
  job_error :: "string option"

text \<open>A registered plugin, without its \<open>execute\<close> function and descriptive strings.\<close>

record plugin =
  plugin_priority :: real
  enabled :: bool
  lastExecuted :: "real option"
  executionCount :: nat
  averageExecutionTime :: real

record server_stats =
  totalJobsScheduled :: nat
  totalJobsCompleted :: nat
  totalJobsFailed :: nat
  averageJobDuration :: real

text \<open>
  The state of a \<open>CogServer\<close>. \<open>runningJobs\<close> is the key sequence of the \<open>Map\<close> from job
  identifiers to job objects. Three fields record what the server does to its
  environment: \<open>clock\<close> is the sequence of values that the coming calls of \<open>Date.now()\<close>
  return, \<open>timers\<close> lists the delays handed to \<open>setTimeout\<close>, in milliseconds, and \<open>events\<close>
  lists the job events emitted, each with the identifier of its job.
\<close>

record CogServer =
  plugins :: "string \<rightharpoonup> plugin"
  job_heap :: "string \<rightharpoonup> job"
  jobQueue :: "string list"
  runningJobs :: "string list"
  completedJobs :: "string list"
  server_stats :: server_stats
  clock :: "nat \<Rightarrow> real"
  timers :: "real list"
  events :: "(string \<times> string) list"

definition Date_now :: "CogServer \<Rightarrow> real \<times> CogServer" where
  "Date_now s = (clock s 0, s\<lparr>clock := (\<lambda>n. clock s (Suc n))\<rparr>)"

definition emit :: "string \<Rightarrow> string \<Rightarrow> CogServer \<Rightarrow> CogServer" where
  "emit event jobRef s = s\<lparr>events := events s @ [(event, jobRef)]\<rparr>"

text \<open>Mutation of the job object behind a reference.\<close>

definition update_job :: "string \<Rightarrow> (job \<Rightarrow> job) \<Rightarrow> CogServer \<Rightarrow> CogServer" where
  "update_job jobRef f s = s\<lparr>job_heap := (job_heap s)(jobRef := map_option f (job_heap s jobRef))\<rparr>"

text \<open>
  \<open>jobQueue.sort((a, b) => b.options.priority - a.options.priority)\<close>: a stable sort by
  descending priority.
\<close>

definition priority_of :: "CogServer \<Rightarrow> string \<Rightarrow> real" where
  "priority_of s jobRef = (case job_heap s jobRef of Some j \<Rightarrow> priority (job_options j) | None \<Rightarrow> 0)"

definition sort_queue :: "CogServer \<Rightarrow> CogServer" where
  "sort_queue s = s\<lparr>jobQueue := sort_key (\<lambda>jobRef. - priority_of s jobRef) (jobQueue s)\<rparr>"

text \<open>
  \<open>completeJob\<close>, \<open>failJob\<close> and \<open>retryJob\<close>, for a reference to a job object. The string
  handed to \<open>failJob\<close> and \<open>retryJob\<close> is the value of \<open>error.message || error\<close>.
\<close>

definition completeJob :: "string \<Rightarrow> string \<Rightarrow> CogServer \<Rightarrow> CogServer" where
  "completeJob jobRef result s =
     (case job_heap s jobRef of
        None \<Rightarrow> s
      | Some job \<Rightarrow>
          let (now, s1) = Date_now s;
              s2 = update_job jobRef
                     (\<lambda>j. j\<lparr>status := Completed, completedAt := Some now, job_result := Some result\<rparr>) s1;
              duration = now - (case startedAt job of Some t \<Rightarrow> t | None \<Rightarrow> 0);
              s3 = (case plugins s2 (pluginId job) of
                      None \<Rightarrow> s2
                    | Some p \<Rightarrow>
                        s2\<lparr>plugins := (plugins s2)(pluginId job \<mapsto>
                             p\<lparr>executionCount := executionCount p + 1,
                               lastExecuted := Some now,
                               averageExecutionTime :=
                                 (averageExecutionTime p * real (executionCount p) + duration)
                                   / real (executionCount p + 1)\<rparr>)\<rparr>);
              s4 = s3\<lparr>runningJobs := set_delete jobRef (runningJobs s3),
                      completedJobs := completedJobs s3 @ [jobRef]\<rparr>;
              completed = totalJobsCompleted (server_stats s4) + 1;
              s5 = s4\<lparr>server_stats := (server_stats s4)
                      \<lparr>totalJobsCompleted := completed,
                       averageJobDuration :=
                         (averageJobDuration (server_stats s4) * (real completed - 1) + duration)
                           / real completed\<rparr>\<rparr>
          in emit ''jobCompleted'' jobRef s5)"

definition failJob :: "string \<Rightarrow> string \<Rightarrow> CogServer \<Rightarrow> CogServer" where
  "failJob jobRef message s =
     (let (now, s1) = Date_now s;
          s2 = update_job jobRef
                 (\<lambda>j. j\<lparr>status := Failed, completedAt := Some now, job_error := Some message\<rparr>) s1;
          s3 = s2\<lparr>runningJobs := set_delete jobRef (runningJobs s2),
                  completedJobs := completedJobs s2 @ [jobRef],
                  server_stats := (server_stats s2)
                    \<lparr>totalJobsFailed := totalJobsFailed (server_stats s2) + 1\<rparr>\<rparr>
      in emit ''jobFailed'' jobRef s3)"

definition retryJob :: "string \<Rightarrow> string \<Rightarrow> CogServer \<Rightarrow> CogServer" where
  "retryJob jobRef message s =
     (let s1 = update_job jobRef
                 (\<lambda>j. j\<lparr>retryCount := retryCount j + 1, status := Queued, job_error := Some message\<rparr>) s;
          s2 = s1\<lparr>runningJobs := set_delete jobRef (runningJobs s1),
                  jobQueue := jobQueue s1 @ [jobRef]\<rparr>
      in emit ''jobRetried'' jobRef (sort_queue s2))"

text \<open>
  How the \<open>Promise.race\<close> of \<open>executeJob\<close> is settled: by the plugin, whose promise is
  fulfilled with a result or rejected with an error before the timer fires, or by the
  timer. A plugin whose \<open>execute\<close> raises at once counts as rejected. Which of the three
  happens is decided by the plugin, which is handed \<open>job.parameters\<close> and \<open>job.options\<close>,
  and by the event loop; it is a parameter of the model.
\<close>

datatype race = Plugin_fulfilled string | Plugin_rejected string | Timer_fired

definition SAFE_TIMEOUT :: real where
  "SAFE_TIMEOUT = 30000"

text \<open>The \<open>catch\<close> block of \<open>executeJob\<close>.\<close>

definition retry_or_fail :: "string \<Rightarrow> string \<Rightarrow> CogServer \<Rightarrow> CogServer" where
  "retry_or_fail jobRef message s =
     (case job_heap s jobRef of
        None \<Rightarrow> s
      | Some job \<Rightarrow>
          if real (retryCount job) < maxRetries (job_options job)
          then retryJob jobRef message s
          else failJob jobRef message s)"

text \<open>
  The part of \<open>executeJob\<close> that runs before it awaits the race, for a job whose plugin
  is registered: the job is marked as running, and the timer is set with \<open>SAFE_TIMEOUT\<close>
  before the plugin is started.
\<close>

definition executeJob_start :: "string \<Rightarrow> CogServer \<Rightarrow> CogServer" where
  "executeJob_start jobRef s =
     (let (now, s1) = Date_now s;
          s2 = update_job jobRef (\<lambda>j. j\<lparr>status := Running, startedAt := Some now\<rparr>) s1;
          s3 = emit ''jobStarted'' jobRef (s2\<lparr>runningJobs := set_add jobRef (runningJobs s2)\<rparr>)
      in s3\<lparr>timers := timers s3 @ [SAFE_TIMEOUT]\<rparr>)"

text \<open>
  \<open>executeJob(job)\<close> from its call to the end of its handler, with nothing else run on the
  server while it awaits the race. The timer rejects with the error \<open>Job timed out\<close>.
\<close>

definition executeJob :: "race \<Rightarrow> string \<Rightarrow> CogServer \<Rightarrow> CogServer" where
  "executeJob settled jobRef s =
     (case job_heap s jobRef of
        None \<Rightarrow> s
      | Some job \<Rightarrow>
          (case plugins s (pluginId job) of
             None \<Rightarrow> failJob jobRef (''Plugin '' @ pluginId job @ '' not found'') s
           | Some p \<Rightarrow>
               (case settled of
                  Plugin_fulfilled result \<Rightarrow> completeJob jobRef result (executeJob_start jobRef s)
                | Plugin_rejected message \<Rightarrow> retry_or_fail jobRef message (executeJob_start jobRef s)
                | Timer_fired \<Rightarrow> retry_or_fail jobRef ''Job timed out'' (executeJob_start jobRef s))))"

text \<open>
  \<open>checkTimeouts\<close> with the reading \<open>now\<close> of the clock: the only reader of
  \<open>job.options.timeout\<close>. It is run by \<open>processCycle\<close>, not by \<open>executeJob\<close>.
\<close>

definition timed_out :: "CogServer \<Rightarrow> real \<Rightarrow> string \<Rightarrow> bool" where
  "timed_out s now jobRef =
     (case job_heap s jobRef of
        None \<Rightarrow> False
      | Some job \<Rightarrow> now - (case startedAt job of Some t \<Rightarrow> t | None \<Rightarrow> 0) > timeout (job_options job))"

definition checkTimeouts :: "CogServer \<Rightarrow> CogServer" where
  "checkTimeouts s =
     (let (now, s1) = Date_now s;
          timedOutJobs = filter (timed_out s1 now) (runningJobs s1)
      in fold (\<lambda>jobRef. failJob jobRef ''Job timed out'') timedOutJobs s1)"

section \<open>Sample states\<close>

text \<open>
  Concrete states for the instances below. The graphs and the ECAN states are built by
  the operations of the model: an identifier sequence without repetition (\<open>u\<close>, \<open>uu\<close>,
  \<open>uuu\<close>, ...), a sequence of random draws, the graphs of scenarios S1, S2 and S4, and
  ECAN states over them. \<open>tv_low\<close> is a truth value of a caller's class whose
  \<open>getStrength\<close> returns its strength, and \<open>graph_low\<close> is the graph of S1 with such truth
  values on its two links.

  \<open>server_1\<close> is a server with its five built-in plugins and a plugin \<open>slow\<close>
  registered with \<open>registerPlugin('slow', {execute})\<close>, whose promise may stay pending for
  any time. It holds the job that
  \<open>scheduleJob('slow', {}, {timeout: 60000, maxRetries: retries})\<close> creates, taken off
  the queue as \<open>processCycle\<close> does before it calls \<open>executeJob\<close>. \<open>server_2\<close> is that
  server with one retry allowed, after an attempt that the timer ended and with the job
  taken off the queue again.
\<close>

definition sample_uuids :: "nat \<Rightarrow> ident" where
  "sample_uuids n = replicate (Suc n) (CHR ''u'')"

definition sample_randoms :: "nat \<Rightarrow> real" where
  "sample_randoms n = (if even n then 1/20 else 1/2)"

definition graph_AB :: AtomSpace where
  "graph_AB = snd (addNode CONCEPT_NODE (Some ''B'') None
                (snd (addNode CONCEPT_NODE (Some ''A'') None (new_AtomSpace sample_uuids))))"

definition graph_ABL :: AtomSpace where
  "graph_ABL = snd (addLink LIST_LINK [''u'', ''uu''] None graph_AB)"

definition graph_S1 :: AtomSpace where
  "graph_S1 =
     snd (addLink IMPLICATION_LINK [''uu'', ''uuu''] (Some (new_TruthValue (7/10) (6/10)))
       (snd (addLink IMPLICATION_LINK [''u'', ''uu''] (Some (new_TruthValue (9/10) (8/10)))
         (snd (addNode CONCEPT_NODE (Some ''C'') None graph_AB)))))"

definition deduction_rule :: rule where
  "deduction_rule = \<lparr>rule_name = ''Deduction'',
          pattern = Some (IMPLICATION_LINK, IMPLICATION_LINK), apply_method = ApplyDeduction\<rparr>"

definition node_sti :: "string \<Rightarrow> real \<Rightarrow> Atom" where
  "node_sti n s = \<lparr>atom_type = ''ConceptNode'', name = Some n, outgoing = [],
       tv = \<lparr>strength = 1/2, confidence = 0, getStrength_method = None\<rparr>, av = \<lparr>sti = s, lti = 0, vlti = False\<rparr>, incoming = []\<rparr>"

definition graph_5 :: AtomSpace where
  "graph_5 =
     snd (addNode CONCEPT_NODE (Some ''n5'') None
       (snd (addNode CONCEPT_NODE (Some ''n4'') None
         (snd (addNode CONCEPT_NODE (Some ''n3'') None
           (snd (addNode CONCEPT_NODE (Some ''n2'') None
             (snd (addNode CONCEPT_NODE (Some ''n1'') None (new_AtomSpace sample_uuids))))))))))"

definition ecan_AB :: ECAN where
  "ecan_AB = new_ECAN graph_AB no_options sample_randoms"

definition ecan_50 :: ECAN where
  "ecan_50 = snd (stimulateAtom ''u'' (Some 50) ecan_AB)"

definition ecan_S2 :: ECAN where
  "ecan_S2 =
     snd (stimulateAtom ''uuuuu'' (Some 50)
       (snd (stimulateAtom ''uuuu'' (Some 40)
         (snd (stimulateAtom ''uuu'' (Some 30)
           (snd (stimulateAtom ''uu'' (Some 20)
             (snd (stimulateAtom ''u'' (Some 10)
               (new_ECAN graph_5 (no_options\<lparr>opt_maxAF := Some 3\<rparr>) sample_randoms))))))))))"

definition ecan_neg :: ECAN where
  "ecan_neg = new_ECAN graph_ABL (no_options\<lparr>opt_maxAF := Some (- 1)\<rparr>) sample_randoms"





definition sample_clock :: "nat \<Rightarrow> real" where
  "sample_clock n = 1000 * real n"

definition sample_plugin :: "real \<Rightarrow> plugin" where
  "sample_plugin p = \<lparr>plugin_priority = p, enabled = True, lastExecuted = None,
                      executionCount = 0, averageExecutionTime = 0\<rparr>"

definition sample_job :: "real \<Rightarrow> job" where
  "sample_job retries =
     \<lparr>pluginId = ''slow'',
      job_options = \<lparr>priority = 1, timeout = 60000, maxRetries = retries\<rparr>,
      status = Queued, startedAt = None, completedAt = None, retryCount = 0,
      job_result = None, job_error = None\<rparr>"

definition server_1 :: "real \<Rightarrow> CogServer" where
  "server_1 retries =
     \<lparr>plugins = [''pln'' \<mapsto> sample_plugin 5, ''ecan'' \<mapsto> sample_plugin 8,
                 ''patternMining'' \<mapsto> sample_plugin 3, ''goalProcessing'' \<mapsto> sample_plugin 7,
                 ''memoryConsolidation'' \<mapsto> sample_plugin 4,
                 ''slow'' \<mapsto> sample_plugin 1],
      job_heap = [''job_1'' \<mapsto> sample_job retries],
      jobQueue = [], runningJobs = [], completedJobs = [],
      server_stats = \<lparr>totalJobsScheduled = 1, totalJobsCompleted = 0, totalJobsFailed = 0,
                        averageJobDuration = 0\<rparr>,
      clock = sample_clock, timers = [], events = [(''jobScheduled'', ''job_1'')]\<rparr>"

definition server_2 :: CogServer where
  "server_2 = (executeJob Timer_fired ''job_1'' (server_1 1))\<lparr>jobQueue := []\<rparr>"

section \<open>Notions of the statements and proofs\<close>

text \<open>
  Predicates and functions that the statements and the proofs below use; none of them is
  part of the program.
\<close>

text \<open>Two states of an atom object that differ in the incoming set at most.\<close>

definition same_shape :: "Atom \<Rightarrow> Atom \<Rightarrow> bool" where
  "same_shape a b = (atom_type b = atom_type a \<and> name b = name a \<and> outgoing b = outgoing a \<and> tv b = tv a \<and> av b = av a)"

text \<open>
  A well-formed store: the keys of the \<open>Map\<close> are distinct, the focus holds keys of the
  store, and every key has its object. The constructor gives such a store and every
  operation keeps it one.
\<close>

definition store_ok :: "AtomSpace \<Rightarrow> bool" where
  "store_ok g =
     (distinct (atoms g) \<and> set (attentionalFocus g) \<subseteq> set (atoms g) \<and>
      set (atoms g) \<subseteq> dom (heap g))"

text \<open>Rounding toward zero, in the words of C9.\<close>

definition round_toward_zero :: "real \<Rightarrow> real" where
  "round_toward_zero x = (if x \<ge> 0 then of_int \<lfloor>x\<rfloor> else of_int \<lceil>x\<rceil>)"

text \<open>What the decay phase does to one atom, and what it pays into the pool for it.\<close>

definition decay_atom :: "ECAN_config \<Rightarrow> Atom \<Rightarrow> Atom" where
  "decay_atom c a =
     (if getSTI a > 0 then setSTI (max (getSTI a - getSTI a * decayRate c) 0) a else a)"

definition decay_amount :: "ECAN_config \<Rightarrow> AtomSpace \<Rightarrow> ident \<Rightarrow> real" where
  "decay_amount c g i =
     (case heap g i of
        Some a \<Rightarrow> (if getSTI a > 0 then getSTI a * decayRate c else 0)
      | None \<Rightarrow> 0)"

text \<open>
  Two stores with the same keys, the same focus and the same atom objects allocated; two
  ECAN states with the same configuration over such stores.
\<close>

definition same_frame :: "AtomSpace \<Rightarrow> AtomSpace \<Rightarrow> bool" where
  "same_frame g h = (atoms h = atoms g \<and> attentionalFocus h = attentionalFocus g \<and> dom (heap h) = dom (heap g))"

definition frame_kept :: "ECAN \<Rightarrow> ECAN \<Rightarrow> bool" where
  "frame_kept e e' = (config e' = config e \<and> same_frame (atomSpace e) (atomSpace e'))"

text \<open>The bodies of the two loops of \<open>updateAttentionalFocus\<close>.\<close>

definition clear_step :: "ident \<Rightarrow> AtomSpace \<Rightarrow> AtomSpace" where
  "clear_step = (\<lambda>i h. snd (removeFromAttentionalFocus i h))"

definition fill_step :: "ident \<Rightarrow> AtomSpace \<Rightarrow> AtomSpace" where
  "fill_step = (\<lambda>i h. snd (addToAttentionalFocus i h))"

text \<open>The focus property of C2, as a predicate on the configuration and the store.\<close>

definition focus_ok :: "ECAN_config \<Rightarrow> AtomSpace \<Rightarrow> bool" where
  "focus_ok c g =
     (real (length (attentionalFocus g)) \<le> maxAF c \<and>
      (\<forall>i\<in>set (attentionalFocus g). \<exists>a. getAtom i g = Some a \<and> minSTI c \<le> getSTI a))"

text \<open>
  The configurations of the amended C6, the bounds of C6 as a predicate on the store, and
  a step of the engine that keeps the configuration and the bounds.
\<close>

definition sane_config :: "ECAN_config \<Rightarrow> bool" where
  "sane_config c =
     (minSTI c \<le> 0 \<and> 0 \<le> maxSTI c \<and> 0 \<le> rentAmount c \<and> 0 \<le> decayRate c \<and>
      0 \<le> diffusionRate c \<and> diffusionRate c \<le> 1)"

definition sti_in_bounds :: "ECAN_config \<Rightarrow> AtomSpace \<Rightarrow> bool" where
  "sti_in_bounds c g =
     (\<forall>i\<in>set (atoms g). \<forall>a. heap g i = Some a \<longrightarrow> minSTI c \<le> getSTI a \<and> getSTI a \<le> maxSTI c)"

definition bounds_kept :: "ECAN \<Rightarrow> ECAN \<Rightarrow> bool" where
  "bounds_kept e e' =
     (config e' = config e \<and>
      (sti_in_bounds (config e) (atomSpace e) \<longrightarrow> sti_in_bounds (config e) (atomSpace e')))"

text \<open>A store in which every truth value is an object without the method \<open>getStrength\<close>.\<close>

definition plain_store :: "AtomSpace \<Rightarrow> bool" where
  "plain_store g = (\<forall>i a. heap g i = Some a \<longrightarrow> getStrength_method (tv a) = None)"

text \<open>A job with another number in \<open>options.timeout\<close>.\<close>

definition set_timeout :: "real \<Rightarrow> job \<Rightarrow> job" where
  "set_timeout t j = j\<lparr>job_options := (job_options j)\<lparr>timeout := t\<rparr>\<rparr>"

section \<open>The store: lookups, mutation and insertion\<close>

lemma arraysEqual_iff: "arraysEqual a b \<longleftrightarrow> a = b"
  by (induction a b rule: arraysEqual.induct) auto

lemma getAtom_mutate:
  "getAtom j (mutate k f g) = (if j = k then map_option f (getAtom j g) else getAtom j g)"
  by (simp add: getAtom_def mutate_def)

lemma mutate_fields [simp]:
  "atoms (mutate k f g) = atoms g" "typeIndex (mutate k f g) = typeIndex g"
  "nameIndex (mutate k f g) = nameIndex g" "incomingIndex (mutate k f g) = incomingIndex g"
  "attentionalFocus (mutate k f g) = attentionalFocus g" "asize (mutate k f g) = asize g"
  "uuids (mutate k f g) = uuids g"
  by (simp_all add: mutate_def)

lemma heap_mutate: "heap (mutate k f g) j = (if j = k then map_option f (heap g j) else heap g j)"
  by (simp add: mutate_def)

lemma mutate_idle: "heap g k = Some a \<Longrightarrow> f a = a \<Longrightarrow> mutate k f g = g"
  by (simp add: mutate_def fun_upd_idem)

lemma mutate_absent: "heap g k = None \<Longrightarrow> mutate k f g = g"
  by (simp add: mutate_def fun_upd_idem)

lemma first_atom_cong:
  "\<forall>j\<in>set ids. rel_option R (getAtom j g) (getAtom j g') \<Longrightarrow> \<forall>a b. R a b \<longrightarrow> P a = P b \<Longrightarrow>
   first_atom P g ids = first_atom P g' ids"
proof (induction ids)
  case Nil
  then show ?case by simp
next
  case (Cons i ids)
  have r: "rel_option R (getAtom i g) (getAtom i g')" using Cons.prems by simp
  have ih: "first_atom P g ids = first_atom P g' ids" using Cons by simp
  show ?case
  proof (cases "getAtom i g")
    case None
    with r have "getAtom i g' = None" by simp
    with None ih show ?thesis by simp
  next
    case (Some a)
    with r obtain b where b: "getAtom i g' = Some b" "R a b"
      by (auto simp: option_rel_Some1)
    with Cons.prems(2) have "P a = P b" by simp
    with Some b ih show ?thesis by simp
  qed
qed

lemma first_atom_None_iff:
  "first_atom P g ids = None \<longleftrightarrow> (\<forall>i\<in>set ids. \<forall>a. getAtom i g = Some a \<longrightarrow> \<not> P a)"
  by (induction ids) (auto split: option.splits)

lemma first_atom_SomeD:
  "first_atom P g ids = Some i \<Longrightarrow> i \<in> set ids \<and> (\<exists>a. getAtom i g = Some a \<and> P a)"
  by (induction ids) (auto split: option.splits if_splits)

lemma first_atom_only:
  "k \<in> set ids \<Longrightarrow> getAtom k g = Some a \<Longrightarrow> P a \<Longrightarrow>
   \<forall>i\<in>set ids. i \<noteq> k \<longrightarrow> (\<forall>b. getAtom i g = Some b \<longrightarrow> \<not> P b) \<Longrightarrow>
   first_atom P g ids = Some k"
  by (induction ids) (auto split: option.splits)

lemma addIncoming_shape: "same_shape a (addIncoming i a)"
  by (simp add: same_shape_def addIncoming_def)

lemma wire_fields [simp]:
  "atoms (wire_incoming i out g) = atoms g" "typeIndex (wire_incoming i out g) = typeIndex g"
  "nameIndex (wire_incoming i out g) = nameIndex g"
  "attentionalFocus (wire_incoming i out g) = attentionalFocus g" "asize (wire_incoming i out g) = asize g"
  "uuids (wire_incoming i out g) = uuids g"
  by (simp_all add: wire_incoming_def)

lemma fold_wire_fields [simp]:
  "atoms (fold (wire_incoming i) outs g) = atoms g"
  "typeIndex (fold (wire_incoming i) outs g) = typeIndex g"
  "nameIndex (fold (wire_incoming i) outs g) = nameIndex g"
  "attentionalFocus (fold (wire_incoming i) outs g) = attentionalFocus g"
  "asize (fold (wire_incoming i) outs g) = asize g"
  "uuids (fold (wire_incoming i) outs g) = uuids g"
  by (induction outs arbitrary: g) simp_all

lemma same_shape_refl [simp]: "same_shape a a"
  by (simp add: same_shape_def)

lemma same_shape_trans: "same_shape a b \<Longrightarrow> same_shape b c \<Longrightarrow> same_shape a c"
  by (simp add: same_shape_def)

lemma heap_wire: "rel_option same_shape (heap g j) (heap (wire_incoming i out g) j)"
  by (cases "heap g j") (auto simp add: wire_incoming_def mutate_def addIncoming_shape)

lemma rel_option_same_shape_trans:
  "rel_option same_shape x y \<Longrightarrow> rel_option same_shape y z \<Longrightarrow> rel_option same_shape x z"
  by (cases x; cases y; cases z) (auto intro: same_shape_trans)

lemma heap_fold_wire: "rel_option same_shape (heap g j) (heap (fold (wire_incoming i) outs g) j)"
proof (induction outs arbitrary: g)
  case Nil
  then show ?case by (cases "heap g j") simp_all
next
  case (Cons out outs)
  show ?case
    using heap_wire[of g j i out] Cons.IH[of "wire_incoming i out g"]
    by (auto intro: rel_option_same_shape_trans)
qed

lemma fst_addAtom [simp]: "fst (addAtom i g) = i"
  by (simp add: addAtom_def Let_def split: option.splits)

lemma heap_fold_wire_eq:
  "heap g' = heap g \<Longrightarrow> rel_option same_shape (heap g j) (heap (fold (wire_incoming i) outs g') j)"
  using heap_fold_wire[of g' j i outs] by simp

lemma addAtom_new:
  assumes "heap g i = Some a" "i \<notin> set (atoms g)"
  shows "atoms (snd (addAtom i g)) = atoms g @ [i]"
    and "asize (snd (addAtom i g)) = asize g + 1"
    and "typeIndex (snd (addAtom i g)) =
           (typeIndex g)(atom_type a \<mapsto> set_add i (get_or_empty (typeIndex g) (atom_type a)))"
    and "nameIndex (snd (addAtom i g)) =
           (if isNode a \<and> truthy_name (name a)
            then (nameIndex g)(the (name a) \<mapsto> set_add i (get_or_empty (nameIndex g) (the (name a))))
            else nameIndex g)"
    and "uuids (snd (addAtom i g)) = uuids g"
    and "attentionalFocus (snd (addAtom i g)) = attentionalFocus g"
    and "rel_option same_shape (heap g j) (heap (snd (addAtom i g)) j)"
  using assms
  by (simp_all add: addAtom_def Let_def heap_fold_wire_eq)

lemma new_Atom_fields [simp]:
  "fst (new_Atom ty nm out tvo g) = uuids g 0"
  "atoms (snd (new_Atom ty nm out tvo g)) = atoms g"
  "typeIndex (snd (new_Atom ty nm out tvo g)) = typeIndex g"
  "nameIndex (snd (new_Atom ty nm out tvo g)) = nameIndex g"
  "incomingIndex (snd (new_Atom ty nm out tvo g)) = incomingIndex g"
  "attentionalFocus (snd (new_Atom ty nm out tvo g)) = attentionalFocus g"
  "asize (snd (new_Atom ty nm out tvo g)) = asize g"
  by (simp_all add: new_Atom_def Let_def)

lemma heap_new_Atom:
  "heap (snd (new_Atom ty nm out tvo g)) j =
     (if j = uuids g 0
      then Some \<lparr>atom_type = ty, name = nm, outgoing = out,
                 tv = (case tvo of Some t \<Rightarrow> t | None \<Rightarrow> default_TruthValue),
                 av = new_AttentionValue, incoming = []\<rparr>
      else heap g j)"
  by (simp add: new_Atom_def Let_def)

text \<open>Creating an atom with a fresh identifier and storing it.\<close>

lemma create_and_add:
  fixes ty :: string and nm :: "string option" and out :: "ident list"
    and tvo :: "TruthValue option" and g :: AtomSpace
  assumes fresh: "heap g (uuids g 0) = None" "uuids g 0 \<notin> set (atoms g)"
  defines "i \<equiv> uuids g 0"
  defines "h \<equiv> snd (addAtom i (snd (new_Atom ty nm out tvo g)))"
  shows "atoms h = atoms g @ [i]"
    and "asize h = asize g + 1"
    and "typeIndex h = (typeIndex g)(ty \<mapsto> set_add i (get_or_empty (typeIndex g) ty))"
    and "nameIndex h = (if out = [] \<and> truthy_name nm
            then (nameIndex g)(the nm \<mapsto> set_add i (get_or_empty (nameIndex g) (the nm)))
            else nameIndex g)"
    and "\<exists>a. heap h i = Some a \<and> atom_type a = ty \<and> name a = nm \<and> outgoing a = out \<and>
             tv a = (case tvo of Some t \<Rightarrow> t | None \<Rightarrow> default_TruthValue)"
    and "j \<noteq> i \<Longrightarrow> rel_option same_shape (heap g j) (heap h j)"
proof -
  let ?g1 = "snd (new_Atom ty nm out tvo g)"
  let ?a = "\<lparr>atom_type = ty, name = nm, outgoing = out,
                 tv = (case tvo of Some t \<Rightarrow> t | None \<Rightarrow> default_TruthValue),
                 av = new_AttentionValue, incoming = []\<rparr>"
  have h1: "heap ?g1 i = Some ?a" by (simp add: heap_new_Atom i_def)
  have n1: "i \<notin> set (atoms ?g1)" using fresh by (simp add: i_def)
  note facts = addAtom_new[OF h1 n1]
  show "atoms h = atoms g @ [i]" using facts(1) by (simp add: h_def)
  show "asize h = asize g + 1" using facts(2) by (simp add: h_def)
  show "typeIndex h = (typeIndex g)(ty \<mapsto> set_add i (get_or_empty (typeIndex g) ty))"
    using facts(3) by (simp add: h_def get_or_empty_def)
  show "nameIndex h = (if out = [] \<and> truthy_name nm
            then (nameIndex g)(the nm \<mapsto> set_add i (get_or_empty (nameIndex g) (the nm)))
            else nameIndex g)"
    using facts(4) by (simp add: h_def get_or_empty_def isNode_def)
  have "rel_option same_shape (heap ?g1 i) (heap h i)"
    using facts(7)[of i] by (simp add: h_def)
  then show "\<exists>a. heap h i = Some a \<and> atom_type a = ty \<and> name a = nm \<and> outgoing a = out \<and>
             tv a = (case tvo of Some t \<Rightarrow> t | None \<Rightarrow> default_TruthValue)"
    unfolding h1 by (auto simp: option_rel_Some1 same_shape_def)
  show "rel_option same_shape (heap g j) (heap h j)" if "j \<noteq> i"
    using facts(7)[of j] that by (simp add: h_def heap_new_Atom i_def)
qed

lemma mutate_twice: "(\<And>a. f (f a) = f a) \<Longrightarrow> mutate k f (mutate k f g) = mutate k f g"
  by (cases "heap g k") (simp_all add: mutate_def)

lemma first_atom_setTruthValue:
  assumes "\<And>a. P (setTruthValue t a) = P a"
  shows "first_atom P (mutate e (setTruthValue t) g) ids = first_atom P g ids"
proof (rule sym, rule first_atom_cong[where R = "\<lambda>a b. b = a \<or> b = setTruthValue t a"])
  show "\<forall>j\<in>set ids. rel_option (\<lambda>a b. b = a \<or> b = setTruthValue t a) (getAtom j g)
          (getAtom j (mutate e (setTruthValue t) g))"
    by (auto simp: getAtom_mutate option.rel_map intro!: option.rel_refl)
  show "\<forall>a b. b = a \<or> b = setTruthValue t a \<longrightarrow> P a = P b"
    using assms by auto
qed

lemma set_add_member [simp]: "x \<in> set (set_add x xs)"
  by (simp add: set_add_def)

lemma set_set_add: "set (set_add x xs) = insert x (set xs)"
  by (auto simp: set_add_def)

text \<open>After a fresh atom that passes the test was stored and indexed, the index finds it.\<close>

lemma first_atom_created:
  fixes g h :: AtomSpace
  assumes none: "\<forall>j\<in>set ids. \<forall>a. getAtom j g = Some a \<longrightarrow> \<not> P a"
    and shape: "\<And>a b. same_shape a b \<Longrightarrow> P a = P b"
    and atoms: "atoms h = atoms g @ [i]"
    and inot: "i \<notin> set (atoms g)"
    and hi: "heap h i = Some a" "P a"
    and rest: "\<And>j. j \<noteq> i \<Longrightarrow> rel_option same_shape (heap g j) (heap h j)"
  shows "first_atom P h (set_add i ids) = Some i"
proof (rule first_atom_only[where a = a])
  show "i \<in> set (set_add i ids)" by simp
  show "getAtom i h = Some a" using atoms hi by (simp add: getAtom_def)
  show "P a" by fact
  show "\<forall>j\<in>set (set_add i ids). j \<noteq> i \<longrightarrow> (\<forall>b. getAtom j h = Some b \<longrightarrow> \<not> P b)"
  proof (intro ballI impI allI)
    fix j b assume j: "j \<in> set (set_add i ids)" "j \<noteq> i" and b: "getAtom j h = Some b"
    from j have jin: "j \<in> set ids" by (simp add: set_set_add)
    from b atoms j have mem: "j \<in> set (atoms g)" and hb: "heap h j = Some b"
      by (auto simp: getAtom_def split: if_splits)
    from rest[OF j(2)] hb obtain c where c: "heap g j = Some c" "same_shape c b"
      by (auto simp: option_rel_Some2)
    with mem have "getAtom j g = Some c" by (simp add: getAtom_def)
    with none jin have "\<not> P c" by blast
    with shape[OF c(2)] show "\<not> P b" by simp
  qed
qed

lemma addNode_again:
  assumes n: "n \<noteq> []"
    and fresh: "heap g (uuids g 0) = None" "uuids g 0 \<notin> set (atoms g)"
  shows "addNode T (Some n) tvo (snd (addNode T (Some n) tvo g)) = addNode T (Some n) tvo g"
proof (cases "getNodeByName T (Some n) g")
  case (Some e)
  show ?thesis
  proof (cases tvo)
    case None
    with Some show ?thesis by (simp add: addNode_def)
  next
    case (Some t)
    have "getNodeByName T (Some n) (mutate e (setTruthValue t) g) = getNodeByName T (Some n) g"
      by (simp add: getNodeByName_def first_atom_setTruthValue setTruthValue_def split: option.splits)
    with \<open>getNodeByName T (Some n) g = Some e\<close> Some show ?thesis
      by (simp add: addNode_def mutate_twice setTruthValue_def)
  qed
next
  case None
  define i where "i = uuids g 0"
  define h where "h = snd (addAtom i (snd (new_Atom T (Some n) [] tvo g)))"
  note ca = create_and_add[OF fresh, where ty = T and nm = "Some n" and out = "[]" and tvo = tvo, folded i_def, folded h_def]
  have first: "addNode T (Some n) tvo g = (i, h)"
    using None by (simp add: addNode_def split_beta h_def i_def prod_eq_iff)
  from ca(5) obtain a where a: "heap h i = Some a" "atom_type a = T"
    "tv a = (case tvo of Some t \<Rightarrow> t | None \<Rightarrow> default_TruthValue)" by blast
  have none: "\<forall>j\<in>set (get_or_empty (nameIndex g) n). \<forall>a. getAtom j g = Some a \<longrightarrow> atom_type a \<noteq> T"
    using None by (auto simp: getNodeByName_def get_or_empty_def first_atom_None_iff split: option.splits)
  have "first_atom (\<lambda>a. atom_type a = T) h (set_add i (get_or_empty (nameIndex g) n)) = Some i"
  proof (rule first_atom_created[OF none _ ca(1) _ a(1)])
    show "\<And>a b. same_shape a b \<Longrightarrow> (atom_type a = T) = (atom_type b = T)"
      by (simp add: same_shape_def)
    show "i \<notin> set (atoms g)" using fresh by (simp add: i_def)
    show "atom_type a = T" by fact
    show "\<And>j. j \<noteq> i \<Longrightarrow> rel_option same_shape (heap g j) (heap h j)" by (rule ca(6))
  qed
  then have found: "getNodeByName T (Some n) h = Some i"
    using n by (simp add: getNodeByName_def ca(4) truthy_name_def)
  have idle: "mutate i (setTruthValue t) h = h" if "tvo = Some t" for t
    using a that by (intro mutate_idle[where a = a]) (simp_all add: setTruthValue_def)
  show ?thesis
    unfolding first using found idle by (simp add: addNode_def split: option.splits)
qed

lemma addLink_again:
  assumes out: "out \<noteq> []"
    and fresh: "heap g (uuids g 0) = None" "uuids g 0 \<notin> set (atoms g)"
  shows "addLink T out tvo (snd (addLink T out tvo g)) = addLink T out tvo g"
    and "getLinkByOutgoing T out g = None \<Longrightarrow> asize (snd (addLink T out tvo g)) = asize g + 1"
    and "getLinkByOutgoing T out g \<noteq> None \<Longrightarrow> asize (snd (addLink T out tvo g)) = asize g"
proof -
  let ?P = "\<lambda>a. isLink a \<and> arraysEqual (outgoing a) out"
  show "addLink T out tvo (snd (addLink T out tvo g)) = addLink T out tvo g"
  proof (cases "getLinkByOutgoing T out g")
    case (Some e)
    show ?thesis
    proof (cases tvo)
      case None
      with Some show ?thesis by (simp add: addLink_def)
    next
      case (Some t)
      have "getLinkByOutgoing T out (mutate e (setTruthValue t) g) = getLinkByOutgoing T out g"
        by (simp add: getLinkByOutgoing_def first_atom_setTruthValue setTruthValue_def isLink_def
            split: option.splits)
      with \<open>getLinkByOutgoing T out g = Some e\<close> Some show ?thesis
        by (simp add: addLink_def mutate_twice setTruthValue_def)
    qed
  next
    case None
    define i where "i = uuids g 0"
    define h where "h = snd (addAtom i (snd (new_Atom T None out tvo g)))"
    note ca = create_and_add[OF fresh, where ty = T and nm = None and out = out and tvo = tvo, folded i_def, folded h_def]
    have first: "addLink T out tvo g = (i, h)"
      using None by (simp add: addLink_def split_beta h_def i_def prod_eq_iff)
    from ca(5) obtain a where a: "heap h i = Some a" "outgoing a = out"
      "tv a = (case tvo of Some t \<Rightarrow> t | None \<Rightarrow> default_TruthValue)" by blast
    have none: "\<forall>j\<in>set (get_or_empty (typeIndex g) T). \<forall>a. getAtom j g = Some a \<longrightarrow> \<not> ?P a"
      using None by (auto simp: getLinkByOutgoing_def get_or_empty_def first_atom_None_iff split: option.splits)
    have "first_atom ?P h (set_add i (get_or_empty (typeIndex g) T)) = Some i"
    proof (rule first_atom_created[OF none _ ca(1) _ a(1)])
      show "\<And>a b. same_shape a b \<Longrightarrow> ?P a = ?P b"
        by (simp add: same_shape_def isLink_def)
      show "i \<notin> set (atoms g)" using fresh by (simp add: i_def)
      show "?P a" using a out by (simp add: isLink_def arraysEqual_iff)
      show "\<And>j. j \<noteq> i \<Longrightarrow> rel_option same_shape (heap g j) (heap h j)" by (rule ca(6))
    qed
    then have found: "getLinkByOutgoing T out h = Some i"
      by (simp add: getLinkByOutgoing_def ca(3))
    have idle: "mutate i (setTruthValue t) h = h" if "tvo = Some t" for t
      using a that by (intro mutate_idle[where a = a]) (simp_all add: setTruthValue_def)
    show ?thesis
      unfolding first using found idle by (simp add: addLink_def split: option.splits)
  qed
  show "asize (snd (addLink T out tvo g)) = asize g + 1" if "getLinkByOutgoing T out g = None"
    using that create_and_add(2)[OF fresh, where ty = T and nm = None and out = out and tvo = tvo]
    by (simp add: addLink_def split_beta)
  show "asize (snd (addLink T out tvo g)) = asize g" if "getLinkByOutgoing T out g \<noteq> None"
    using that by (auto simp: addLink_def split: option.splits)
qed

lemmas eval_defs = addNode_def addLink_def getNodeByName_def getLinkByOutgoing_def new_Atom_def
  addAtom_def new_AtomSpace_def sample_uuids_def getAtom_def isNode_def isLink_def truthy_name_def
  set_add_def get_or_empty_def wire_incoming_def mutate_def addIncoming_def
  CONCEPT_NODE_def LIST_LINK_def IMPLICATION_LINK_def Let_def default_TruthValue_def
  new_TruthValue_def new_AttentionValue_def setTruthValue_def

lemma graph_AB_eval:
  "graph_AB = \<lparr>heap = [''u'' \<mapsto> \<lparr>atom_type = ''ConceptNode'', name = Some ''A'', outgoing = [],
                       tv = \<lparr>strength = 1/2, confidence = 0, getStrength_method = None\<rparr>, av = \<lparr>sti = 0, lti = 0, vlti = False\<rparr>, incoming = []\<rparr>,
                     ''uu'' \<mapsto> \<lparr>atom_type = ''ConceptNode'', name = Some ''B'', outgoing = [],
                       tv = \<lparr>strength = 1/2, confidence = 0, getStrength_method = None\<rparr>, av = \<lparr>sti = 0, lti = 0, vlti = False\<rparr>, incoming = []\<rparr>],
     uuids = (\<lambda>n. replicate (Suc (Suc (Suc n))) CHR ''u''),
     atoms = [''u'', ''uu''],
     typeIndex = [''ConceptNode'' \<mapsto> [''u'', ''uu'']],
     nameIndex = [''A'' \<mapsto> [''u''], ''B'' \<mapsto> [''uu'']],
     incomingIndex = Map.empty, attentionalFocus = [], asize = 2\<rparr>"
  by (simp add: graph_AB_def eval_defs)

section \<open>C4: structural de-duplication of \<open>addNode\<close> and \<open>addLink\<close>\<close>

text \<open>
  C4 as stated fails for the empty name: \<open>addAtom\<close> indexes a node by name only when
  the name is truthy, so \<open>getNodeByName\<close> never finds a node named \<open>""\<close>. Two calls
  of \<open>addNode(ConceptNode, "")\<close> on the empty store return two different atoms, and the
  second call grows the store.
\<close>

theorem add_twice_empty_name_counterexample:
  "fst (addNode CONCEPT_NODE (Some []) None
          (snd (addNode CONCEPT_NODE (Some []) None (new_AtomSpace sample_uuids))))
     \<noteq> fst (addNode CONCEPT_NODE (Some []) None (new_AtomSpace sample_uuids))
   \<and> asize (snd (addNode CONCEPT_NODE (Some []) None
          (snd (addNode CONCEPT_NODE (Some []) None (new_AtomSpace sample_uuids)))))
     = asize (snd (addNode CONCEPT_NODE (Some []) None (new_AtomSpace sample_uuids))) + 1"
  by (simp add: eval_defs)

text \<open>
  C4, amended. In a store where the next identifier of \<open>uuidv4()\<close> is fresh: for every
  node type \<open>T\<close> and non-empty name \<open>n\<close>, the second of two successive calls
  \<open>addNode(T, n, tv)\<close> returns the atom the first call returned and leaves the store, hence
  its size, as the first call left it; for every link type \<open>L\<close> and non-empty outgoing
  sequence the same holds of \<open>addLink\<close>, and when no such link was stored before, the two
  calls together grow the size by exactly one.
\<close>

theorem add_twice_same_atom:
  assumes "heap g (uuids g 0) = None" and "uuids g 0 \<notin> set (atoms g)"
  shows "(n \<noteq> [] \<longrightarrow>
            addNode T (Some n) tvo (snd (addNode T (Some n) tvo g)) = addNode T (Some n) tvo g)
       \<and> (out \<noteq> [] \<longrightarrow>
            addLink L out tvo (snd (addLink L out tvo g)) = addLink L out tvo g
            \<and> (getLinkByOutgoing L out g = None \<longrightarrow>
                 asize (snd (addLink L out tvo (snd (addLink L out tvo g)))) = asize g + 1))"
  using addNode_again[OF _ assms] addLink_again[OF _ assms] by simp

text \<open>
  The amended C4 at a concrete store: two concept nodes \<open>A\<close> and \<open>B\<close>, then the node
  \<open>cat\<close> and the list link over \<open>A\<close> and \<open>B\<close>, each added twice.
\<close>

theorem add_twice_same_atom_witness:
  "heap graph_AB (uuids graph_AB 0) = None \<and> uuids graph_AB 0 \<notin> set (atoms graph_AB)
   \<and> ''cat'' \<noteq> [] \<and> [''u'', ''uu''] \<noteq> []
   \<and> getLinkByOutgoing LIST_LINK [''u'', ''uu''] graph_AB = None
   \<and> addNode CONCEPT_NODE (Some ''cat'') None (snd (addNode CONCEPT_NODE (Some ''cat'') None graph_AB))
       = addNode CONCEPT_NODE (Some ''cat'') None graph_AB
   \<and> addLink LIST_LINK [''u'', ''uu''] None (snd (addLink LIST_LINK [''u'', ''uu''] None graph_AB))
       = addLink LIST_LINK [''u'', ''uu''] None graph_AB
   \<and> fst (addLink LIST_LINK [''u'', ''uu''] None graph_AB) = ''uuu''
   \<and> asize (snd (addLink LIST_LINK [''u'', ''uu''] None
               (snd (addLink LIST_LINK [''u'', ''uu''] None graph_AB)))) = asize graph_AB + 1"
proof -
  have h: "heap graph_AB (uuids graph_AB 0) = None" "uuids graph_AB 0 \<notin> set (atoms graph_AB)"
    by (simp_all add: graph_AB_eval)
  have l: "getLinkByOutgoing LIST_LINK [''u'', ''uu''] graph_AB = None"
    by (simp add: graph_AB_eval getLinkByOutgoing_def LIST_LINK_def)
  have f: "fst (addLink LIST_LINK [''u'', ''uu''] None graph_AB) = ''uuu''"
    using l by (simp add: addLink_def split_beta graph_AB_eval)
  have n: "''cat'' \<noteq> []" and out: "[''u'', ''uu''] \<noteq> []"
    by simp_all
  show ?thesis
    using h l f n out
      add_twice_same_atom[OF h, of "''cat''" CONCEPT_NODE None "[''u'', ''uu'']" LIST_LINK]
    by blast
qed

section \<open>The store: removal\<close>

lemma removeIncoming_shape: "same_shape a (removeIncoming i a)"
  by (simp add: same_shape_def removeIncoming_def)

lemma rel_same_shape_refl [simp]: "rel_option same_shape x x"
  by (cases x) simp_all

lemma heap_mutate_shape:
  "(\<And>a. same_shape a (f a)) \<Longrightarrow> rel_option same_shape (heap g j) (heap (mutate k f g) j)"
  by (cases "heap g j") (auto simp: mutate_def)

lemma unwire_fields [simp]:
  "atoms (unwire_incoming i out g) = atoms g"
  "attentionalFocus (unwire_incoming i out g) = attentionalFocus g"
  by (simp_all add: unwire_incoming_def)

lemma unwire_heap: "rel_option same_shape (heap g j) (heap (unwire_incoming i out g) j)"
  using heap_mutate_shape[of "removeIncoming i" g j out]
  by (simp add: unwire_incoming_def removeIncoming_shape)

lemma fold_unwire_fields [simp]:
  "atoms (fold (unwire_incoming i) outs g) = atoms g"
  "attentionalFocus (fold (unwire_incoming i) outs g) = attentionalFocus g"
  by (induction outs arbitrary: g) simp_all

lemma fold_unwire_heap:
  "rel_option same_shape (heap g j) (heap (fold (unwire_incoming i) outs g) j)"
proof (induction outs arbitrary: g)
  case Nil
  then show ?case by simp
next
  case (Cons out outs)
  show ?case
    using unwire_heap[of g j i out] Cons.IH[of "unwire_incoming i out g"]
    by (auto intro: rel_option_same_shape_trans)
qed

lemma remove_ref_fields [simp]:
  "atoms (remove_incoming_reference i k g) = atoms g"
  "attentionalFocus (remove_incoming_reference i k g) = attentionalFocus g"
  by (simp_all add: remove_incoming_reference_def)

lemma remove_ref_heap: "rel_option same_shape (heap g j) (heap (remove_incoming_reference i k g) j)"
  using heap_mutate_shape[of "removeIncoming i" g j k]
  by (simp add: remove_incoming_reference_def removeIncoming_shape)

lemma fold_remove_ref_fields [simp]:
  "atoms (fold (remove_incoming_reference i) ks g) = atoms g"
  "attentionalFocus (fold (remove_incoming_reference i) ks g) = attentionalFocus g"
  by (induction ks arbitrary: g) simp_all

lemma fold_remove_ref_heap:
  "rel_option same_shape (heap g j) (heap (fold (remove_incoming_reference i) ks g) j)"
proof (induction ks arbitrary: g)
  case Nil
  then show ?case by simp
next
  case (Cons k ks)
  show ?case
    using remove_ref_heap[of g j i k] Cons.IH[of "remove_incoming_reference i k g"]
    by (auto intro: rel_option_same_shape_trans)
qed

lemma fold_unwire_heap_eq:
  "heap g' = heap g \<Longrightarrow> rel_option same_shape (heap g j) (heap (fold (unwire_incoming i) outs g') j)"
  using fold_unwire_heap[of g' j i outs] by simp

lemma index_steps_fields:
  "atoms (remove_from_typeIndex i a g) = atoms g"
  "attentionalFocus (remove_from_typeIndex i a g) = attentionalFocus g"
  "heap (remove_from_typeIndex i a g) = heap g"
  "atoms (remove_from_nameIndex i a g) = atoms g"
  "attentionalFocus (remove_from_nameIndex i a g) = attentionalFocus g"
  "heap (remove_from_nameIndex i a g) = heap g"
  by (simp_all add: remove_from_typeIndex_def remove_from_nameIndex_def split: option.splits)

lemma remove_refs_fields:
  "atoms (remove_incoming_references i g) = atoms g"
  "attentionalFocus (remove_incoming_references i g) = attentionalFocus g"
  by (simp_all add: remove_incoming_references_def split: option.splits)

lemma remove_refs_heap:
  "rel_option same_shape (heap g j) (heap (remove_incoming_references i g) j)"
  by (simp add: remove_incoming_references_def fold_remove_ref_heap split: option.splits)

text \<open>What \<open>removeAtom\<close> does to the key sequence, the focus and the atom objects.\<close>

lemma removeAtom_missing: "getAtom i g = None \<Longrightarrow> removeAtom i g = (False, g)"
  by (simp add: removeAtom_def)

lemma removeAtom_effect:
  assumes "getAtom i g = Some a"
  shows "fst (removeAtom i g) = True"
    and "atoms (snd (removeAtom i g)) = removeAll i (atoms g)"
    and "attentionalFocus (snd (removeAtom i g)) = removeAll i (attentionalFocus g)"
    and "rel_option same_shape (heap g j) (heap (snd (removeAtom i g)) j)"
proof -
  let ?g1 = "g\<lparr>attentionalFocus := set_delete i (attentionalFocus g)\<rparr>"
  let ?g3 = "remove_from_nameIndex i a (remove_from_typeIndex i a ?g1)"
  let ?g4 = "fold (unwire_incoming i) (outgoing a) ?g3"
  let ?g5 = "remove_incoming_references i ?g4"
  have res: "removeAtom i g = (True, ?g5\<lparr>atoms := set_delete i (atoms ?g5), asize := asize ?g5 - 1\<rparr>)"
    using assms by (simp add: removeAtom_def Let_def)
  have g3: "atoms ?g3 = atoms g" "attentionalFocus ?g3 = removeAll i (attentionalFocus g)"
    "heap ?g3 = heap g"
    by (simp_all add: index_steps_fields set_delete_def)
  have g4: "atoms ?g4 = atoms g" "attentionalFocus ?g4 = removeAll i (attentionalFocus g)"
    "rel_option same_shape (heap g j) (heap ?g4 j)"
    using g3 by (simp_all add: fold_unwire_heap_eq)
  have g5a: "atoms ?g5 = atoms g" "attentionalFocus ?g5 = removeAll i (attentionalFocus g)"
    using g4(1,2) by (simp_all add: remove_refs_fields)
  have "rel_option same_shape (heap ?g4 j) (heap ?g5 j)"
    by (rule remove_refs_heap)
  with g4(3) have g5h: "rel_option same_shape (heap g j) (heap ?g5 j)"
    by (rule rel_option_same_shape_trans)
  show "fst (removeAtom i g) = True" by (simp add: res)
  show "atoms (snd (removeAtom i g)) = removeAll i (atoms g)"
    using g5a(1) by (simp add: res set_delete_def)
  show "attentionalFocus (snd (removeAtom i g)) = removeAll i (attentionalFocus g)"
    using g5a(2) by (simp add: res)
  show "rel_option same_shape (heap g j) (heap (snd (removeAtom i g)) j)"
    using g5h by (simp add: res)
qed

text \<open>No block of \<open>removeAtom\<close> writes to an outgoing array.\<close>

lemma removeAtom_keeps_outgoing:
  "map_option outgoing (heap (snd (removeAtom i g)) j) = map_option outgoing (heap g j)"
proof (cases "getAtom i g")
  case None
  then show ?thesis by (simp add: removeAtom_missing)
next
  case (Some a)
  from removeAtom_effect(4)[OF Some, of j] show ?thesis
    by (cases "heap g j"; cases "heap (snd (removeAtom i g)) j") (simp_all add: same_shape_def)
qed

lemma graph_ABL_eval:
  "graph_ABL = \<lparr>heap = [''u'' \<mapsto> \<lparr>atom_type = ''ConceptNode'', name = Some ''A'', outgoing = [],
                       tv = \<lparr>strength = 1/2, confidence = 0, getStrength_method = None\<rparr>, av = \<lparr>sti = 0, lti = 0, vlti = False\<rparr>, incoming = [''uuu'']\<rparr>,
                     ''uu'' \<mapsto> \<lparr>atom_type = ''ConceptNode'', name = Some ''B'', outgoing = [],
                       tv = \<lparr>strength = 1/2, confidence = 0, getStrength_method = None\<rparr>, av = \<lparr>sti = 0, lti = 0, vlti = False\<rparr>, incoming = [''uuu'']\<rparr>,
                     ''uuu'' \<mapsto> \<lparr>atom_type = ''ListLink'', name = None, outgoing = [''u'', ''uu''],
                       tv = \<lparr>strength = 1/2, confidence = 0, getStrength_method = None\<rparr>, av = \<lparr>sti = 0, lti = 0, vlti = False\<rparr>, incoming = []\<rparr>],
     uuids = (\<lambda>n. replicate (Suc (Suc (Suc (Suc n)))) CHR ''u''),
     atoms = [''u'', ''uu'', ''uuu''],
     typeIndex = [''ConceptNode'' \<mapsto> [''u'', ''uu''], ''ListLink'' \<mapsto> [''uuu'']],
     nameIndex = [''A'' \<mapsto> [''u''], ''B'' \<mapsto> [''uu'']],
     incomingIndex = [''u'' \<mapsto> [''uuu''], ''uu'' \<mapsto> [''uuu'']], attentionalFocus = [], asize = 3\<rparr>"
  apply (simp add: graph_ABL_def graph_AB_eval)
  apply (simp add: eval_defs fun_upd_twist)
  done

lemmas remove_defs = removeAtom_def getAtom_def set_delete_def truthy_name_def unwire_incoming_def
  remove_incoming_reference_def mutate_def removeIncoming_def Let_def remove_from_typeIndex_def
  remove_from_nameIndex_def remove_incoming_references_def

section \<open>C5: outgoing references after a removal\<close>

text \<open>
  C5 says that after a removal no link of the graph refers to an atom that is not in the
  graph. The code does not do that: with nodes \<open>A\<close>, \<open>B\<close> and the list link over them,
  \<open>removeAtom(A.id)\<close> succeeds, the link stays in the graph, its outgoing sequence still
  names \<open>A\<close>, and \<open>A\<close> is no longer in the graph. The block of \<open>removeAtom\<close> headed
  \<open>Remove incoming references\<close> does visit the link, but calls \<open>removeIncoming\<close> on it.
\<close>

theorem removeAtom_leaves_dangling_outgoing:
  "fst (removeAtom ''u'' graph_ABL) = True
   \<and> ''uuu'' \<in> set (atoms (snd (removeAtom ''u'' graph_ABL)))
   \<and> map_option outgoing (getAtom ''uuu'' (snd (removeAtom ''u'' graph_ABL))) = Some [''u'', ''uu'']
   \<and> ''u'' \<notin> set (atoms (snd (removeAtom ''u'' graph_ABL)))"
  by (simp add: graph_ABL_eval remove_defs)

section \<open>C7: the premise pairs of a rule\<close>

text \<open>\<open>findRuleCandidates\<close> pairs an atom only with atoms that follow it in the store.\<close>

lemma candidate_loop_members:
  "(a, b) \<in> set (candidate_loop g pat xs) \<Longrightarrow> a \<in> set xs \<and> b \<in> set xs"
  by (induction xs) (auto simp: pairs_from_def)

lemma candidate_loop_one_way:
  "distinct xs \<Longrightarrow> (a, b) \<in> set (candidate_loop g pat xs) \<Longrightarrow>
   (b, a) \<notin> set (candidate_loop g pat xs)"
proof (induction xs)
  case Nil
  then show ?case by simp
next
  case (Cons x xs)
  have d: "distinct xs" and nx: "x \<notin> set xs" using Cons.prems(1) by simp_all
  from Cons.prems(2) consider
    "a = x" "b \<in> set xs" | "(a, b) \<in> set (candidate_loop g pat xs)"
    by (auto simp: pairs_from_def)
  then show ?case
  proof cases
    case 1
    with nx have "b \<noteq> x" by auto
    moreover have "(b, a) \<notin> set (candidate_loop g pat xs)"
      using candidate_loop_members[of b a g pat xs] 1 nx by auto
    ultimately show ?thesis by (auto simp: pairs_from_def)
  next
    case 2
    with candidate_loop_members[of a b g pat xs] nx have "b \<noteq> x" by auto
    moreover have "(b, a) \<notin> set (candidate_loop g pat xs)"
      using Cons.IH[OF d 2] .
    ultimately show ?thesis by (auto simp: pairs_from_def)
  qed
qed

lemma graph_S1_eval:
  "graph_S1 = \<lparr>heap = [''u'' \<mapsto> \<lparr>atom_type = ''ConceptNode'', name = Some ''A'', outgoing = [],
                       tv = \<lparr>strength = 1/2, confidence = 0, getStrength_method = None\<rparr>, av = \<lparr>sti = 0, lti = 0, vlti = False\<rparr>, incoming = [''uuuu'']\<rparr>,
                     ''uu'' \<mapsto> \<lparr>atom_type = ''ConceptNode'', name = Some ''B'', outgoing = [],
                       tv = \<lparr>strength = 1/2, confidence = 0, getStrength_method = None\<rparr>, av = \<lparr>sti = 0, lti = 0, vlti = False\<rparr>, incoming = [''uuuu'', ''uuuuu'']\<rparr>,
                     ''uuu'' \<mapsto> \<lparr>atom_type = ''ConceptNode'', name = Some ''C'', outgoing = [],
                       tv = \<lparr>strength = 1/2, confidence = 0, getStrength_method = None\<rparr>, av = \<lparr>sti = 0, lti = 0, vlti = False\<rparr>, incoming = [''uuuuu'']\<rparr>,
                     ''uuuu'' \<mapsto> \<lparr>atom_type = ''ImplicationLink'', name = None, outgoing = [''u'', ''uu''],
                       tv = \<lparr>strength = 9/10, confidence = 8/10, getStrength_method = None\<rparr>, av = \<lparr>sti = 0, lti = 0, vlti = False\<rparr>, incoming = []\<rparr>,
                     ''uuuuu'' \<mapsto> \<lparr>atom_type = ''ImplicationLink'', name = None, outgoing = [''uu'', ''uuu''],
                       tv = \<lparr>strength = 7/10, confidence = 6/10, getStrength_method = None\<rparr>, av = \<lparr>sti = 0, lti = 0, vlti = False\<rparr>, incoming = []\<rparr>],
     uuids = (\<lambda>n. replicate (Suc (Suc (Suc (Suc (Suc (Suc n)))))) CHR ''u''),
     atoms = [''u'', ''uu'', ''uuu'', ''uuuu'', ''uuuuu''],
     typeIndex = [''ConceptNode'' \<mapsto> [''u'', ''uu'', ''uuu''], ''ImplicationLink'' \<mapsto> [''uuuu'', ''uuuuu'']],
     nameIndex = [''A'' \<mapsto> [''u''], ''B'' \<mapsto> [''uu''], ''C'' \<mapsto> [''uuu'']],
     incomingIndex = [''u'' \<mapsto> [''uuuu''], ''uu'' \<mapsto> [''uuuu'', ''uuuuu''], ''uuu'' \<mapsto> [''uuuuu'']],
     attentionalFocus = [], asize = 5\<rparr>"
  apply (simp add: graph_S1_def graph_AB_eval)
  apply (simp add: eval_defs fun_upd_twist)
  done

text \<open>
  C7 says that both orders of two matching atoms are candidates. In the graph of scenario
  S1 the two implication links both match both premises of the deduction rule, and
  \<open>findRuleCandidates\<close> returns the pair in insertion order only: its inner loop starts
  at \<open>j = i + 1\<close>.
\<close>

theorem findRuleCandidates_skips_reverse_pair:
  "matchesPattern graph_S1 ''uuuu'' IMPLICATION_LINK \<and> matchesPattern graph_S1 ''uuuuu'' IMPLICATION_LINK
   \<and> findRuleCandidates deduction_rule graph_S1 = [(''uuuu'', ''uuuuu'')]
   \<and> (''uuuuu'', ''uuuu'') \<notin> set (findRuleCandidates deduction_rule graph_S1)"
  by (simp add: graph_S1_eval findRuleCandidates_def deduction_rule_def getAllAtoms_def
      pairs_from_def matchesPattern_def IMPLICATION_LINK_def)

section \<open>C1 and C3: what an inference run does\<close>

lemma getStrength_plain: "getStrength_method t = None \<Longrightarrow> getStrength t = Inl TypeError"
  by (simp add: getStrength_def)

lemma calculate_TV_raises:
  assumes "getStrength_method t1 = None"
  shows "calculateDeductionTV t1 t2 = Inl TypeError"
    and "calculateInductionTV t1 t2 = Inl TypeError"
    and "calculateAbductionTV t1 t2 = Inl TypeError"
    and "calculateModusPonensTV t1 t2 = Inl TypeError"
  using assms
  by (simp_all add: calculateDeductionTV_def calculateInductionTV_def calculateAbductionTV_def
      calculateModusPonensTV_def getStrength_plain)

lemma evaluatesAsTrue_never:
  "plain_store g \<Longrightarrow> evaluatesAsTrue c g l a \<noteq> Inr True"
  by (auto simp add: evaluatesAsTrue_def plain_store_def getStrength_plain Let_def split: option.splits)

lemma applyDeduction_no_result:
  assumes "plain_store g"
  shows "snd (applyDeduction cand g) = g"
    and "fst (applyDeduction cand g) \<noteq> Inr (Some x)"
  using assms
  by (auto simp add: applyDeduction_def plain_store_def calculate_TV_raises split: option.splits)

lemma applyInduction_no_result:
  assumes "plain_store g"
  shows "snd (applyInduction cand g) = g"
    and "fst (applyInduction cand g) \<noteq> Inr (Some x)"
  using assms
  by (auto simp add: applyInduction_def plain_store_def calculate_TV_raises split: option.splits)

lemma applyAbduction_no_result:
  assumes "plain_store g"
  shows "snd (applyAbduction cand g) = g"
    and "fst (applyAbduction cand g) \<noteq> Inr (Some x)"
  using assms
  by (auto simp add: applyAbduction_def plain_store_def calculate_TV_raises split: option.splits)

lemma applyModusPonens_no_result:
  assumes "plain_store g"
  shows "snd (applyModusPonens c cand g) = g"
    and "fst (applyModusPonens c cand g) \<noteq> Inr (Some x)"
  using evaluatesAsTrue_never[OF assms, of c "snd cand"]
  by (auto simp add: applyModusPonens_def split: option.splits sum.splits bool.splits)

lemma rule_apply_no_result:
  assumes "plain_store g"
  shows "snd (rule_apply c r cand g) = g"
    and "fst (rule_apply c r cand g) \<noteq> Inr (Some x)"
  using assms
  by (auto simp add: rule_apply_def applyRevision_def applyDeduction_no_result
      applyInduction_no_result applyAbduction_no_result applyModusPonens_no_result
      split: rule_method.splits)

lemma applyRule_loop_idle:
  assumes "plain_store g"
  shows "applyRule_loop c r cands res g = (res, g)"
proof (induction cands)
  case Nil
  then show ?case by simp
next
  case (Cons cand cands)
  obtain x g1 where x: "rule_apply c r cand g = (x, g1)" by (cases "rule_apply c r cand g")
  with rule_apply_no_result[OF assms, of c r cand] have "g1 = g" "\<And>y. x \<noteq> Inr (Some y)"
    by simp_all
  with x Cons show ?case by (auto split: sum.splits option.splits)
qed

lemma applyRule_idle: "plain_store g \<Longrightarrow> applyRule c r g = ([], g)"
  by (simp add: applyRule_def applyRule_loop_idle)

lemma apply_rules_idle: "plain_store g \<Longrightarrow> apply_rules c rs acc g = (acc, g)"
  by (induction rs arbitrary: acc) (auto simp: applyRule_idle)

text \<open>
  An inference run on a store whose truth values are all objects of class \<open>TruthValue\<close>:
  every rule raises before it has computed a truth value, the run ends after one
  iteration without a result, and the graph is the one it started from.
\<close>

lemma performInference_idle:
  "plain_store g \<Longrightarrow>
   performInference c n g =
     (\<lparr>results = [], iterations = (if n = 0 then 0 else 1), totalInferences = 0\<rparr>, g)"
  by (cases n) (simp_all add: performInference_def apply_rules_idle)

lemma plain_store_graph_S1: "plain_store graph_S1"
  by (simp add: plain_store_def graph_S1_eval)

lemma deduction_rule_registered: "map_of rules ''deduction'' = Some deduction_rule"
  by (simp add: rules_def deduction_rule_def)

text \<open>
  C1 says that one iteration on scenario S1 (\<open>A \<rightarrow> B\<close> with \<open>(0.9, 0.8)\<close>,
  \<open>B \<rightarrow> C\<close> with \<open>(0.7, 0.6)\<close>) produces \<open>A \<rightarrow> C\<close> with \<open>(0.63, 0.3504)\<close>. The code
  finds the candidate, and the rule's \<open>apply\<close>, which is \<open>applyDeduction\<close>, raises a
  TypeError on it, at
  \<open>tv1.getStrength()\<close>; \<open>applyRule\<close> catches it, the run returns no result after one
  iteration, and the graph has no implication link from \<open>A\<close> to \<open>C\<close>.
\<close>

theorem deduction_chain_raises:
  "map_option tv (getAtom ''uuuu'' graph_S1) = Some \<lparr>strength = 9/10, confidence = 8/10, getStrength_method = None\<rparr>
   \<and> map_option tv (getAtom ''uuuuu'' graph_S1) = Some \<lparr>strength = 7/10, confidence = 6/10, getStrength_method = None\<rparr>
   \<and> findRuleCandidates deduction_rule graph_S1 = [(''uuuu'', ''uuuuu'')]
   \<and> rule_apply (PLN_config_of no_PLN_options) deduction_rule (''uuuu'', ''uuuuu'') graph_S1
       = (Inl TypeError, graph_S1)
   \<and> performInference (PLN_config_of no_PLN_options) 1 graph_S1 =
       (\<lparr>results = [], iterations = 1, totalInferences = 0\<rparr>, graph_S1)
   \<and> getLinkByOutgoing IMPLICATION_LINK [''u'', ''uuu''] graph_S1 = None"
proof -
  have "rule_apply (PLN_config_of no_PLN_options) deduction_rule (''uuuu'', ''uuuuu'') graph_S1
          = (Inl TypeError, graph_S1)"
    by (simp add: rule_apply_def deduction_rule_def applyDeduction_def graph_S1_eval
        atomsAreEquivalent_def calculate_TV_raises)
  moreover have "getLinkByOutgoing IMPLICATION_LINK [''u'', ''uuu''] graph_S1 = None"
    by (simp add: graph_S1_eval getLinkByOutgoing_def IMPLICATION_LINK_def getAtom_def isLink_def)
  moreover have "findRuleCandidates deduction_rule graph_S1 = [(''uuuu'', ''uuuuu'')]"
    by (simp add: graph_S1_eval findRuleCandidates_def deduction_rule_def getAllAtoms_def
      pairs_from_def matchesPattern_def IMPLICATION_LINK_def)
  ultimately show ?thesis
    by (simp add: performInference_idle[OF plain_store_graph_S1]) (simp add: graph_S1_eval getAtom_def)
qed







section \<open>C8: stimulation\<close>

lemma ecan_AB_fields:
  "atomSpace ecan_AB = graph_AB"
  "config ecan_AB = \<lparr>maxAF = 100, minSTI = - 1000, maxSTI = 1000, stimulusAmount = 10,
      decayRate = 1/100, spreadProbability = 1/10, totalSTI = 10000, totalLTI = 10000,
      rentAmount = 1, hebbianLearningRate = 1/10, diffusionRate = 2/10\<rparr>"
  "currentSTIPool ecan_AB = 10000"
  by (simp_all add: ecan_AB_def new_ECAN_def ECAN_config_of_def no_options_def or_default_def)

text \<open>
  C8 says that \<open>stimulate\<close> with amount 0 leaves the STI unchanged. In the default
  configuration \<open>stimulateAtom(id, 0)\<close> on an atom of STI 0 returns true and leaves
  the STI at 10: \<open>amount || this.config.stimulusAmount\<close> replaces the zero amount by the
  default stimulus.
\<close>

theorem stimulate_zero_adds_default:
  "fst (stimulateAtom ''u'' (Some 0) ecan_AB) = True
   \<and> map_option getSTI (getAtom ''u'' (atomSpace ecan_AB)) = Some 0
   \<and> map_option getSTI (getAtom ''u'' (atomSpace (snd (stimulateAtom ''u'' (Some 0) ecan_AB)))) = Some 10"
  by (simp add: stimulateAtom_def ecan_AB_fields graph_AB_eval getAtom_def or_default_def
      Let_def mutate_def getSTI_def setSTI_def)

text \<open>
  The rest of C8 holds: a non-zero amount that takes the STI past \<open>maxSTI\<close> sets it to
  \<open>maxSTI\<close> and the call returns true; for an identifier that is not stored the call
  returns false and changes nothing.
\<close>

lemma stimulate_clamps:
  assumes "getAtom i (atomSpace e) = Some a" "amount \<noteq> 0" "getSTI a + amount > maxSTI (config e)"
  shows "fst (stimulateAtom i (Some amount) e) = True"
    and "map_option getSTI (getAtom i (atomSpace (snd (stimulateAtom i (Some amount) e)))) = Some (maxSTI (config e))"
  using assms
  by (auto simp add: stimulateAtom_def or_default_def Let_def getAtom_def mutate_def getSTI_def
      setSTI_def split: if_splits)

lemma stimulate_missing: "getAtom i (atomSpace e) = None \<Longrightarrow> stimulateAtom i amount e = (False, e)"
  by (simp add: stimulateAtom_def)

section \<open>C9: the decay phase\<close>

lemma ecan_50_fields:
  "config ecan_50 = config ecan_AB"
  "currentSTIPool ecan_50 = 9950"
  "atoms (atomSpace ecan_50) = [''u'', ''uu'']"
  "heap (atomSpace ecan_50) ''u'' = Some \<lparr>atom_type = ''ConceptNode'', name = Some ''A'', outgoing = [],
       tv = \<lparr>strength = 1/2, confidence = 0, getStrength_method = None\<rparr>, av = \<lparr>sti = 50, lti = 0, vlti = False\<rparr>, incoming = []\<rparr>"
  "heap (atomSpace ecan_50) ''uu'' = Some \<lparr>atom_type = ''ConceptNode'', name = Some ''B'', outgoing = [],
       tv = \<lparr>strength = 1/2, confidence = 0, getStrength_method = None\<rparr>, av = \<lparr>sti = 0, lti = 0, vlti = False\<rparr>, incoming = []\<rparr>"
  by (simp_all add: ecan_50_def stimulateAtom_def ecan_AB_fields graph_AB_eval getAtom_def
      or_default_def Let_def mutate_def getSTI_def setSTI_def)

text \<open>
  C9 as stated fails: the decay is not rounded. An atom of STI 50 decays by
  \<open>50 * 0.01 = 0.5\<close> to 49.5, where rounding the delta toward zero would leave it at 50.
\<close>

theorem decay_does_not_round_counterexample:
  "map_option getSTI (heap (atomSpace ecan_50) ''u'') = Some 50
   \<and> decayRate (config ecan_50) = 1/100
   \<and> map_option getSTI (heap (atomSpace (applySTIDecay ecan_50)) ''u'') = Some (99/2)
   \<and> map_option getSTI (heap (atomSpace (applySTIDecay ecan_50)) ''u'')
       \<noteq> Some (50 - round_toward_zero (50 * decayRate (config ecan_50)))"
  by (simp add: applySTIDecay_def applySTIDecay_step_def getAllAtoms_def ecan_50_fields
      ecan_AB_fields Let_def getSTI_def setSTI_def mutate_def round_toward_zero_def)

lemma applySTIDecay_step_effect:
  "config (applySTIDecay_step i e) = config e"
  "atoms (atomSpace (applySTIDecay_step i e)) = atoms (atomSpace e)"
  "attentionalFocus (atomSpace (applySTIDecay_step i e)) = attentionalFocus (atomSpace e)"
  "heap (atomSpace (applySTIDecay_step i e)) j =
     (if j = i then map_option (decay_atom (config e)) (heap (atomSpace e) j) else heap (atomSpace e) j)"
  "currentSTIPool (applySTIDecay_step i e) = currentSTIPool e + decay_amount (config e) (atomSpace e) i"
  by (auto simp add: applySTIDecay_step_def Let_def mutate_def decay_atom_def decay_amount_def
      split: option.splits)

lemma fold_applySTIDecay_step:
  assumes "distinct is"
  shows "config (fold applySTIDecay_step is e) = config e
       \<and> atoms (atomSpace (fold applySTIDecay_step is e)) = atoms (atomSpace e)
       \<and> attentionalFocus (atomSpace (fold applySTIDecay_step is e)) = attentionalFocus (atomSpace e)
       \<and> (\<forall>j. heap (atomSpace (fold applySTIDecay_step is e)) j =
               (if j \<in> set is then map_option (decay_atom (config e)) (heap (atomSpace e) j)
                else heap (atomSpace e) j))
       \<and> currentSTIPool (fold applySTIDecay_step is e) =
           currentSTIPool e + sum_list (map (decay_amount (config e) (atomSpace e)) is)"
  using assms
proof (induction "is" arbitrary: e)
  case Nil
  then show ?case by simp
next
  case (Cons i "is")
  let ?e1 = "applySTIDecay_step i e"
  have d: "distinct is" and ni: "i \<notin> set is" using Cons.prems by simp_all
  note ih = Cons.IH[OF d, of ?e1]
  have same: "map (decay_amount (config e) (atomSpace ?e1)) is = map (decay_amount (config e) (atomSpace e)) is"
    using ni by (auto simp: decay_amount_def applySTIDecay_step_effect)
  show ?case
    using ih ni same by (auto simp: applySTIDecay_step_effect)
qed

lemma applySTIDecay_fields:
  assumes "distinct (atoms (atomSpace e))"
  shows "config (applySTIDecay e) = config e"
    and "atoms (atomSpace (applySTIDecay e)) = atoms (atomSpace e)"
    and "attentionalFocus (atomSpace (applySTIDecay e)) = attentionalFocus (atomSpace e)"
    and "heap (atomSpace (applySTIDecay e)) j =
           (if j \<in> set (atoms (atomSpace e)) then map_option (decay_atom (config e)) (heap (atomSpace e) j)
            else heap (atomSpace e) j)"
  using fold_applySTIDecay_step[OF assms, of e]
  by (simp_all add: applySTIDecay_def getAllAtoms_def)

text \<open>
  C9, amended: in the decay phase every atom of the graph with \<open>STI > 0\<close> has its STI set
  to \<open>max (STI - STI * decayRate) 0\<close>, with no rounding, every atom with \<open>STI \<le> 0\<close>
  keeps its STI, and the pool grows by \<open>STI * decayRate\<close> for each atom with \<open>STI > 0\<close>.
  The keys of the store are distinct, as the keys of a \<open>Map\<close> are.
\<close>

theorem applySTIDecay_exact:
  assumes "distinct (atoms (atomSpace e))"
  shows "(\<forall>i\<in>set (atoms (atomSpace e)). \<forall>a. heap (atomSpace e) i = Some a \<longrightarrow>
            (\<exists>b. heap (atomSpace (applySTIDecay e)) i = Some b
               \<and> (getSTI a > 0 \<longrightarrow> getSTI b = max (getSTI a - getSTI a * decayRate (config e)) 0)
               \<and> (getSTI a \<le> 0 \<longrightarrow> getSTI b = getSTI a)))
       \<and> currentSTIPool (applySTIDecay e) =
           currentSTIPool e + (\<Sum>i\<leftarrow>atoms (atomSpace e). decay_amount (config e) (atomSpace e) i)"
  using fold_applySTIDecay_step[OF assms, of e]
  by (auto simp add: applySTIDecay_def getAllAtoms_def decay_atom_def getSTI_def setSTI_def)

text \<open>The amended C9 at a store with one atom of STI 50 and one of STI 0.\<close>

theorem applySTIDecay_exact_witness:
  "distinct (atoms (atomSpace ecan_50))
   \<and> heap (atomSpace ecan_50) ''u'' \<noteq> None
   \<and> map_option getSTI (heap (atomSpace ecan_50) ''u'') = Some 50
   \<and> map_option getSTI (heap (atomSpace ecan_50) ''uu'') = Some 0
   \<and> map_option getSTI (heap (atomSpace (applySTIDecay ecan_50)) ''u'') = Some (50 - 50 * (1/100))
   \<and> map_option getSTI (heap (atomSpace (applySTIDecay ecan_50)) ''uu'') = Some 0
   \<and> currentSTIPool (applySTIDecay ecan_50) = currentSTIPool ecan_50 + 50 * (1/100)"
proof -
  have d: "distinct (atoms (atomSpace ecan_50))" by (simp add: ecan_50_fields)
  have u: "''u'' \<in> set (atoms (atomSpace ecan_50))" "''uu'' \<in> set (atoms (atomSpace ecan_50))"
    by (simp_all add: ecan_50_fields)
  note t = applySTIDecay_exact[OF d]
  from t u(1) ecan_50_fields(4) have 1: "map_option getSTI (heap (atomSpace (applySTIDecay ecan_50)) ''u'') = Some (50 - 50 * (1/100))"
    by (auto simp: getSTI_def ecan_50_fields ecan_AB_fields)
  from t u(2) ecan_50_fields(5) have 2: "map_option getSTI (heap (atomSpace (applySTIDecay ecan_50)) ''uu'') = Some 0"
    by (auto simp: getSTI_def)
  from t have 3: "currentSTIPool (applySTIDecay ecan_50) = currentSTIPool ecan_50 + 50 * (1/100)"
    by (simp add: ecan_50_fields ecan_AB_fields decay_amount_def getSTI_def)
  show ?thesis using d 1 2 3 by (simp add: ecan_50_fields getSTI_def)
qed

section \<open>The cycle: what rent, decay and spreading leave alone\<close>

lemma same_frame_refl [simp]: "same_frame g g"
  by (simp add: same_frame_def)

lemma same_frame_trans: "same_frame g h \<Longrightarrow> same_frame h k \<Longrightarrow> same_frame g k"
  by (simp add: same_frame_def)

lemma same_frame_mutate [simp]: "same_frame g (mutate i f g)"
  by (auto simp: same_frame_def mutate_def dom_def)

lemma frame_kept_refl [simp]: "frame_kept e e"
  by (simp add: frame_kept_def)

lemma frame_kept_trans: "frame_kept e e1 \<Longrightarrow> frame_kept e1 e2 \<Longrightarrow> frame_kept e e2"
  by (auto simp: frame_kept_def intro: same_frame_trans)

lemma fold_frame_kept:
  "(\<And>i e. frame_kept e (step i e)) \<Longrightarrow> frame_kept e (fold step is e)"
proof (induction "is" arbitrary: e)
  case Nil
  then show ?case by simp
next
  case (Cons i "is")
  have "frame_kept e (step i e)" by (rule Cons.prems)
  moreover have "frame_kept (step i e) (fold step is (step i e))"
    by (rule Cons.IH) (rule Cons.prems)
  ultimately show ?case by (auto intro: frame_kept_trans)
qed

lemma Math_random_fields [simp]:
  "config (snd (Math_random e)) = config e"
  "atomSpace (snd (Math_random e)) = atomSpace e"
  "currentSTIPool (snd (Math_random e)) = currentSTIPool e"
  by (simp_all add: Math_random_def)

lemma collectRent_frame: "frame_kept e (collectRent e)"
  unfolding collectRent_def
  by (rule fold_frame_kept) (simp add: frame_kept_def collectRent_step_def)

lemma applySTIDecay_frame: "frame_kept e (applySTIDecay e)"
  unfolding applySTIDecay_def
  by (rule fold_frame_kept)
     (simp add: frame_kept_def applySTIDecay_step_def Let_def split: option.splits)

lemma spread_loop_frame: "frame_kept e (snd (spread_loop apa cs t e))"
proof (induction apa cs t e rule: spread_loop.induct)
  case (1 apa t e)
  then show ?case by simp
next
  case (2 apa c cs t e)
  obtain r e1 where r: "Math_random e = (r, e1)" by (cases "Math_random e")
  then have e1: "config e1 = config e" "atomSpace e1 = atomSpace e"
    using Math_random_fields[of e] by simp_all
  show ?case
  proof (cases "r < spreadProbability (config e1)")
    case True
    let ?e2 = "e1\<lparr>atomSpace := mutate c (\<lambda>a. setSTI (min (getSTI a + apa) (maxSTI (config e1))) a) (atomSpace e1)\<rparr>"
    have "frame_kept e ?e2" using e1 by (simp add: frame_kept_def)
    moreover have "frame_kept ?e2 (snd (spread_loop apa cs (t + apa) ?e2))"
      using "2.IH"(1)[OF r[symmetric] refl True] .
    ultimately show ?thesis using r True by (auto intro: frame_kept_trans)
  next
    case False
    have "frame_kept e e1" using e1 by (simp add: frame_kept_def)
    moreover have "frame_kept e1 (snd (spread_loop apa cs t e1))"
      using "2.IH"(2)[OF r[symmetric] refl False] .
    ultimately show ?thesis using r False by (auto intro: frame_kept_trans)
  qed
qed

lemma spreadFromAtom_frame: "frame_kept e (snd (spreadFromAtom i e))"
proof -
  have step: "frame_kept e (e1\<lparr>atomSpace := mutate i f (atomSpace e1)\<rparr>)" if "frame_kept e e1" for e1 f
    using that same_frame_mutate[of "atomSpace e1" i f]
    by (auto simp: frame_kept_def intro: same_frame_trans)
  show ?thesis
    by (auto simp add: spreadFromAtom_def Let_def split_beta split: option.splits
        intro!: step spread_loop_frame)
qed

lemma spreadImportance_loop_frame: "frame_kept e (snd (spreadImportance_loop is t e))"
proof (induction "is" arbitrary: t e)
  case Nil
  then show ?case by simp
next
  case (Cons i "is")
  show ?case
  proof (cases "heap (atomSpace e) i")
    case None
    then show ?thesis using Cons.IH by simp
  next
    case (Some a)
    show ?thesis
    proof (cases "getSTI a > minSTI (config e) * 2")
      case True
      have "frame_kept e (snd (spreadFromAtom i e))" by (rule spreadFromAtom_frame)
      moreover have "frame_kept (snd (spreadFromAtom i e))
          (snd (spreadImportance_loop is (t + fst (spreadFromAtom i e)) (snd (spreadFromAtom i e))))"
        by (rule Cons.IH)
      ultimately show ?thesis using Some True
        by (auto simp: split_beta intro: frame_kept_trans)
    next
      case False
      then show ?thesis using Some Cons.IH by simp
    qed
  qed
qed

lemma spreadImportance_frame: "frame_kept e (spreadImportance e)"
  using spreadImportance_loop_frame[of e "getAttentionalFocus (atomSpace e)" 0]
  by (simp add: spreadImportance_def split_beta frame_kept_def)

section \<open>The cycle: focus update and forgetting\<close>

lemma clear_step_fields:
  "attentionalFocus (clear_step i g) = filter (\<lambda>j. j \<noteq> i) (attentionalFocus g)"
  "atoms (clear_step i g) = atoms g"
  "heap (clear_step i g) = heap g"
  by (simp_all add: clear_step_def removeFromAttentionalFocus_def set_delete_def
      removeAll_filter_not_eq eq_commute)

lemma fold_clear_atoms: "atoms (fold clear_step xs g) = atoms g"
  by (induction xs arbitrary: g) (simp_all add: clear_step_fields)

lemma fold_clear_heap: "heap (fold clear_step xs g) = heap g"
  by (induction xs arbitrary: g) (simp_all add: clear_step_fields)

lemma fold_clear_focus:
  "attentionalFocus (fold clear_step xs g) = filter (\<lambda>i. i \<notin> set xs) (attentionalFocus g)"
  by (induction xs arbitrary: g) (simp_all add: clear_step_fields conj_commute)

lemma fill_step_fields:
  "atoms (fill_step i g) = atoms g"
  "heap (fill_step i g) = heap g"
  "set (attentionalFocus (fill_step i g)) \<subseteq> set (attentionalFocus g) \<union> {i}"
  "length (attentionalFocus (fill_step i g)) \<le> length (attentionalFocus g) + 1"
  by (auto simp add: fill_step_def addToAttentionalFocus_def hasAtom_def set_add_def)

lemma fold_fill_atoms: "atoms (fold fill_step xs g) = atoms g"
  by (induction xs arbitrary: g) (simp_all add: fill_step_fields)

lemma fold_fill_heap: "heap (fold fill_step xs g) = heap g"
  by (induction xs arbitrary: g) (simp_all add: fill_step_fields)

lemma fold_fill_focus:
  "set (attentionalFocus (fold fill_step xs g)) \<subseteq> set (attentionalFocus g) \<union> set xs"
proof (induction xs arbitrary: g)
  case Nil
  then show ?case by simp
next
  case (Cons x xs)
  show ?case using Cons.IH[of "fill_step x g"] fill_step_fields(3)[of x g] by auto
qed

lemma fold_fill_length:
  "length (attentionalFocus (fold fill_step xs g)) \<le> length (attentionalFocus g) + length xs"
proof (induction xs arbitrary: g)
  case Nil
  then show ?case by simp
next
  case (Cons x xs)
  show ?case using Cons.IH[of "fill_step x g"] fill_step_fields(4)[of x g] by simp
qed

text \<open>What \<open>slice(0, stop)\<close> keeps: a prefix, of at most \<open>stop\<close> elements when \<open>stop\<close> is not negative.\<close>

lemma slice_from_0_subset: "set (slice_from_0 m xs) \<subseteq> set xs"
  by (simp add: slice_from_0_def Let_def set_take_subset)

lemma slice_from_0_nonneg: "0 \<le> m \<Longrightarrow> slice_from_0 m xs = take (nat \<lfloor>m\<rfloor>) xs"
  by (simp add: slice_from_0_def js_truncate_def Let_def min_def)

lemma slice_from_0_length:
  assumes "0 \<le> m"
  shows "real (length (slice_from_0 m xs)) \<le> m"
proof -
  have "length (slice_from_0 m xs) \<le> nat \<lfloor>m\<rfloor>"
    by (simp add: slice_from_0_nonneg[OF assms])
  then have "real (length (slice_from_0 m xs)) \<le> real (nat \<lfloor>m\<rfloor>)"
    by (simp only: of_nat_le_iff)
  also have "real (nat \<lfloor>m\<rfloor>) = of_int \<lfloor>m\<rfloor>"
    using assms by simp
  also have "\<dots> \<le> m" by (rule of_int_floor_le)
  finally show ?thesis .
qed

text \<open>The focus after the focus update: stored atoms of sufficient STI, at most \<open>maxAF\<close> of
  them when \<open>maxAF\<close> is not negative.\<close>

lemma updateAttentionalFocus_effect:
  assumes live: "set (attentionalFocus (atomSpace e)) \<subseteq> set (atoms (atomSpace e))"
    and heap: "set (atoms (atomSpace e)) \<subseteq> dom (heap (atomSpace e))"
  shows "config (updateAttentionalFocus e) = config e"
    and "atoms (atomSpace (updateAttentionalFocus e)) = atoms (atomSpace e)"
    and "heap (atomSpace (updateAttentionalFocus e)) = heap (atomSpace e)"
    and "0 \<le> maxAF (config e) \<longrightarrow>
           real (length (attentionalFocus (atomSpace (updateAttentionalFocus e)))) \<le> maxAF (config e)"
    and "\<forall>i\<in>set (attentionalFocus (atomSpace (updateAttentionalFocus e))).
           i \<in> set (atoms (atomSpace e)) \<and> minSTI (config e) \<le> sti_of (atomSpace e) i"
proof -
  let ?g = "atomSpace e"
  let ?g1 = "fold clear_step (getAttentionalFocus ?g) ?g"
  let ?sorted = "slice_from_0 (maxAF (config e)) (sort_key (\<lambda>i. - sti_of ?g1 i)
                   (filter (\<lambda>i. sti_of ?g1 i \<ge> minSTI (config e)) (getAllAtoms ?g1)))"
  let ?g2 = "fold fill_step ?sorted ?g1"
  have upd: "updateAttentionalFocus e = e\<lparr>atomSpace := ?g2\<rparr>"
    by (simp add: updateAttentionalFocus_def Let_def clear_step_def fill_step_def)
  have all_live: "getAttentionalFocus ?g = attentionalFocus ?g"
    using live heap by (auto simp: getAttentionalFocus_def getAtom_def filter_id_conv)
  have empty: "attentionalFocus ?g1 = []"
    by (simp add: fold_clear_focus all_live)
  have h1: "heap ?g1 = heap ?g" and a1: "atoms ?g1 = atoms ?g"
    by (simp_all add: fold_clear_heap fold_clear_atoms)
  have sti1: "sti_of ?g1 = sti_of ?g"
    by (simp add: sti_of_def h1 fun_eq_iff)
  show "config (updateAttentionalFocus e) = config e" by (simp add: upd)
  show "atoms (atomSpace (updateAttentionalFocus e)) = atoms ?g"
    by (simp add: upd fold_fill_atoms a1)
  show "heap (atomSpace (updateAttentionalFocus e)) = heap ?g"
    by (simp add: upd fold_fill_heap h1)
  have len: "length (attentionalFocus ?g2) \<le> length (attentionalFocus ?g1) + length ?sorted"
    by (rule fold_fill_length)
  show "0 \<le> maxAF (config e) \<longrightarrow>
          real (length (attentionalFocus (atomSpace (updateAttentionalFocus e)))) \<le> maxAF (config e)"
  proof
    assume "0 \<le> maxAF (config e)"
    then have "real (length ?sorted) \<le> maxAF (config e)" by (rule slice_from_0_length)
    moreover from len have "real (length (attentionalFocus ?g2)) \<le> real (length ?sorted)"
      by (simp add: empty)
    ultimately show "real (length (attentionalFocus (atomSpace (updateAttentionalFocus e)))) \<le> maxAF (config e)"
      by (simp add: upd)
  qed
  have "set (attentionalFocus ?g2) \<subseteq> set (attentionalFocus ?g1) \<union> set ?sorted"
    by (rule fold_fill_focus)
  then have sub: "set (attentionalFocus ?g2) \<subseteq> set ?sorted" by (simp add: empty)
  have "set ?sorted \<subseteq> {i \<in> set (atoms ?g). minSTI (config e) \<le> sti_of ?g i}"
    using slice_from_0_subset[of "maxAF (config e)"]
    by (fastforce simp: sti1 getAllAtoms_def a1)
  with sub show "\<forall>i\<in>set (attentionalFocus (atomSpace (updateAttentionalFocus e))).
           i \<in> set (atoms ?g) \<and> minSTI (config e) \<le> sti_of ?g i"
    by (auto simp: upd)
qed

lemma focus_ok_removeAtom: "focus_ok c g \<Longrightarrow> focus_ok c (snd (removeAtom i g))"
proof (cases "getAtom i g")
  case None
  assume "focus_ok c g"
  with None show ?thesis by (simp add: removeAtom_missing)
next
  case (Some a)
  assume ok: "focus_ok c g"
  note eff = removeAtom_effect[OF Some]
  let ?h = "snd (removeAtom i g)"
  have len: "real (length (attentionalFocus ?h)) \<le> maxAF c"
  proof -
    have "length (removeAll i (attentionalFocus g)) \<le> length (attentionalFocus g)"
      by (simp add: removeAll_filter_not_eq)
    then have "real (length (removeAll i (attentionalFocus g))) \<le> real (length (attentionalFocus g))"
      by (simp only: of_nat_le_iff)
    moreover from ok have "real (length (attentionalFocus g)) \<le> maxAF c"
      by (simp add: focus_ok_def)
    ultimately have "real (length (removeAll i (attentionalFocus g))) \<le> maxAF c"
      by (rule order_trans)
    then show ?thesis by (simp only: eff(3))
  qed
  have "\<exists>b. getAtom j ?h = Some b \<and> minSTI c \<le> getSTI b" if j: "j \<in> set (attentionalFocus ?h)" for j
  proof -
    from j have ji: "j \<noteq> i" and jf: "j \<in> set (attentionalFocus g)" by (simp_all add: eff(3))
    from ok jf obtain b where b: "getAtom j g = Some b" "minSTI c \<le> getSTI b"
      by (auto simp: focus_ok_def)
    then have mem: "j \<in> set (atoms g)" and hb: "heap g j = Some b"
      by (auto simp: getAtom_def split: if_splits)
    from eff(4)[of j] hb obtain b' where b': "heap ?h j = Some b'" "same_shape b b'"
      by (auto simp: option_rel_Some1)
    have "getAtom j ?h = Some b'" using mem ji b' by (simp add: getAtom_def eff(2))
    moreover have "getSTI b' = getSTI b" using b'(2) by (simp add: same_shape_def getSTI_def)
    ultimately show ?thesis using b(2) by simp
  qed
  with len show ?thesis by (simp add: focus_ok_def)
qed

lemma applyForgetting_loop_focus:
  "focus_ok (config e) (atomSpace e) \<Longrightarrow>
   config (applyForgetting_loop is e) = config e \<and>
   focus_ok (config e) (atomSpace (applyForgetting_loop is e))"
proof (induction "is" arbitrary: e)
  case Nil
  then show ?case by simp
next
  case (Cons i "is")
  obtain r e1 where r: "Math_random e = (r, e1)" by (cases "Math_random e")
  then have e1: "config e1 = config e" "atomSpace e1 = atomSpace e"
    using Math_random_fields[of e] by simp_all
  show ?case
  proof (cases "r < 1/10")
    case True
    let ?e2 = "e1\<lparr>atomSpace := snd (removeAtom i (atomSpace e1))\<rparr>"
    have "focus_ok (config ?e2) (atomSpace ?e2)"
      using Cons.prems e1 by (simp add: focus_ok_removeAtom)
    from Cons.IH[OF this] show ?thesis using r True e1 by simp
  next
    case False
    have "focus_ok (config e1) (atomSpace e1)" using Cons.prems e1 by simp
    from Cons.IH[OF this] show ?thesis using r False e1 by simp
  qed
qed

lemma applyForgetting_focus:
  "focus_ok (config e) (atomSpace e) \<Longrightarrow>
   config (applyForgetting e) = config e \<and> focus_ok (config e) (atomSpace (applyForgetting e))"
  by (simp add: applyForgetting_def Let_def applyForgetting_loop_focus)

lemma updateStatistics_fields [simp]:
  "config (updateStatistics e) = config e" "atomSpace (updateStatistics e) = atomSpace e"
  by (simp_all add: updateStatistics_def Let_def)

lemma updateAttentionalFocus_focus_ok:
  assumes "set (attentionalFocus (atomSpace e)) \<subseteq> set (atoms (atomSpace e))"
    and "set (atoms (atomSpace e)) \<subseteq> dom (heap (atomSpace e))"
    and nonneg: "0 \<le> maxAF (config e)"
  shows "focus_ok (config e) (atomSpace (updateAttentionalFocus e))"
proof -
  note eff = updateAttentionalFocus_effect[OF assms(1,2)]
  have "\<exists>a. getAtom i (atomSpace (updateAttentionalFocus e)) = Some a \<and> minSTI (config e) \<le> getSTI a"
    if "i \<in> set (attentionalFocus (atomSpace (updateAttentionalFocus e)))" for i
  proof -
    from eff(5) that have i: "i \<in> set (atoms (atomSpace e))" "minSTI (config e) \<le> sti_of (atomSpace e) i"
      by auto
    with assms(2) obtain a where a: "heap (atomSpace e) i = Some a" by auto
    with i show ?thesis by (simp add: getAtom_def eff(2,3) sti_of_def)
  qed
  with eff(4) nonneg show ?thesis by (simp add: focus_ok_def)
qed

section \<open>C2: the focus after a cycle\<close>

lemma ecan_neg_fields:
  "config ecan_neg = \<lparr>maxAF = - 1, minSTI = - 1000, maxSTI = 1000, stimulusAmount = 10,
      decayRate = 1/100, spreadProbability = 1/10, totalSTI = 10000, totalLTI = 10000,
      rentAmount = 1, hebbianLearningRate = 1/10, diffusionRate = 2/10\<rparr>"
  "atomSpace ecan_neg = graph_ABL"
  by (simp_all add: ecan_neg_def new_ECAN_def ECAN_config_of_def no_options_def or_default_def)

lemma graph_ABL_sti:
  "sti_of graph_ABL ''u'' = 0" "sti_of graph_ABL ''uu'' = 0" "sti_of graph_ABL ''uuu'' = 0"
  by (simp_all add: sti_of_def graph_ABL_eval getSTI_def)

lemma runCycle_neg_focus:
  "attentionalFocus (atomSpace (runCycle ecan_neg)) = [''u'', ''uu'']"
proof -
  define e0 where "e0 = ecan_neg\<lparr>cycle := cycle ecan_neg + 1,
                     stats := (stats ecan_neg)\<lparr>cyclesRun := cyclesRun (stats ecan_neg) + 1\<rparr>\<rparr>"
  define e4 where "e4 = updateAttentionalFocus e0"
  have e0: "config e0 = config ecan_neg" "atomSpace e0 = graph_ABL"
    by (simp_all add: e0_def ecan_neg_fields)
  have focus0: "attentionalFocus graph_ABL = []" and atoms0: "atoms graph_ABL = [''u'', ''uu'', ''uuu'']"
    by (simp_all add: graph_ABL_eval)
  have rent: "collectRent e0 = e0"
    by (simp add: collectRent_def getAttentionalFocus_def e0 focus0)
  have step: "applySTIDecay_step i e0 = e0" if "i \<in> set [''u'', ''uu'', ''uuu'']" for i
    using that graph_ABL_sti
    by (auto simp add: applySTIDecay_step_def e0 sti_of_def Let_def split: option.splits)
  have decay: "applySTIDecay e0 = e0"
    by (simp add: applySTIDecay_def getAllAtoms_def e0 atoms0 step)
  have spread: "spreadImportance e0 = e0\<lparr>stats := (stats e0)\<lparr>importanceSpread := 0\<rparr>\<rparr>"
    by (simp add: spreadImportance_def getAttentionalFocus_def e0 focus0)
  have upd: "updateAttentionalFocus (e0\<lparr>stats := (stats e0)\<lparr>importanceSpread := 0\<rparr>\<rparr>)
               = (updateAttentionalFocus e0)\<lparr>stats := (stats e0)\<lparr>importanceSpread := 0\<rparr>\<rparr>"
    by (simp add: updateAttentionalFocus_def Let_def)
  have run: "runCycle ecan_neg
               = updateStatistics (applyForgetting (e4\<lparr>stats := (stats e0)\<lparr>importanceSpread := 0\<rparr>\<rparr>))"
  proof -
    have "runCycle ecan_neg = updateStatistics (applyForgetting (updateAttentionalFocus
            (spreadImportance (applySTIDecay (collectRent e0)))))"
      by (simp add: runCycle_def Let_def e0_def)
    then show ?thesis by (simp only: rent decay spread upd e4_def)
  qed
  have cfg: "minSTI (config e0) = - 1000" "maxAF (config e0) = - 1"
    by (simp_all add: e0 ecan_neg_fields)
  have g1: "fold (\<lambda>i h. snd (removeFromAttentionalFocus i h)) (getAttentionalFocus (atomSpace e0)) (atomSpace e0)
              = graph_ABL"
    by (simp add: getAttentionalFocus_def e0 focus0)
  have sorted: "slice_from_0 (- 1) (sort_key (\<lambda>i. - sti_of graph_ABL i)
                  (filter (\<lambda>i. - 1000 \<le> sti_of graph_ABL i) (atoms graph_ABL)))
                = [''u'', ''uu'']"
    by (simp add: atoms0 graph_ABL_sti slice_from_0_def js_truncate_def ceiling_minus)
  have f4: "attentionalFocus (atomSpace e4) = [''u'', ''uu'']"
    and a4: "atoms (atomSpace e4) = atoms graph_ABL"
    and h4: "heap (atomSpace e4) = heap graph_ABL"
    and c4: "config e4 = config e0"
    unfolding e4_def updateAttentionalFocus_def Let_def g1 cfg getAllAtoms_def sorted
    by (simp_all add: addToAttentionalFocus_def hasAtom_def atoms0 focus0 set_add_def)
  have "applyForgetting (e4\<lparr>stats := (stats e0)\<lparr>importanceSpread := 0\<rparr>\<rparr>)
          = e4\<lparr>stats := (stats e0)\<lparr>importanceSpread := 0\<rparr>\<rparr>"
    by (simp add: applyForgetting_def Let_def getAllAtoms_def a4 h4 c4 cfg atoms0 forgettable_def
        graph_ABL_eval getLTI_def getVLTI_def getSTI_def)
  then show ?thesis by (simp add: run f4)
qed

text \<open>
  C2 as stated, for every run of a cycle, fails for a negative \<open>maxAF\<close>, which the
  constructor accepts like any other non-zero number. With \<open>maxAF = -1\<close> on the graph of
  two nodes and their link, \<open>slice(0, -1)\<close> drops the last of the three sorted atoms and
  the cycle leaves two atoms in the focus: more than \<open>maxAF\<close>.
\<close>

theorem negative_maxAF_counterexample:
  "maxAF (config ecan_neg) = - 1
   \<and> set (attentionalFocus (atomSpace ecan_neg)) \<subseteq> set (atoms (atomSpace ecan_neg))
   \<and> set (atoms (atomSpace ecan_neg)) \<subseteq> dom (heap (atomSpace ecan_neg))
   \<and> attentionalFocus (atomSpace (runCycle ecan_neg)) = [''u'', ''uu'']
   \<and> \<not> real (length (attentionalFocus (atomSpace (runCycle ecan_neg)))) \<le> maxAF (config ecan_neg)"
  by (simp add: runCycle_neg_focus ecan_neg_fields graph_ABL_eval)

text \<open>
  C2, amended: when \<open>maxAF\<close> is not negative, after one ECAN cycle the focus holds at
  most \<open>maxAF\<close> identifiers, and each of them is an atom of the graph whose STI is at
  least \<open>minSTI\<close>. The cycle starts from a well-formed store: the focus holds identifiers
  of stored atoms only, and every key of the store has its atom object. The random draws
  and the rest of the configuration are arbitrary, and \<open>maxAF\<close> need not be whole.
\<close>

theorem focus_invariant_after_cycle:
  assumes "0 \<le> maxAF (config e)"
    and "set (attentionalFocus (atomSpace e)) \<subseteq> set (atoms (atomSpace e))"
    and "set (atoms (atomSpace e)) \<subseteq> dom (heap (atomSpace e))"
  shows "real (length (attentionalFocus (atomSpace (runCycle e)))) \<le> maxAF (config e)
       \<and> (\<forall>i\<in>set (attentionalFocus (atomSpace (runCycle e))).
             \<exists>a. getAtom i (atomSpace (runCycle e)) = Some a \<and> minSTI (config e) \<le> getSTI a)"
proof -
  define e0 where "e0 = e\<lparr>cycle := cycle e + 1, stats := (stats e)\<lparr>cyclesRun := cyclesRun (stats e) + 1\<rparr>\<rparr>"
  define e3 where "e3 = spreadImportance (applySTIDecay (collectRent e0))"
  define e4 where "e4 = updateAttentionalFocus e3"
  have run: "runCycle e = updateStatistics (applyForgetting e4)"
    by (simp add: runCycle_def Let_def e0_def e3_def e4_def)
  have "frame_kept e e0" by (simp add: e0_def frame_kept_def)
  then have "frame_kept e e3"
    unfolding e3_def
    by (blast intro: frame_kept_trans collectRent_frame applySTIDecay_frame spreadImportance_frame)
  then have c3: "config e3 = config e" and f3: "same_frame (atomSpace e) (atomSpace e3)"
    by (simp_all add: frame_kept_def)
  have live: "set (attentionalFocus (atomSpace e3)) \<subseteq> set (atoms (atomSpace e3))"
    and heap: "set (atoms (atomSpace e3)) \<subseteq> dom (heap (atomSpace e3))"
    using assms(2,3) f3 by (simp_all add: same_frame_def)
  have c4: "config e4 = config e"
    using updateAttentionalFocus_effect(1)[OF live heap] c3 by (simp add: e4_def)
  have "focus_ok (config e4) (atomSpace e4)"
    using updateAttentionalFocus_focus_ok[OF live heap] assms(1) c3 c4 by (simp add: e4_def)
  from applyForgetting_focus[OF this] have "focus_ok (config e) (atomSpace (runCycle e))"
    by (simp add: run c4)
  then show ?thesis by (simp add: focus_ok_def)
qed

lemma graph_5_eval:
  "graph_5 = \<lparr>heap = [''u'' \<mapsto> node_sti ''n1'' 0, ''uu'' \<mapsto> node_sti ''n2'' 0, ''uuu'' \<mapsto> node_sti ''n3'' 0,
                      ''uuuu'' \<mapsto> node_sti ''n4'' 0, ''uuuuu'' \<mapsto> node_sti ''n5'' 0],
     uuids = (\<lambda>n. replicate (Suc (Suc (Suc (Suc (Suc (Suc n)))))) CHR ''u''),
     atoms = [''u'', ''uu'', ''uuu'', ''uuuu'', ''uuuuu''],
     typeIndex = [''ConceptNode'' \<mapsto> [''u'', ''uu'', ''uuu'', ''uuuu'', ''uuuuu'']],
     nameIndex = [''n1'' \<mapsto> [''u''], ''n2'' \<mapsto> [''uu''], ''n3'' \<mapsto> [''uuu''], ''n4'' \<mapsto> [''uuuu''], ''n5'' \<mapsto> [''uuuuu'']],
     incomingIndex = Map.empty, attentionalFocus = [], asize = 5\<rparr>"
  by (simp add: graph_5_def eval_defs node_sti_def)

lemma ecan_S2_fields:
  "config ecan_S2 = \<lparr>maxAF = 3, minSTI = - 1000, maxSTI = 1000, stimulusAmount = 10,
      decayRate = 1/100, spreadProbability = 1/10, totalSTI = 10000, totalLTI = 10000,
      rentAmount = 1, hebbianLearningRate = 1/10, diffusionRate = 2/10\<rparr>"
  "atoms (atomSpace ecan_S2) = [''u'', ''uu'', ''uuu'', ''uuuu'', ''uuuuu'']"
  "attentionalFocus (atomSpace ecan_S2) = []"
  "heap (atomSpace ecan_S2) = [''u'' \<mapsto> node_sti ''n1'' 10, ''uu'' \<mapsto> node_sti ''n2'' 20, ''uuu'' \<mapsto> node_sti ''n3'' 30,
                      ''uuuu'' \<mapsto> node_sti ''n4'' 40, ''uuuuu'' \<mapsto> node_sti ''n5'' 50]"
  "randoms ecan_S2 = sample_randoms"
  by (simp_all add: ecan_S2_def stimulateAtom_def new_ECAN_def ECAN_config_of_def no_options_def
       or_default_def graph_5_eval getAtom_def Let_def mutate_def getSTI_def setSTI_def node_sti_def fun_eq_iff)

text \<open>Scenario S2, phase by phase: the focus is empty at the start, so rent and spreading are idle.\<close>

lemma S2_phases_1_to_3:
  fixes e0 :: ECAN
  defines "e0 \<equiv> ecan_S2\<lparr>cycle := cycle ecan_S2 + 1,
                     stats := (stats ecan_S2)\<lparr>cyclesRun := cyclesRun (stats ecan_S2) + 1\<rparr>\<rparr>"
  defines "e3 \<equiv> spreadImportance (applySTIDecay (collectRent e0))"
  shows "config e3 = config ecan_S2"
    and "atoms (atomSpace e3) = [''u'', ''uu'', ''uuu'', ''uuuu'', ''uuuuu'']"
    and "attentionalFocus (atomSpace e3) = []"
    and "heap (atomSpace e3) ''u'' = Some (node_sti ''n1'' (99/10))"
        "heap (atomSpace e3) ''uu'' = Some (node_sti ''n2'' (198/10))"
        "heap (atomSpace e3) ''uuu'' = Some (node_sti ''n3'' (297/10))"
        "heap (atomSpace e3) ''uuuu'' = Some (node_sti ''n4'' (396/10))"
        "heap (atomSpace e3) ''uuuuu'' = Some (node_sti ''n5'' (495/10))"
proof -
  have e0: "config e0 = config ecan_S2" "atomSpace e0 = atomSpace ecan_S2"
    by (simp_all add: e0_def)
  have rent: "collectRent e0 = e0"
    by (simp add: collectRent_def getAttentionalFocus_def e0 ecan_S2_fields)
  define e2 where "e2 = applySTIDecay e0"
  have d: "distinct (atoms (atomSpace e0))" by (simp add: e0 ecan_S2_fields)
  note dec = applySTIDecay_fields[OF d, folded e2_def]
  have c2: "config e2 = config ecan_S2" and a2: "atoms (atomSpace e2) = [''u'', ''uu'', ''uuu'', ''uuuu'', ''uuuuu'']"
    and f2: "attentionalFocus (atomSpace e2) = []"
    using dec(1,2,3) by (simp_all add: e0 ecan_S2_fields)
  note h2 = dec(4)
  have e3: "e3 = e2\<lparr>stats := (stats e2)\<lparr>importanceSpread := 0\<rparr>\<rparr>"
    by (simp add: e3_def rent e2_def[symmetric] spreadImportance_def getAttentionalFocus_def f2)
  show "config e3 = config ecan_S2" by (simp add: e3 c2)
  show "atoms (atomSpace e3) = [''u'', ''uu'', ''uuu'', ''uuuu'', ''uuuuu'']" by (simp add: e3 a2)
  show "attentionalFocus (atomSpace e3) = []" by (simp add: e3 f2)
  show "heap (atomSpace e3) ''u'' = Some (node_sti ''n1'' (99/10))"
        "heap (atomSpace e3) ''uu'' = Some (node_sti ''n2'' (198/10))"
        "heap (atomSpace e3) ''uuu'' = Some (node_sti ''n3'' (297/10))"
        "heap (atomSpace e3) ''uuuu'' = Some (node_sti ''n4'' (396/10))"
        "heap (atomSpace e3) ''uuuuu'' = Some (node_sti ''n5'' (495/10))"
    by (simp_all add: e3 h2 e0 ecan_S2_fields decay_atom_def node_sti_def getSTI_def setSTI_def)
qed

lemma runCycle_S2_focus:
  "attentionalFocus (atomSpace (runCycle ecan_S2)) = [''uuuuu'', ''uuuu'', ''uuu'']"
proof -
  define e0 where "e0 = ecan_S2\<lparr>cycle := cycle ecan_S2 + 1,
                     stats := (stats ecan_S2)\<lparr>cyclesRun := cyclesRun (stats ecan_S2) + 1\<rparr>\<rparr>"
  define e3 where "e3 = spreadImportance (applySTIDecay (collectRent e0))"
  define e4 where "e4 = updateAttentionalFocus e3"
  note p = S2_phases_1_to_3[folded e0_def, folded e3_def]
  have run: "runCycle ecan_S2 = updateStatistics (applyForgetting e4)"
    by (simp add: runCycle_def Let_def e0_def e3_def e4_def)
  have sti: "sti_of (atomSpace e3) ''u'' = 99/10" "sti_of (atomSpace e3) ''uu'' = 198/10"
        "sti_of (atomSpace e3) ''uuu'' = 297/10" "sti_of (atomSpace e3) ''uuuu'' = 396/10"
        "sti_of (atomSpace e3) ''uuuuu'' = 495/10"
    by (simp_all add: sti_of_def p node_sti_def getSTI_def)
  have cfg: "minSTI (config e3) = - 1000" "maxAF (config e3) = 3"
    by (simp_all add: p ecan_S2_fields)
  have g1: "fold (\<lambda>i h. snd (removeFromAttentionalFocus i h)) (getAttentionalFocus (atomSpace e3)) (atomSpace e3)
              = atomSpace e3"
    by (simp add: getAttentionalFocus_def p)
  have sorted: "slice_from_0 3 (sort_key (\<lambda>i. - sti_of (atomSpace e3) i)
                  (filter (\<lambda>i. - 1000 \<le> sti_of (atomSpace e3) i) (atoms (atomSpace e3))))
                = [''uuuuu'', ''uuuu'', ''uuu'']"
    by (simp add: p(2) sti slice_from_0_nonneg)
  have f4: "attentionalFocus (atomSpace e4) = [''uuuuu'', ''uuuu'', ''uuu'']"
    and a4: "atoms (atomSpace e4) = atoms (atomSpace e3)"
    and h4: "heap (atomSpace e4) = heap (atomSpace e3)"
    and c4: "config e4 = config e3"
    unfolding e4_def updateAttentionalFocus_def Let_def g1 cfg getAllAtoms_def sorted
    by (simp_all add: addToAttentionalFocus_def hasAtom_def p(2,3) set_add_def)
  have "applyForgetting e4 = e4"
    by (simp add: applyForgetting_def Let_def getAllAtoms_def a4 h4 c4 p forgettable_def
        node_sti_def getLTI_def getVLTI_def getSTI_def ecan_S2_fields)
  then show ?thesis by (simp add: run f4)
qed

text \<open>
  The amended C2 at scenario S2: \<open>maxAF = 3\<close>, five concept nodes stimulated by 10, 20,
  30, 40 and 50. After one cycle the focus is the three atoms of highest STI.
\<close>

theorem focus_invariant_after_cycle_witness:
  "0 \<le> maxAF (config ecan_S2)
   \<and> set (attentionalFocus (atomSpace ecan_S2)) \<subseteq> set (atoms (atomSpace ecan_S2))
   \<and> set (atoms (atomSpace ecan_S2)) \<subseteq> dom (heap (atomSpace ecan_S2))
   \<and> maxAF (config ecan_S2) = 3
   \<and> attentionalFocus (atomSpace (runCycle ecan_S2)) = [''uuuuu'', ''uuuu'', ''uuu'']
   \<and> real (length (attentionalFocus (atomSpace (runCycle ecan_S2)))) \<le> maxAF (config ecan_S2)
   \<and> list_all (\<lambda>i. \<exists>a. getAtom i (atomSpace (runCycle ecan_S2)) = Some a
                          \<and> minSTI (config ecan_S2) \<le> getSTI a)
        (attentionalFocus (atomSpace (runCycle ecan_S2)))"
proof -
  have h0: "0 \<le> maxAF (config ecan_S2)" by (simp add: ecan_S2_fields)
  have h1: "set (attentionalFocus (atomSpace ecan_S2)) \<subseteq> set (atoms (atomSpace ecan_S2))"
    by (simp add: ecan_S2_fields)
  have h2: "set (atoms (atomSpace ecan_S2)) \<subseteq> dom (heap (atomSpace ecan_S2))"
    by (simp add: ecan_S2_fields)
  have m: "maxAF (config ecan_S2) = 3" by (simp add: ecan_S2_fields)
  from focus_invariant_after_cycle[OF h0 h1 h2] have
    "real (length (attentionalFocus (atomSpace (runCycle ecan_S2)))) \<le> maxAF (config ecan_S2)"
    "list_all (\<lambda>i. \<exists>a. getAtom i (atomSpace (runCycle ecan_S2)) = Some a
                          \<and> minSTI (config ecan_S2) \<le> getSTI a)
        (attentionalFocus (atomSpace (runCycle ecan_S2)))"
    by (simp_all add: list_all_iff)
  with h0 h1 h2 m runCycle_S2_focus show ?thesis by blast
qed

section \<open>Well-formed stores\<close>

lemma dom_heap_same_shape:
  "(\<And>j. rel_option same_shape (heap g j) (heap h j)) \<Longrightarrow> dom (heap h) = dom (heap g)"
proof -
  assume r: "\<And>j. rel_option same_shape (heap g j) (heap h j)"
  have "(heap h j = None) = (heap g j = None)" for j
    using r[of j] by (cases "heap g j"; cases "heap h j") simp_all
  then show ?thesis by (auto simp: dom_def)
qed

lemma store_ok_new: "store_ok (new_AtomSpace u)"
  by (simp add: store_ok_def new_AtomSpace_def)

lemma store_ok_mutate: "store_ok g \<Longrightarrow> store_ok (mutate k f g)"
  using same_frame_mutate[of g k f] by (simp add: store_ok_def same_frame_def)

lemma store_ok_frame: "same_frame g h \<Longrightarrow> store_ok g \<Longrightarrow> store_ok h"
  by (simp add: store_ok_def same_frame_def)

text \<open>A new atom has STI 0, so \<open>addLink\<close> keeps the bounds when they enclose 0.\<close>

lemma addAtom_store:
  "set (atoms (snd (addAtom i g))) \<subseteq> insert i (set (atoms g))"
  "rel_option same_shape (heap g j) (heap (snd (addAtom i g)) j)"
  by (auto simp add: addAtom_def Let_def heap_fold_wire_eq split: option.splits)

lemma store_ok_addAtom: "store_ok g \<Longrightarrow> store_ok (snd (addAtom i g))"
proof -
  assume ok: "store_ok g"
  have d: "dom (heap (snd (addAtom i g))) = dom (heap g)"
    by (rule dom_heap_same_shape) (rule addAtom_store(2))
  have f: "attentionalFocus (snd (addAtom i g)) = attentionalFocus g"
    by (simp add: addAtom_def Let_def split: option.splits)
  have a: "set (atoms g) \<subseteq> set (atoms (snd (addAtom i g)))"
    by (auto simp add: addAtom_def Let_def split: option.splits)
  have a': "set (atoms (snd (addAtom i g))) \<subseteq> dom (heap g)"
    using ok by (auto simp add: addAtom_def Let_def store_ok_def split: option.splits)
  have dist: "distinct (atoms (snd (addAtom i g)))"
    using ok by (auto simp add: addAtom_def Let_def store_ok_def split: option.splits)
  show ?thesis using ok a a' dist by (auto simp: store_ok_def d f)
qed

lemma store_ok_new_Atom: "store_ok g \<Longrightarrow> store_ok (snd (new_Atom ty nm out tvo g))"
  by (auto simp: store_ok_def new_Atom_def Let_def)

lemma store_ok_addNode: "store_ok g \<Longrightarrow> store_ok (snd (addNode ty nm tvo g))"
  by (auto simp: addNode_def split_beta store_ok_mutate store_ok_addAtom store_ok_new_Atom
      split: option.splits)

lemma store_ok_addLink: "store_ok g \<Longrightarrow> store_ok (snd (addLink ty out tvo g))"
  by (auto simp: addLink_def split_beta store_ok_mutate store_ok_addAtom store_ok_new_Atom
      split: option.splits)

lemma store_ok_removeAtom: "store_ok g \<Longrightarrow> store_ok (snd (removeAtom i g))"
proof (cases "getAtom i g")
  case None
  assume "store_ok g"
  with None show ?thesis by (simp add: removeAtom_missing)
next
  case (Some a)
  assume ok: "store_ok g"
  note eff = removeAtom_effect[OF Some]
  have d: "dom (heap (snd (removeAtom i g))) = dom (heap g)"
    by (rule dom_heap_same_shape) (rule eff(4))
  show ?thesis using ok by (auto simp: store_ok_def d eff(2,3) distinct_removeAll)
qed

lemma store_ok_focus_ops:
  "store_ok g \<Longrightarrow> store_ok (snd (addToAttentionalFocus i g))"
  "store_ok g \<Longrightarrow> store_ok (snd (removeFromAttentionalFocus i g))"
  by (auto simp: store_ok_def addToAttentionalFocus_def removeFromAttentionalFocus_def hasAtom_def
      set_add_def set_delete_def)

lemma store_ok_stimulateAtom:
  "store_ok (atomSpace e) \<Longrightarrow> store_ok (atomSpace (snd (stimulateAtom i amount e)))"
  by (auto simp: stimulateAtom_def Let_def store_ok_mutate split: option.splits)

lemma applyForgetting_loop_store_ok:
  "store_ok (atomSpace e) \<Longrightarrow> store_ok (atomSpace (applyForgetting_loop is e))"
proof (induction "is" arbitrary: e)
  case Nil
  then show ?case by simp
next
  case (Cons i "is")
  obtain r e1 where r: "Math_random e = (r, e1)" by (cases "Math_random e")
  then have e1: "atomSpace e1 = atomSpace e" using Math_random_fields[of e] by simp
  show ?case
  proof (cases "r < 1/10")
    case True
    have "store_ok (atomSpace (e1\<lparr>atomSpace := snd (removeAtom i (atomSpace e1))\<rparr>))"
      using Cons.prems e1 by (simp add: store_ok_removeAtom)
    from Cons.IH[OF this] show ?thesis using r True by simp
  next
    case False
    have "store_ok (atomSpace e1)" using Cons.prems e1 by simp
    from Cons.IH[OF this] show ?thesis using r False by simp
  qed
qed

lemma store_ok_runCycle:
  assumes "store_ok (atomSpace e)"
  shows "store_ok (atomSpace (runCycle e))"
proof -
  define e0 where "e0 = e\<lparr>cycle := cycle e + 1, stats := (stats e)\<lparr>cyclesRun := cyclesRun (stats e) + 1\<rparr>\<rparr>"
  define e3 where "e3 = spreadImportance (applySTIDecay (collectRent e0))"
  define e4 where "e4 = updateAttentionalFocus e3"
  have run: "runCycle e = updateStatistics (applyForgetting e4)"
    by (simp add: runCycle_def Let_def e0_def e3_def e4_def)
  have "frame_kept e e0" by (simp add: e0_def frame_kept_def)
  then have "frame_kept e e3"
    unfolding e3_def
    by (blast intro: frame_kept_trans collectRent_frame applySTIDecay_frame spreadImportance_frame)
  then have ok3: "store_ok (atomSpace e3)"
    using assms by (auto simp: frame_kept_def intro: store_ok_frame)
  then have live: "set (attentionalFocus (atomSpace e3)) \<subseteq> set (atoms (atomSpace e3))"
    and heap: "set (atoms (atomSpace e3)) \<subseteq> dom (heap (atomSpace e3))"
    and dist: "distinct (atoms (atomSpace e3))"
    by (simp_all add: store_ok_def)
  note eff = updateAttentionalFocus_effect[OF live heap]
  have "store_ok (atomSpace e4)"
    using eff(5) heap dist by (auto simp: store_ok_def e4_def eff(2,3))
  then have "store_ok (atomSpace (applyForgetting e4))"
    by (simp add: applyForgetting_def Let_def applyForgetting_loop_store_ok)
  then show ?thesis by (simp add: run)
qed

section \<open>C6: the bounds of the STI\<close>

lemma bounds_kept_refl [simp]: "bounds_kept e e"
  by (simp add: bounds_kept_def)

lemma bounds_kept_trans: "bounds_kept e e1 \<Longrightarrow> bounds_kept e1 e2 \<Longrightarrow> bounds_kept e e2"
  by (auto simp: bounds_kept_def)

lemma fold_bounds_kept:
  "(\<And>i e. P (config e) \<Longrightarrow> bounds_kept e (step i e)) \<Longrightarrow> P (config e) \<Longrightarrow>
   bounds_kept e (fold step is e)"
proof (induction "is" arbitrary: e)
  case Nil
  then show ?case by simp
next
  case (Cons i "is")
  have 1: "bounds_kept e (step i e)" using Cons.prems by blast
  then have "P (config (step i e))" using Cons.prems(2) by (simp add: bounds_kept_def)
  then have "bounds_kept (step i e) (fold step is (step i e))"
    using Cons.IH Cons.prems(1) by blast
  with 1 show ?case by (auto intro: bounds_kept_trans)
qed

text \<open>Writing an STI that is within the bounds keeps the bounds.\<close>

lemma sti_in_bounds_mutate:
  assumes "sti_in_bounds c g"
    and "\<And>a. k \<in> set (atoms g) \<Longrightarrow> heap g k = Some a \<Longrightarrow>
              minSTI c \<le> getSTI a \<Longrightarrow> getSTI a \<le> maxSTI c \<Longrightarrow>
              minSTI c \<le> getSTI (f a) \<and> getSTI (f a) \<le> maxSTI c"
  shows "sti_in_bounds c (mutate k f g)"
  unfolding sti_in_bounds_def
proof (intro ballI allI impI)
  fix i a assume i: "i \<in> set (atoms (mutate k f g))" and a: "heap (mutate k f g) i = Some a"
  from i have mem: "i \<in> set (atoms g)" by simp
  show "minSTI c \<le> getSTI a \<and> getSTI a \<le> maxSTI c"
  proof (cases "i = k")
    case True
    with a obtain b where b: "heap g k = Some b" "a = f b"
      by (auto simp: mutate_def)
    with assms(1) mem True have "minSTI c \<le> getSTI b \<and> getSTI b \<le> maxSTI c"
      by (auto simp: sti_in_bounds_def)
    with assms(2)[of b] mem True b show ?thesis by simp
  next
    case False
    with a have "heap g i = Some a" by (simp add: mutate_def)
    with assms(1) mem show ?thesis by (auto simp: sti_in_bounds_def)
  qed
qed

lemma getSTI_setSTI [simp]: "getSTI (setSTI v a) = v"
  by (simp add: getSTI_def setSTI_def)

lemma collectRent_step_bounds: "sane_config (config e) \<Longrightarrow> bounds_kept e (collectRent_step i e)"
  unfolding bounds_kept_def
  by (auto simp add: collectRent_step_def sane_config_def intro!: sti_in_bounds_mutate)

lemma collectRent_bounds: "sane_config (config e) \<Longrightarrow> bounds_kept e (collectRent e)"
  unfolding collectRent_def
  by (rule fold_bounds_kept[where P = sane_config]) (simp_all add: collectRent_step_bounds)

lemma decay_le:
  fixes s d hi :: real
  assumes "0 < s" "s \<le> hi" "0 \<le> d"
  shows "s - s * d \<le> hi"
proof -
  have "0 \<le> s * d" using assms by simp
  with assms show ?thesis by linarith
qed

lemma applySTIDecay_step_bounds:
  "sane_config (config e) \<Longrightarrow> bounds_kept e (applySTIDecay_step i e)"
  unfolding bounds_kept_def
  by (auto simp add: applySTIDecay_step_def Let_def sane_config_def decay_le
      split: option.splits intro!: sti_in_bounds_mutate)

lemma applySTIDecay_bounds: "sane_config (config e) \<Longrightarrow> bounds_kept e (applySTIDecay e)"
  unfolding applySTIDecay_def
  by (rule fold_bounds_kept[where P = sane_config]) (simp_all add: applySTIDecay_step_bounds)

lemma stimulateAtom_bounds:
  assumes "sane_config (config e)" "0 \<le> or_default amount (stimulusAmount (config e))"
  shows "bounds_kept e (snd (stimulateAtom i amount e))"
proof (cases "getAtom i (atomSpace e)")
  case None
  then show ?thesis by (simp add: stimulateAtom_def)
next
  case (Some a)
  then have h: "heap (atomSpace e) i = Some a" by (simp add: getAtom_def split: if_splits)
  show ?thesis
    unfolding bounds_kept_def
    using Some assms h
    by (auto simp add: stimulateAtom_def Let_def sane_config_def intro!: sti_in_bounds_mutate)
qed

lemma spread_receiver_in_bounds:
  fixes s apa lo hi :: real
  assumes "lo \<le> s" "s \<le> hi" "0 \<le> apa" "lo \<le> 0" "0 \<le> hi"
  shows "lo \<le> min (s + apa) hi \<and> min (s + apa) hi \<le> hi"
  using assms by simp

lemma spread_source_in_bounds:
  fixes s r t lo hi :: real
  assumes "1 \<le> s * r" "0 \<le> r" "r \<le> 1" "lo \<le> 0" "s \<le> hi" "0 \<le> t" "t \<le> s * r"
  shows "lo \<le> s - t \<and> s - t \<le> hi"
proof -
  have s0: "0 \<le> s"
  proof (rule ccontr)
    assume "\<not> 0 \<le> s"
    then have "s * r \<le> 0" using assms(2) by (simp add: mult_nonpos_nonneg)
    with assms(1) show False by simp
  qed
  have "0 \<le> s * (1 - r)" using s0 assms(3) by simp
  then have "s * r \<le> s" by (simp add: algebra_simps)
  with assms show ?thesis by linarith
qed

lemma spread_loop_bounds:
  assumes "sane_config (config e)" "0 \<le> apa"
  shows "bounds_kept e (snd (spread_loop apa cs t e))
       \<and> t \<le> fst (spread_loop apa cs t e)
       \<and> fst (spread_loop apa cs t e) \<le> t + apa * real (length cs)"
  using assms
proof (induction apa cs t e rule: spread_loop.induct)
  case (1 apa t e)
  then show ?case by simp
next
  case (2 apa c cs t e)
  obtain r e1 where r: "Math_random e = (r, e1)" by (cases "Math_random e")
  then have e1: "config e1 = config e" "atomSpace e1 = atomSpace e"
    using Math_random_fields[of e] by simp_all
  have sane1: "sane_config (config e1)" using "2.prems" e1 by simp
  show ?case
  proof (cases "r < spreadProbability (config e1)")
    case True
    let ?e2 = "e1\<lparr>atomSpace := mutate c (\<lambda>a. setSTI (min (getSTI a + apa) (maxSTI (config e1))) a) (atomSpace e1)\<rparr>"
    have k: "bounds_kept e ?e2"
      unfolding bounds_kept_def
      using e1 "2.prems" spread_receiver_in_bounds
      by (auto simp add: sane_config_def intro!: sti_in_bounds_mutate)
    have sane2: "sane_config (config ?e2)" using sane1 by simp
    note ih = "2.IH"(1)[OF r[symmetric] refl True sane2 "2.prems"(2)]
    have "apa * real (length cs) + apa = apa * real (length (c # cs))"
      by (simp add: algebra_simps)
    with ih k "2.prems"(2) show ?thesis
      using r True by (auto simp: algebra_simps intro: bounds_kept_trans)
  next
    case False
    have k: "bounds_kept e e1" using e1 by (simp add: bounds_kept_def)
    note ih = "2.IH"(2)[OF r[symmetric] refl False sane1 "2.prems"(2)]
    have "0 \<le> apa * real (length cs)" using "2.prems"(2) by simp
    with ih k show ?thesis
      using r False "2.prems"(2) by (auto simp: algebra_simps intro: bounds_kept_trans)
  qed
qed

lemma spreadFromAtom_bounds:
  assumes sane: "sane_config (config e)"
  shows "bounds_kept e (snd (spreadFromAtom i e))"
proof (cases "heap (atomSpace e) i")
  case None
  then show ?thesis by (simp add: spreadFromAtom_def)
next
  case (Some atom)
  define cur where "cur = getSTI atom"
  define sa where "sa = cur * diffusionRate (config e)"
  define conn where "conn =
     (if isLink atom then fold set_add (outgoing atom) (fold set_add (getIncoming i (atomSpace e)) [])
      else fold set_add (getIncoming i (atomSpace e)) [])"
  show ?thesis
  proof (cases "sa < 1 \<or> length conn = 0")
    case True
    then show ?thesis
      using Some by (auto simp add: spreadFromAtom_def Let_def cur_def sa_def conn_def)
  next
    case False
    then have sa1: "1 \<le> sa" and n0: "0 < length conn" by simp_all
    define apa where "apa = sa / real (length conn)"
    have apa0: "0 \<le> apa" using sa1 by (simp add: apa_def)
    have apan: "apa * real (length conn) = sa" using n0 by (simp add: apa_def)
    define total where "total = fst (spread_loop apa conn 0 e)"
    define e1 where "e1 = snd (spread_loop apa conn 0 e)"
    have res: "snd (spreadFromAtom i e) = e1\<lparr>atomSpace := mutate i (setSTI (cur - total)) (atomSpace e1)\<rparr>"
      using Some False
      by (simp add: spreadFromAtom_def Let_def split_beta cur_def sa_def conn_def apa_def total_def e1_def)
    from spread_loop_bounds[OF sane apa0, of conn 0] have
      k1: "bounds_kept e e1" and t0: "0 \<le> total" and t1: "total \<le> sa"
      by (simp_all add: e1_def total_def apan)
    have fr: "frame_kept e e1" unfolding e1_def by (rule spread_loop_frame)
    then have at: "atoms (atomSpace e1) = atoms (atomSpace e)" and c1: "config e1 = config e"
      by (simp_all add: frame_kept_def same_frame_def)
    show ?thesis
      unfolding bounds_kept_def res
    proof (intro conjI impI)
      show "config (e1\<lparr>atomSpace := mutate i (setSTI (cur - total)) (atomSpace e1)\<rparr>) = config e"
        by (simp add: c1)
      assume inv: "sti_in_bounds (config e) (atomSpace e)"
      with k1 have inv1: "sti_in_bounds (config e) (atomSpace e1)" by (simp add: bounds_kept_def)
      have "sti_in_bounds (config e) (mutate i (setSTI (cur - total)) (atomSpace e1))"
      proof (rule sti_in_bounds_mutate[OF inv1])
        fix a assume "i \<in> set (atoms (atomSpace e1))"
        then have "i \<in> set (atoms (atomSpace e))" by (simp add: at)
        with inv Some have cb: "minSTI (config e) \<le> cur" "cur \<le> maxSTI (config e)"
          by (auto simp: sti_in_bounds_def cur_def)
        have "minSTI (config e) \<le> cur - total \<and> cur - total \<le> maxSTI (config e)"
          using sane sa1 t0 t1 cb
          by (intro spread_source_in_bounds[where r = "diffusionRate (config e)"])
             (simp_all add: sane_config_def sa_def)
        then show "minSTI (config e) \<le> getSTI (setSTI (cur - total) a)
                 \<and> getSTI (setSTI (cur - total) a) \<le> maxSTI (config e)"
          by simp
      qed
      then show "sti_in_bounds (config e)
                   (atomSpace (e1\<lparr>atomSpace := mutate i (setSTI (cur - total)) (atomSpace e1)\<rparr>))"
        by simp
    qed
  qed
qed

lemma spreadImportance_loop_bounds:
  "sane_config (config e) \<Longrightarrow> bounds_kept e (snd (spreadImportance_loop is t e))"
proof (induction "is" arbitrary: t e)
  case Nil
  then show ?case by simp
next
  case (Cons i "is")
  show ?case
  proof (cases "heap (atomSpace e) i")
    case None
    then show ?thesis using Cons by simp
  next
    case (Some a)
    show ?thesis
    proof (cases "getSTI a > minSTI (config e) * 2")
      case True
      have k: "bounds_kept e (snd (spreadFromAtom i e))"
        using Cons.prems by (rule spreadFromAtom_bounds)
      then have "sane_config (config (snd (spreadFromAtom i e)))"
        using Cons.prems by (simp add: bounds_kept_def)
      from Cons.IH[OF this] k show ?thesis using Some True
        by (auto simp: split_beta intro: bounds_kept_trans)
    next
      case False
      then show ?thesis using Some Cons by simp
    qed
  qed
qed

lemma spreadImportance_bounds: "sane_config (config e) \<Longrightarrow> bounds_kept e (spreadImportance e)"
  using spreadImportance_loop_bounds[of e "getAttentionalFocus (atomSpace e)" 0]
  by (simp add: spreadImportance_def split_beta bounds_kept_def)

lemma updateAttentionalFocus_store:
  "config (updateAttentionalFocus e) = config e"
  "atoms (atomSpace (updateAttentionalFocus e)) = atoms (atomSpace e)"
  "heap (atomSpace (updateAttentionalFocus e)) = heap (atomSpace e)"
  by (simp_all add: updateAttentionalFocus_def Let_def clear_step_def[symmetric] fill_step_def[symmetric]
      fold_fill_atoms fold_fill_heap fold_clear_atoms fold_clear_heap)

lemma updateAttentionalFocus_bounds: "bounds_kept e (updateAttentionalFocus e)"
  by (simp add: bounds_kept_def sti_in_bounds_def updateAttentionalFocus_store)

lemma sti_in_bounds_removeAtom: "sti_in_bounds c g \<Longrightarrow> sti_in_bounds c (snd (removeAtom i g))"
proof (cases "getAtom i g")
  case None
  assume "sti_in_bounds c g"
  with None show ?thesis by (simp add: removeAtom_missing)
next
  case (Some a)
  assume inv: "sti_in_bounds c g"
  note eff = removeAtom_effect[OF Some]
  show ?thesis
    unfolding sti_in_bounds_def
  proof (intro ballI allI impI)
    fix j b assume j: "j \<in> set (atoms (snd (removeAtom i g)))"
      and b: "heap (snd (removeAtom i g)) j = Some b"
    from j have mem: "j \<in> set (atoms g)" by (simp add: eff(2))
    from eff(4)[of j] b obtain b0 where b0: "heap g j = Some b0" "same_shape b0 b"
      by (auto simp: option_rel_Some2)
    with inv mem have "minSTI c \<le> getSTI b0 \<and> getSTI b0 \<le> maxSTI c"
      by (auto simp: sti_in_bounds_def)
    moreover have "getSTI b = getSTI b0" using b0(2) by (simp add: same_shape_def getSTI_def)
    ultimately show "minSTI c \<le> getSTI b \<and> getSTI b \<le> maxSTI c" by simp
  qed
qed

lemma applyForgetting_loop_bounds: "bounds_kept e (applyForgetting_loop is e)"
proof (induction "is" arbitrary: e)
  case Nil
  then show ?case by simp
next
  case (Cons i "is")
  obtain r e1 where r: "Math_random e = (r, e1)" by (cases "Math_random e")
  then have e1: "config e1 = config e" "atomSpace e1 = atomSpace e"
    using Math_random_fields[of e] by simp_all
  show ?case
  proof (cases "r < 1/10")
    case True
    let ?e2 = "e1\<lparr>atomSpace := snd (removeAtom i (atomSpace e1))\<rparr>"
    have "bounds_kept e ?e2"
      using e1 by (simp add: bounds_kept_def sti_in_bounds_removeAtom)
    with Cons.IH[of ?e2] show ?thesis using r True by (auto intro: bounds_kept_trans)
  next
    case False
    have "bounds_kept e e1" using e1 by (simp add: bounds_kept_def)
    with Cons.IH[of e1] show ?thesis using r False by (auto intro: bounds_kept_trans)
  qed
qed

lemma applyForgetting_bounds: "bounds_kept e (applyForgetting e)"
  by (simp add: applyForgetting_def Let_def applyForgetting_loop_bounds)

lemma updateStatistics_bounds: "bounds_kept e (updateStatistics e)"
  by (simp add: bounds_kept_def)

lemma runCycle_bounds:
  assumes "sane_config (config e)"
  shows "bounds_kept e (runCycle e)"
proof -
  define e0 where "e0 = e\<lparr>cycle := cycle e + 1, stats := (stats e)\<lparr>cyclesRun := cyclesRun (stats e) + 1\<rparr>\<rparr>"
  define e1 where "e1 = collectRent e0"
  define e2 where "e2 = applySTIDecay e1"
  define e3 where "e3 = spreadImportance e2"
  define e4 where "e4 = updateAttentionalFocus e3"
  define e5 where "e5 = applyForgetting e4"
  have run: "runCycle e = updateStatistics e5"
    by (simp add: runCycle_def Let_def e0_def e1_def e2_def e3_def e4_def e5_def)
  have k0: "bounds_kept e e0" by (simp add: e0_def bounds_kept_def)
  then have s0: "sane_config (config e0)" using assms by (simp add: bounds_kept_def)
  have k1: "bounds_kept e0 e1" unfolding e1_def using s0 by (rule collectRent_bounds)
  then have s1: "sane_config (config e1)" using s0 by (simp add: bounds_kept_def)
  have k2: "bounds_kept e1 e2" unfolding e2_def using s1 by (rule applySTIDecay_bounds)
  then have s2: "sane_config (config e2)" using s1 by (simp add: bounds_kept_def)
  have k3: "bounds_kept e2 e3" unfolding e3_def using s2 by (rule spreadImportance_bounds)
  have k4: "bounds_kept e3 e4" unfolding e4_def by (rule updateAttentionalFocus_bounds)
  have k5: "bounds_kept e4 e5" unfolding e5_def by (rule applyForgetting_bounds)
  have k6: "bounds_kept e5 (updateStatistics e5)" by (rule updateStatistics_bounds)
  show ?thesis
    unfolding run using k0 k1 k2 k3 k4 k5 k6 by (blast intro: bounds_kept_trans)
qed

lemma sti_in_bounds_addLink:
  assumes "minSTI c \<le> 0" "0 \<le> maxSTI c" "sti_in_bounds c g"
  shows "sti_in_bounds c (snd (addLink ty out tvo g))"
proof (cases "getLinkByOutgoing ty out g")
  case (Some existing)
  have "sti_in_bounds c (mutate existing (setTruthValue t) g)" for t
    using assms(3) by (rule sti_in_bounds_mutate) (simp add: setTruthValue_def getSTI_def)
  with Some assms(3) show ?thesis by (simp add: addLink_def split: option.splits)
next
  case None
  define i where "i = uuids g 0"
  define g1 where "g1 = snd (new_Atom ty None out tvo g)"
  have res: "snd (addLink ty out tvo g) = snd (addAtom i g1)"
    using None by (simp add: addLink_def split_beta g1_def i_def)
  show ?thesis
    unfolding res sti_in_bounds_def
  proof (intro ballI allI impI)
    fix j b assume j: "j \<in> set (atoms (snd (addAtom i g1)))" and b: "heap (snd (addAtom i g1)) j = Some b"
    from addAtom_store(2)[of g1 j i] b obtain b0 where b0: "heap g1 j = Some b0" "same_shape b0 b"
      by (auto simp: option_rel_Some2)
    have sti: "getSTI b = getSTI b0" using b0(2) by (simp add: same_shape_def getSTI_def)
    show "minSTI c \<le> getSTI b \<and> getSTI b \<le> maxSTI c"
    proof (cases "j = i")
      case True
      with b0(1) have "getSTI b0 = 0"
        by (auto simp: g1_def i_def heap_new_Atom getSTI_def new_AttentionValue_def)
      with sti assms show ?thesis by simp
    next
      case False
      with j addAtom_store(1)[of i g1] have "j \<in> set (atoms g)" by (auto simp: g1_def)
      moreover from False b0(1) have "heap g j = Some b0" by (simp add: g1_def i_def heap_new_Atom)
      ultimately show ?thesis using assms(3) sti by (auto simp: sti_in_bounds_def)
    qed
  qed
qed

lemma sti_in_bounds_setTruthValue:
  "sti_in_bounds c g \<Longrightarrow> sti_in_bounds c (mutate k (setTruthValue t) g)"
  by (rule sti_in_bounds_mutate) (simp_all add: setTruthValue_def getSTI_def)

lemma performHebbianLearning_bounds:
  assumes "sane_config (config e)"
  shows "bounds_kept e (snd (performHebbianLearning a b e))"
  using assms sti_in_bounds_addLink[of "config e" "atomSpace e"]
  by (auto simp add: performHebbianLearning_def bounds_kept_def Let_def split_beta
      sane_config_def sti_in_bounds_setTruthValue split: option.splits sum.splits)

text \<open>
  C6 as stated fails for a negative amount: \<open>stimulateAtom\<close> clamps at \<open>maxSTI\<close> only,
  so stimulating an atom of STI 0 by \<open>-5000\<close> leaves it at \<open>-5000\<close>, below
  \<open>minSTI = -1000\<close>.
\<close>

theorem stimulate_below_minSTI_counterexample:
  "minSTI (config ecan_AB) = - 1000
   \<and> map_option getSTI (getAtom ''u'' (atomSpace ecan_AB)) = Some 0
   \<and> fst (stimulateAtom ''u'' (Some (- 5000)) ecan_AB) = True
   \<and> map_option getSTI (getAtom ''u'' (atomSpace (snd (stimulateAtom ''u'' (Some (- 5000)) ecan_AB))))
       = Some (- 5000)"
  by (simp add: stimulateAtom_def ecan_AB_fields graph_AB_eval getAtom_def or_default_def
      Let_def mutate_def getSTI_def setSTI_def)

text \<open>
  C6, amended: in a configuration with \<open>minSTI \<le> 0 \<le> maxSTI\<close>, \<open>rentAmount \<ge> 0\<close>,
  \<open>decayRate \<ge> 0\<close> and \<open>0 \<le> diffusionRate \<le> 1\<close>, if every atom of the graph has its STI
  within \<open>[minSTI, maxSTI]\<close>, then so it is after each of the six phases of a cycle,
  after a whole cycle, after \<open>stimulate\<close> with a non-negative stimulus (the amount, or the
  default for a null or zero amount), and after Hebbian learning.
\<close>

theorem sti_bounds_preserved:
  assumes "sane_config (config e)" and "sti_in_bounds (config e) (atomSpace e)"
  shows "sti_in_bounds (config e) (atomSpace (collectRent e))
       \<and> sti_in_bounds (config e) (atomSpace (applySTIDecay e))
       \<and> sti_in_bounds (config e) (atomSpace (spreadImportance e))
       \<and> sti_in_bounds (config e) (atomSpace (updateAttentionalFocus e))
       \<and> sti_in_bounds (config e) (atomSpace (applyForgetting e))
       \<and> sti_in_bounds (config e) (atomSpace (updateStatistics e))
       \<and> sti_in_bounds (config e) (atomSpace (runCycle e))
       \<and> (0 \<le> or_default amount (stimulusAmount (config e)) \<longrightarrow>
            sti_in_bounds (config e) (atomSpace (snd (stimulateAtom i amount e))))
       \<and> sti_in_bounds (config e) (atomSpace (snd (performHebbianLearning a b e)))"
  using assms collectRent_bounds[of e] applySTIDecay_bounds[of e] spreadImportance_bounds[of e]
    updateAttentionalFocus_bounds[of e] applyForgetting_bounds[of e] updateStatistics_bounds[of e]
    runCycle_bounds[of e] stimulateAtom_bounds[of e amount i] performHebbianLearning_bounds[of e a b]
  by (simp add: bounds_kept_def)

text \<open>The amended C6 at the state of scenario S2, in the default configuration.\<close>

theorem sti_bounds_preserved_witness:
  "sane_config (config ecan_S2) \<and> sti_in_bounds (config ecan_S2) (atomSpace ecan_S2)
   \<and> 0 \<le> or_default (Some 5000) (stimulusAmount (config ecan_S2))
   \<and> sti_in_bounds (config ecan_S2) (atomSpace (collectRent ecan_S2))
   \<and> sti_in_bounds (config ecan_S2) (atomSpace (applySTIDecay ecan_S2))
   \<and> sti_in_bounds (config ecan_S2) (atomSpace (spreadImportance ecan_S2))
   \<and> sti_in_bounds (config ecan_S2) (atomSpace (updateAttentionalFocus ecan_S2))
   \<and> sti_in_bounds (config ecan_S2) (atomSpace (applyForgetting ecan_S2))
   \<and> sti_in_bounds (config ecan_S2) (atomSpace (updateStatistics ecan_S2))
   \<and> sti_in_bounds (config ecan_S2) (atomSpace (runCycle ecan_S2))
   \<and> sti_in_bounds (config ecan_S2) (atomSpace (snd (stimulateAtom ''u'' (Some 5000) ecan_S2)))
   \<and> sti_in_bounds (config ecan_S2) (atomSpace (snd (performHebbianLearning ''u'' ''uu'' ecan_S2)))"
proof -
  have s: "sane_config (config ecan_S2)"
    by (simp add: sane_config_def ecan_S2_fields)
  have b: "sti_in_bounds (config ecan_S2) (atomSpace ecan_S2)"
    by (simp add: sti_in_bounds_def ecan_S2_fields node_sti_def getSTI_def)
  have a: "0 \<le> or_default (Some 5000) (stimulusAmount (config ecan_S2))"
    by (simp add: or_default_def)
  show ?thesis
    using s b a sti_bounds_preserved[OF s b, of "Some 5000" "''u''" "''u''" "''uu''"]
    by blast
qed

section \<open>C10: the deadline of a job's execution\<close>

lemma update_job_fields [simp]:
  "plugins (update_job r f s) = plugins s"
  "jobQueue (update_job r f s) = jobQueue s"
  "runningJobs (update_job r f s) = runningJobs s"
  "completedJobs (update_job r f s) = completedJobs s"
  "server_stats (update_job r f s) = server_stats s"
  "clock (update_job r f s) = clock s"
  "timers (update_job r f s) = timers s"
  "events (update_job r f s) = events s"
  "job_heap (update_job r f s) k = (if k = r then map_option f (job_heap s r) else job_heap s k)"
  by (simp_all add: update_job_def)

lemma priority_of_set_timeout [simp]:
  "priority_of (update_job r (set_timeout t) s) = priority_of s"
  by (auto simp add: priority_of_def set_timeout_def fun_eq_iff split: option.splits)

lemma CogServer_eqI:
  fixes s s' :: CogServer
  assumes "plugins s = plugins s'" "job_heap s = job_heap s'" "jobQueue s = jobQueue s'"
    "runningJobs s = runningJobs s'" "completedJobs s = completedJobs s'"
    "server_stats s = server_stats s'" "clock s = clock s'" "timers s = timers s'" "events s = events s'"
  shows "s = s'"
  using assms by simp

lemma failJob_set_timeout:
  "failJob k m (update_job r (set_timeout t) s) = update_job r (set_timeout t) (failJob k m s)"
  by (rule CogServer_eqI)
     (auto simp add: failJob_def Date_now_def emit_def Let_def update_job_def set_timeout_def fun_eq_iff
        map_option_case split: option.splits)

lemma retryJob_set_timeout:
  "retryJob k m (update_job r (set_timeout t) s) = update_job r (set_timeout t) (retryJob k m s)"
  by (rule CogServer_eqI)
     (auto simp add: retryJob_def emit_def Let_def sort_queue_def update_job_def set_timeout_def fun_eq_iff
        priority_of_def map_option_case split: option.splits intro!: arg_cong2[where f = sort_key])

lemma completeJob_set_timeout:
  "completeJob k res (update_job r (set_timeout t) s) = update_job r (set_timeout t) (completeJob k res s)"
  by (rule CogServer_eqI)
     (auto simp add: completeJob_def Date_now_def emit_def Let_def update_job_def set_timeout_def fun_eq_iff
        map_option_case split: option.splits)

lemma retry_or_fail_set_timeout:
  "retry_or_fail k m (update_job r (set_timeout t) s) = update_job r (set_timeout t) (retry_or_fail k m s)"
  by (auto simp add: retry_or_fail_def retryJob_set_timeout failJob_set_timeout set_timeout_def
        split: option.splits)

lemma executeJob_start_set_timeout:
  "executeJob_start k (update_job r (set_timeout t) s) = update_job r (set_timeout t) (executeJob_start k s)"
  by (rule CogServer_eqI)
     (auto simp add: executeJob_start_def Date_now_def emit_def Let_def update_job_def set_timeout_def
        fun_eq_iff map_option_case split: option.splits)

lemma executeJob_set_timeout:
  "executeJob settled k (update_job r (set_timeout t) s) = update_job r (set_timeout t) (executeJob settled k s)"
proof (cases "job_heap s k")
  case None
  then have "job_heap (update_job r (set_timeout t) s) k = None" by auto
  with None show ?thesis by (simp add: executeJob_def)
next
  case (Some job)
  then obtain job' where j': "job_heap (update_job r (set_timeout t) s) k = Some job'"
    and id: "pluginId job' = pluginId job"
    by (cases "k = r") (simp_all add: set_timeout_def)
  have pl: "plugins (update_job r (set_timeout t) s) = plugins s" by simp
  show ?thesis
    unfolding executeJob_def j' Some option.case id pl
    by (cases "plugins s (pluginId job)"; cases settled)
       (simp_all only: option.case race.case executeJob_start_set_timeout completeJob_set_timeout
          retry_or_fail_set_timeout failJob_set_timeout)
qed

lemma executeJob_start_fields:
  "plugins (executeJob_start k s) = plugins s"
  "jobQueue (executeJob_start k s) = jobQueue s"
  "completedJobs (executeJob_start k s) = completedJobs s"
  "server_stats (executeJob_start k s) = server_stats s"
  "timers (executeJob_start k s) = timers s @ [SAFE_TIMEOUT]"
  "clock (executeJob_start k s) = (\<lambda>n. clock s (Suc n))"
  "job_heap (executeJob_start k s) k = map_option (\<lambda>j. j\<lparr>status := Running, startedAt := Some (clock s 0)\<rparr>) (job_heap s k)"
  by (simp_all add: executeJob_start_def Date_now_def emit_def Let_def)

lemma handler_timers:
  "timers (completeJob k res s) = timers s"
  "timers (failJob k m s) = timers s"
  "timers (retryJob k m s) = timers s"
  "timers (retry_or_fail k m s) = timers s"
  by (simp_all add: completeJob_def failJob_def retryJob_def retry_or_fail_def Date_now_def emit_def
        sort_queue_def Let_def split: option.splits)

lemma retryJob_effect:
  assumes "job_heap s k = Some j"
  shows "job_heap (retryJob k m s) k = Some (j\<lparr>retryCount := retryCount j + 1, status := Queued, job_error := Some m\<rparr>)"
    and "set (jobQueue (retryJob k m s)) = insert k (set (jobQueue s))"
    and "completedJobs (retryJob k m s) = completedJobs s"
    and "server_stats (retryJob k m s) = server_stats s"
  using assms by (simp_all add: retryJob_def emit_def sort_queue_def Let_def)

lemma failJob_effect:
  assumes "job_heap s k = Some j"
  shows "job_heap (failJob k m s) k = Some (j\<lparr>status := Failed, completedAt := Some (clock s 0), job_error := Some m\<rparr>)"
    and "jobQueue (failJob k m s) = jobQueue s"
    and "completedJobs (failJob k m s) = completedJobs s @ [k]"
    and "totalJobsFailed (server_stats (failJob k m s)) = totalJobsFailed (server_stats s) + 1"
  using assms by (simp_all add: failJob_def Date_now_def emit_def Let_def)

lemma server_1_start:
  "executeJob_start ''job_1'' (server_1 r) =
     \<lparr>plugins = [''pln'' \<mapsto> sample_plugin 5, ''ecan'' \<mapsto> sample_plugin 8,
                 ''patternMining'' \<mapsto> sample_plugin 3, ''goalProcessing'' \<mapsto> sample_plugin 7,
                 ''memoryConsolidation'' \<mapsto> sample_plugin 4,
                 ''slow'' \<mapsto> sample_plugin 1],
      job_heap = [''job_1'' \<mapsto> (sample_job r)\<lparr>status := Running, startedAt := Some 0\<rparr>],
      jobQueue = [], runningJobs = [''job_1''], completedJobs = [],
      server_stats = \<lparr>totalJobsScheduled = 1, totalJobsCompleted = 0, totalJobsFailed = 0,
                        averageJobDuration = 0\<rparr>,
      clock = (\<lambda>n. sample_clock (Suc n)), timers = [30000],
      events = [(''jobScheduled'', ''job_1''), (''jobStarted'', ''job_1'')]\<rparr>"
  by (simp add: executeJob_start_def server_1_def Date_now_def update_job_def emit_def set_add_def
        SAFE_TIMEOUT_def sample_clock_def Let_def)

lemma server_2_eval:
  "server_2 =
     \<lparr>plugins = [''pln'' \<mapsto> sample_plugin 5, ''ecan'' \<mapsto> sample_plugin 8,
                 ''patternMining'' \<mapsto> sample_plugin 3, ''goalProcessing'' \<mapsto> sample_plugin 7,
                 ''memoryConsolidation'' \<mapsto> sample_plugin 4,
                 ''slow'' \<mapsto> sample_plugin 1],
      job_heap = [''job_1'' \<mapsto> (sample_job 1)\<lparr>status := Queued, startedAt := Some 0,
                     retryCount := 1, job_error := Some ''Job timed out''\<rparr>],
      jobQueue = [], runningJobs = [], completedJobs = [],
      server_stats = \<lparr>totalJobsScheduled = 1, totalJobsCompleted = 0, totalJobsFailed = 0,
                        averageJobDuration = 0\<rparr>,
      clock = (\<lambda>n. sample_clock (Suc n)), timers = [30000],
      events = [(''jobScheduled'', ''job_1''), (''jobStarted'', ''job_1''), (''jobRetried'', ''job_1'')]\<rparr>"
proof -
  have "executeJob Timer_fired ''job_1'' (server_1 1)
          = retry_or_fail ''job_1'' ''Job timed out'' (executeJob_start ''job_1'' (server_1 1))"
    by (simp add: executeJob_def server_1_def sample_job_def)
  then show ?thesis
    by (simp add: server_2_def server_1_start retry_or_fail_def retryJob_def update_job_def emit_def
          sort_queue_def set_delete_def sample_job_def Let_def)
qed

text \<open>
  C10 says that a job whose plugin has not settled when the timer fires fails. With
  retries left it does not: a job scheduled with \<open>timeout: 60000\<close> and \<open>maxRetries: 1\<close> is
  put back into the queue, with status \<open>queued\<close> and one retry counted, and no job has
  failed. When the plugin settles in time on the second attempt, the job is completed.
\<close>

theorem timed_out_job_is_queued_again:
  "job_heap (server_1 1) ''job_1'' = Some (sample_job 1)
   \<and> timeout (job_options (sample_job 1)) = 60000
   \<and> maxRetries (job_options (sample_job 1)) = 1
   \<and> retryCount (sample_job 1) = 0
   \<and> map_option status (job_heap (executeJob Timer_fired ''job_1'' (server_1 1)) ''job_1'') = Some Queued
   \<and> map_option status (job_heap (executeJob Timer_fired ''job_1'' (server_1 1)) ''job_1'') \<noteq> Some Failed
   \<and> map_option retryCount (job_heap (executeJob Timer_fired ''job_1'' (server_1 1)) ''job_1'') = Some 1
   \<and> jobQueue (executeJob Timer_fired ''job_1'' (server_1 1)) = [''job_1'']
   \<and> completedJobs (executeJob Timer_fired ''job_1'' (server_1 1)) = []
   \<and> totalJobsFailed (server_stats (executeJob Timer_fired ''job_1'' (server_1 1))) = 0
   \<and> map_option status (job_heap (executeJob (Plugin_fulfilled ''done'') ''job_1'' server_2) ''job_1'')
       = Some Completed
   \<and> completedJobs (executeJob (Plugin_fulfilled ''done'') ''job_1'' server_2) = [''job_1'']
   \<and> totalJobsFailed (server_stats (executeJob (Plugin_fulfilled ''done'') ''job_1'' server_2)) = 0"
proof -
  have "executeJob Timer_fired ''job_1'' (server_1 1)
          = retry_or_fail ''job_1'' ''Job timed out'' (executeJob_start ''job_1'' (server_1 1))"
    by (simp add: executeJob_def server_1_def sample_job_def)
  then have first: "map_option status (job_heap (executeJob Timer_fired ''job_1'' (server_1 1)) ''job_1'') = Some Queued"
    "map_option retryCount (job_heap (executeJob Timer_fired ''job_1'' (server_1 1)) ''job_1'') = Some 1"
    "jobQueue (executeJob Timer_fired ''job_1'' (server_1 1)) = [''job_1'']"
    "completedJobs (executeJob Timer_fired ''job_1'' (server_1 1)) = []"
    "totalJobsFailed (server_stats (executeJob Timer_fired ''job_1'' (server_1 1))) = 0"
    by (simp_all add: server_1_start retry_or_fail_def retryJob_def update_job_def emit_def sort_queue_def
          set_delete_def sample_job_def Let_def)
  have "executeJob (Plugin_fulfilled ''done'') ''job_1'' server_2
          = completeJob ''job_1'' ''done'' (executeJob_start ''job_1'' server_2)"
    by (simp add: executeJob_def server_2_eval sample_job_def)
  then have second: "map_option status (job_heap (executeJob (Plugin_fulfilled ''done'') ''job_1'' server_2) ''job_1'')
       = Some Completed"
    "completedJobs (executeJob (Plugin_fulfilled ''done'') ''job_1'' server_2) = [''job_1'']"
    "totalJobsFailed (server_stats (executeJob (Plugin_fulfilled ''done'') ''job_1'' server_2)) = 0"
    by (simp_all add: server_2_eval executeJob_start_def completeJob_def Date_now_def update_job_def emit_def
          set_add_def set_delete_def sample_job_def SAFE_TIMEOUT_def Let_def)
  have start: "job_heap (server_1 1) ''job_1'' = Some (sample_job 1)"
    "timeout (job_options (sample_job 1)) = 60000"
    "maxRetries (job_options (sample_job 1)) = 1" "retryCount (sample_job 1) = 0"
    by (simp_all add: server_1_def sample_job_def)
  from first(1) have "map_option status (job_heap (executeJob Timer_fired ''job_1'' (server_1 1)) ''job_1'')
      \<noteq> Some Failed"
    by (simp only: option.inject job_status.distinct not_False_eq_True)
  with first second start show ?thesis by blast
qed

lemma executeJob_parts:
  assumes "job_heap s jobRef = Some job"
    and "plugins s (pluginId job) = Some p"
  shows "timers (executeJob settled jobRef s) = timers s @ [30000]"
    and "executeJob settled jobRef (update_job jobRef (set_timeout t) s)
           = update_job jobRef (set_timeout t) (executeJob settled jobRef s)"
    and "real (retryCount job) < maxRetries (job_options job) \<longrightarrow>
           job_heap (executeJob Timer_fired jobRef s) jobRef
             = Some (job\<lparr>status := Queued, startedAt := Some (clock s 0),
                           retryCount := retryCount job + 1, job_error := Some ''Job timed out''\<rparr>)
           \<and> jobRef \<in> set (jobQueue (executeJob Timer_fired jobRef s))
           \<and> completedJobs (executeJob Timer_fired jobRef s) = completedJobs s"
    and "\<not> real (retryCount job) < maxRetries (job_options job) \<longrightarrow>
           job_heap (executeJob Timer_fired jobRef s) jobRef
             = Some (job\<lparr>status := Failed, startedAt := Some (clock s 0),
                           completedAt := Some (clock s 1), job_error := Some ''Job timed out''\<rparr>)
           \<and> jobQueue (executeJob Timer_fired jobRef s) = jobQueue s
           \<and> completedJobs (executeJob Timer_fired jobRef s) = completedJobs s @ [jobRef]"
proof -
  let ?s4 = "executeJob_start jobRef s"
  have h4: "job_heap ?s4 jobRef = Some (job\<lparr>status := Running, startedAt := Some (clock s 0)\<rparr>)"
    by (simp add: executeJob_start_fields assms(1))
  show "timers (executeJob settled jobRef s) = timers s @ [30000]"
    using assms by (simp add: executeJob_def handler_timers executeJob_start_fields SAFE_TIMEOUT_def
        split: race.splits)
  show "executeJob settled jobRef (update_job jobRef (set_timeout t) s)
           = update_job jobRef (set_timeout t) (executeJob settled jobRef s)"
    by (rule executeJob_set_timeout)
  have "executeJob Timer_fired jobRef s = retry_or_fail jobRef ''Job timed out'' ?s4"
    using assms by (simp add: executeJob_def)
  then have run: "executeJob Timer_fired jobRef s =
      (if real (retryCount job) < maxRetries (job_options job)
       then retryJob jobRef ''Job timed out'' ?s4 else failJob jobRef ''Job timed out'' ?s4)"
    by (simp add: retry_or_fail_def h4)
  show "real (retryCount job) < maxRetries (job_options job) \<longrightarrow>
           job_heap (executeJob Timer_fired jobRef s) jobRef
             = Some (job\<lparr>status := Queued, startedAt := Some (clock s 0),
                           retryCount := retryCount job + 1, job_error := Some ''Job timed out''\<rparr>)
           \<and> jobRef \<in> set (jobQueue (executeJob Timer_fired jobRef s))
           \<and> completedJobs (executeJob Timer_fired jobRef s) = completedJobs s"
    using retryJob_effect[OF h4, of "''Job timed out''"]
    by (simp add: run executeJob_start_fields(2,3))
  show "\<not> real (retryCount job) < maxRetries (job_options job) \<longrightarrow>
           job_heap (executeJob Timer_fired jobRef s) jobRef
             = Some (job\<lparr>status := Failed, startedAt := Some (clock s 0),
                           completedAt := Some (clock s 1), job_error := Some ''Job timed out''\<rparr>)
           \<and> jobQueue (executeJob Timer_fired jobRef s) = jobQueue s
           \<and> completedJobs (executeJob Timer_fired jobRef s) = completedJobs s @ [jobRef]"
    using failJob_effect[OF h4, of "''Job timed out''"]
    by (simp add: run executeJob_start_fields(2,3,6))
qed

text \<open>
  C10, amended: for every job whose plugin is registered, \<open>executeJob\<close> sets its timer
  with 30000 ms, and its effect does not depend on \<open>job.options.timeout\<close>: run on a
  server where that field of the job holds another number, it yields the same server
  but for that field. When the timer settles the race, the attempt ends with the error
  \<open>Job timed out\<close>: a job with \<open>retryCount < maxRetries\<close> is queued again with one more
  retry counted, and any other job fails and joins the completed jobs.
\<close>

theorem executeJob_fixed_deadline:
  assumes "job_heap s jobRef = Some job"
    and "plugins s (pluginId job) = Some p"
  shows "timers (executeJob settled jobRef s) = timers s @ [30000]
       \<and> executeJob settled jobRef (update_job jobRef (set_timeout t) s)
           = update_job jobRef (set_timeout t) (executeJob settled jobRef s)
       \<and> (real (retryCount job) < maxRetries (job_options job) \<longrightarrow>
            job_heap (executeJob Timer_fired jobRef s) jobRef
              = Some (job\<lparr>status := Queued, startedAt := Some (clock s 0),
                            retryCount := retryCount job + 1, job_error := Some ''Job timed out''\<rparr>)
            \<and> jobRef \<in> set (jobQueue (executeJob Timer_fired jobRef s))
            \<and> completedJobs (executeJob Timer_fired jobRef s) = completedJobs s)
       \<and> (\<not> real (retryCount job) < maxRetries (job_options job) \<longrightarrow>
            job_heap (executeJob Timer_fired jobRef s) jobRef
              = Some (job\<lparr>status := Failed, startedAt := Some (clock s 0),
                            completedAt := Some (clock s 1), job_error := Some ''Job timed out''\<rparr>)
            \<and> jobQueue (executeJob Timer_fired jobRef s) = jobQueue s
            \<and> completedJobs (executeJob Timer_fired jobRef s) = completedJobs s @ [jobRef])"
  using executeJob_parts[OF assms] by blast

text \<open>
  The amended C10 at a job scheduled with \<open>timeout: 60000\<close>: without retries it fails when
  the timer fires, with two retries allowed it is queued again.
\<close>

theorem executeJob_fixed_deadline_witness:
  "job_heap (server_1 0) ''job_1'' = Some (sample_job 0)
   \<and> job_heap (server_1 2) ''job_1'' = Some (sample_job 2)
   \<and> plugins (server_1 0) (pluginId (sample_job 0)) = Some (sample_plugin 1)
   \<and> plugins (server_1 2) (pluginId (sample_job 2)) = Some (sample_plugin 1)
   \<and> timeout (job_options (sample_job 0)) = 60000
   \<and> timers (executeJob Timer_fired ''job_1'' (server_1 0)) = [30000]
   \<and> executeJob Timer_fired ''job_1'' (update_job ''job_1'' (set_timeout 45000) (server_1 0))
       = update_job ''job_1'' (set_timeout 45000) (executeJob Timer_fired ''job_1'' (server_1 0))
   \<and> \<not> real (retryCount (sample_job 0)) < maxRetries (job_options (sample_job 0))
   \<and> map_option status (job_heap (executeJob Timer_fired ''job_1'' (server_1 0)) ''job_1'') = Some Failed
   \<and> map_option job_error (job_heap (executeJob Timer_fired ''job_1'' (server_1 0)) ''job_1'')
        = Some (Some ''Job timed out'')
   \<and> completedJobs (executeJob Timer_fired ''job_1'' (server_1 0)) = [''job_1'']
   \<and> real (retryCount (sample_job 2)) < maxRetries (job_options (sample_job 2))
   \<and> map_option status (job_heap (executeJob Timer_fired ''job_1'' (server_1 2)) ''job_1'') = Some Queued
   \<and> map_option retryCount (job_heap (executeJob Timer_fired ''job_1'' (server_1 2)) ''job_1'') = Some 1
   \<and> ''job_1'' \<in> set (jobQueue (executeJob Timer_fired ''job_1'' (server_1 2)))
   \<and> completedJobs (executeJob Timer_fired ''job_1'' (server_1 2)) = []"
proof -
  have h: "job_heap (server_1 r) ''job_1'' = Some (sample_job r)" for r
    by (simp add: server_1_def)
  have p: "plugins (server_1 r) (pluginId (sample_job r)) = Some (sample_plugin 1)" for r
    by (simp add: server_1_def sample_job_def)
  have c: "completedJobs (server_1 r) = []" "timers (server_1 r) = []" for r
    by (simp_all add: server_1_def)
  have j: "retryCount (sample_job r) = 0" "maxRetries (job_options (sample_job r)) = r"
    "timeout (job_options (sample_job r)) = 60000" for r
    by (simp_all add: sample_job_def)
  from executeJob_fixed_deadline[OF h[of 0] p[of 0], where settled = Timer_fired and t = 45000]
    executeJob_fixed_deadline[OF h[of 2] p[of 2], where settled = Timer_fired and t = 45000]
  show ?thesis by (simp add: h p c j)
qed

end
